(* ===== verification/Prelude.thy ===== *)
theory Prelude
  imports Complex_Main "HOL-Library.AList" "HOL-Library.Sublist"
begin

section \<open>Prelude: collections of facts and generic lemmas\<close>

text \<open>
  What every other theory shares: the \<^theory_text>\<open>named_theorems\<close> collections, generic lemmas on
  lists, association lists and sums, and the sequencing of fallible pure code.
  Nothing here models code of the repository.

  \<^item> \<open>emits_intros\<close> holds the rules that bound the external calls a computation makes;
  \<^item> \<open>total_intros\<close> holds the rules that show that a computation does not raise;
  \<^item> \<open>frame_intros\<close> holds the rules that show that a computation leaves an object alone;
  \<^item> \<open>runs_intros\<close> holds the rules for the contracts of computations.
\<close>

named_theorems emits_intros "rules bounding the external calls of a computation"
named_theorems total_intros "rules showing that a computation never raises"
named_theorems frame_intros "rules showing that a computation keeps the object it runs on"
named_theorems runs_intros "rules for the contracts of computations"

subsection \<open>Fallible pure code\<close>

text \<open>A pure Python expression that may raise is a value of \<open>'e + 'a\<close>: \<open>Inl\<close> is the
  exception. \<open>sum_bind\<close> continues only after a normal result.\<close>

definition sum_bind :: "'e + 'a \<Rightarrow> ('a \<Rightarrow> 'e + 'b) \<Rightarrow> 'e + 'b" where
  "sum_bind m f = (case m of Inl e \<Rightarrow> Inl e | Inr x \<Rightarrow> f x)"

lemma sum_bind_simps [simp]:
  "sum_bind (Inl e) f = Inl e"
  "sum_bind (Inr x) f = f x"
  by (simp_all add: sum_bind_def)

lemma sum_bind_Inr_iff:
  "sum_bind m f = Inr y \<longleftrightarrow> (\<exists>x. m = Inr x \<and> f x = Inr y)"
  by (cases m) auto

lemma sum_bind_Inl_iff:
  "sum_bind m f = Inl e \<longleftrightarrow> m = Inl e \<or> (\<exists>x. m = Inr x \<and> f x = Inl e)"
  by (cases m) auto

subsection \<open>Python dictionaries as association lists\<close>

text \<open>A dictionary keeps the order of insertion: storing under a key already present replaces
  the value in place, storing under a new key appends. This is \<open>AList.update\<close>.\<close>

abbreviation dict_set :: "'k \<Rightarrow> 'v \<Rightarrow> ('k \<times> 'v) list \<Rightarrow> ('k \<times> 'v) list" where
  "dict_set \<equiv> AList.update"

fun dict_update :: "('k \<times> 'v) list \<Rightarrow> ('k \<times> 'v) list \<Rightarrow> ('k \<times> 'v) list" where
  "dict_update d [] = d"
| "dict_update d ((k, v) # kvs) = dict_update (dict_set k v d) kvs"

lemma map_of_dict_set [simp]: "map_of (dict_set k v d) = (map_of d)(k \<mapsto> v)"
  by (simp add: update_conv')

lemma map_of_dict_update:
  "distinct (map fst kvs) \<Longrightarrow>
    map_of (dict_update d kvs) k = (case map_of kvs k of None \<Rightarrow> map_of d k | Some v \<Rightarrow> Some v)"
proof (induction d kvs rule: dict_update.induct)
  case (1 d)
  show ?case by simp
next
  case (2 d k' v kvs)
  from "2.prems" have "map_of kvs k' = None"
    by (simp add: map_of_eq_None_iff)
  with 2 show ?case by (auto split: option.splits)
qed

lemma map_of_dict_update_other:
  "k \<notin> fst ` set kvs \<Longrightarrow> map_of (dict_update d kvs) k = map_of d k"
  by (induction d kvs rule: dict_update.induct) auto

subsection \<open>Lists\<close>

fun find_index :: "('a \<Rightarrow> bool) \<Rightarrow> 'a list \<Rightarrow> nat option" where
  "find_index P [] = None"
| "find_index P (x # xs) = (if P x then Some 0 else map_option Suc (find_index P xs))"

lemma find_index_None_iff: "find_index P xs = None \<longleftrightarrow> (\<forall>x\<in>set xs. \<not> P x)"
  by (induction xs) auto

lemma find_index_SomeD:
  "find_index P xs = Some i \<Longrightarrow> i < length xs \<and> P (xs ! i) \<and> (\<forall>j<i. \<not> P (xs ! j))"
proof (induction xs arbitrary: i)
  case Nil
  then show ?case by simp
next
  case (Cons x xs)
  show ?case
  proof (cases "P x")
    case True
    with Cons.prems show ?thesis by simp
  next
    case False
    with Cons.prems obtain k where k: "find_index P xs = Some k" "i = Suc k" by auto
    with Cons.IH [OF k(1)] False show ?thesis
      by (auto simp: nth_Cons split: nat.splits)
  qed
qed

lemma list_all_concat_map:
  "(\<And>x. x \<in> set xs \<Longrightarrow> list_all P (f x)) \<Longrightarrow> list_all P (concat (map f xs))"
  by (induction xs) auto

end
