(* ===== verification/PyStr.thy ===== *)
theory PyStr
  imports Prelude
begin

section \<open>Python strings and bytes\<close>

text \<open>
  What the code uses of Python's \<open>str\<close>, \<open>bytes\<close>, \<open>os.path\<close> and the text codecs.

  A \<open>bytes\<close> object is a list of 8-bit characters. A \<open>str\<close> is represented by its UTF-8
  encoding, again a list of 8-bit characters. Every needle the code searches for or splits
  at is ASCII, and UTF-8 is self-synchronising, so finding, replacing, splitting and joining
  on the encoding is the same as on code points. \<open>py_lower\<close> acts on the
  ASCII range only: letters outside ASCII are kept as they are.
\<close>

type_synonym bytes = "char list"

subsection \<open>Case, white space, numbers\<close>

abbreviation code :: "char \<Rightarrow> nat" where "code c \<equiv> of_char c"

definition lower_char :: "char \<Rightarrow> char" where
  "lower_char c = (if 65 \<le> code c \<and> code c \<le> 90 then char_of (code c + 32) else c)"

definition py_lower :: "string \<Rightarrow> string" where
  "py_lower s = map lower_char s"

definition is_space :: "char \<Rightarrow> bool" where
  "is_space c = ((9 \<le> code c \<and> code c \<le> 13) \<or> (28 \<le> code c \<and> code c \<le> 32))"

text \<open>The white space outside ASCII, from \<open>U+0085\<close> to \<open>U+3000\<close>, each character as its encoding.\<close>

definition wide_spaces :: "string list" where
  "wide_spaces =
     [[CHR 0xC2, CHR 0x85], [CHR 0xC2, CHR 0xA0], [CHR 0xE1, CHR 0x9A, CHR 0x80],
      [CHR 0xE2, CHR 0x80, CHR 0x80], [CHR 0xE2, CHR 0x80, CHR 0x81], [CHR 0xE2, CHR 0x80, CHR 0x82],
      [CHR 0xE2, CHR 0x80, CHR 0x83], [CHR 0xE2, CHR 0x80, CHR 0x84], [CHR 0xE2, CHR 0x80, CHR 0x85],
      [CHR 0xE2, CHR 0x80, CHR 0x86], [CHR 0xE2, CHR 0x80, CHR 0x87], [CHR 0xE2, CHR 0x80, CHR 0x88],
      [CHR 0xE2, CHR 0x80, CHR 0x89], [CHR 0xE2, CHR 0x80, CHR 0x8A], [CHR 0xE2, CHR 0x80, CHR 0xA8],
      [CHR 0xE2, CHR 0x80, CHR 0xA9], [CHR 0xE2, CHR 0x80, CHR 0xAF], [CHR 0xE2, CHR 0x81, CHR 0x9F],
      [CHR 0xE3, CHR 0x80, CHR 0x80]]"

text \<open>White space is dropped from the front: a byte, or one of the encodings \<open>ws\<close>.\<close>

function drop_spaces :: "string list \<Rightarrow> string \<Rightarrow> string" where
  "drop_spaces ws [] = []"
| "drop_spaces ws (c # s) =
     (if is_space c then drop_spaces ws s
      else case find (\<lambda>w. prefix w (c # s)) ws of
          None \<Rightarrow> c # s
        | Some w \<Rightarrow> drop_spaces ws (drop (length w - 1) s))"
  by pat_completeness auto

termination by (relation "measure (\<lambda>(ws, s). length s)") auto

text \<open>\<open>s.strip()\<close>. An encoding is found from its end in a well-formed string as from its start.\<close>

definition py_strip :: "string \<Rightarrow> string" where
  "py_strip s = rev (drop_spaces (map rev wide_spaces) (rev (drop_spaces wide_spaces s)))"

text \<open>No byte but white space is dropped, and where there is none at either end, nothing is.\<close>

lemma wide_spaces_high: "w \<in> set wide_spaces \<Longrightarrow> w \<noteq> [] \<and> (\<forall>c\<in>set w. 128 \<le> code c)"
  by (auto simp: wide_spaces_def)

lemma drop_spaces_keeps:
  "c \<in> set s \<Longrightarrow> \<not> is_space c \<Longrightarrow> \<forall>w\<in>set ws. w \<noteq> [] \<and> c \<notin> set w \<Longrightarrow> c \<in> set (drop_spaces ws s)"
proof (induction ws s rule: drop_spaces.induct)
  case (2 ws a s)
  show ?case
  proof (cases "is_space a \<or> find (\<lambda>w. prefix w (a # s)) ws = None")
    case True
    with 2 show ?thesis by auto
  next
    case False
    then obtain w where a: "\<not> is_space a" and found: "find (\<lambda>w. prefix w (a # s)) ws = Some w" by auto
    then have w: "w \<in> set ws" "prefix w (a # s)" by (auto simp: find_Some_iff)
    with 2 obtain v r where "w = a # v" "s = v @ r" by (cases w) (auto simp: prefix_def)
    moreover have "c \<notin> set w" using 2 w(1) by blast
    ultimately have "c \<in> set (drop (length w - 1) s)" using 2 by auto
    with a found 2 show ?thesis by simp
  qed
qed simp

lemma drop_spaces_none:
  assumes "\<not> is_space c" and "\<forall>w\<in>set ws. w \<noteq> [] \<and> c \<notin> set w"
  shows "drop_spaces ws (c # s) = c # s"
proof -
  have "\<not> prefix w (c # s)" if "w \<in> set ws" for w using assms(2) that by (cases w) auto
  then have "find (\<lambda>w. prefix w (c # s)) ws = None" by (simp add: find_None_iff)
  with assms(1) show ?thesis by simp
qed

lemma narrow_char: "code c < 128 \<Longrightarrow> \<forall>w\<in>set wide_spaces \<union> set (map rev wide_spaces). w \<noteq> [] \<and> c \<notin> set w"
  using wide_spaces_high by fastforce

lemma py_strip_nonblank:
  assumes "c \<in> set s" and "\<not> is_space c" and "code c < 128"
  shows "py_strip s \<noteq> ''''"
proof -
  have "c \<in> set (drop_spaces wide_spaces s)" using assms narrow_char by (intro drop_spaces_keeps) auto
  then have "c \<in> set (drop_spaces (map rev wide_spaces) (rev (drop_spaces wide_spaces s)))"
    using assms narrow_char by (intro drop_spaces_keeps) auto
  then show ?thesis by (auto simp: py_strip_def)
qed

lemma py_strip_id:
  assumes "s = a # r" and "s = l @ [b]" and "\<not> is_space a" and "\<not> is_space b" and "code a < 128" and "code b < 128"
  shows "py_strip s = s"
proof -
  have "drop_spaces wide_spaces s = s" unfolding assms(1) using assms(3,5) narrow_char by (intro drop_spaces_none) auto
  moreover have "drop_spaces (map rev wide_spaces) (b # rev l) = b # rev l"
    using assms(4,6) narrow_char by (intro drop_spaces_none) auto
  moreover have "rev s = b # rev l" by (simp add: assms(2))
  ultimately show ?thesis by (metis py_strip_def rev_rev_ident)
qed

lemma py_strip_samples:
  "py_strip '' a b '' = ''a b''" "py_strip [CHR 0xC2, CHR 0xA0, CHR ''x'', CHR 0xE2, CHR 0x80, CHR 0x89] = ''x''"
  "py_strip [CHR 0xE3, CHR 0x80, CHR 0x80] = ''''" "py_strip '''' = ''''"
  by code_simp+

definition digit_char :: "nat \<Rightarrow> char" where
  "digit_char d = char_of (48 + d)"

fun nat_str :: "nat \<Rightarrow> string" where
  "nat_str n = (if n < 10 then [digit_char n] else nat_str (n div 10) @ [digit_char (n mod 10)])"

declare nat_str.simps [simp del]

definition int_str :: "int \<Rightarrow> string" where
  "int_str i = (if i < 0 then CHR ''-'' # nat_str (nat (- i)) else nat_str (nat i))"

text \<open>\<open>"\%0wd"\<close>: padded with zeros on the left.\<close>

definition pad_str :: "nat \<Rightarrow> int \<Rightarrow> string" where
  "pad_str w i = replicate (w - length (int_str i)) (CHR ''0'') @ int_str i"

subsection \<open>Replace, split, join\<close>

text \<open>\<open>s.replace(old, new)\<close> for a non-empty \<open>old\<close>: left to right, without overlaps. The counter
  is the number of characters of an occurrence still to be skipped.\<close>

fun replace_from :: "string \<Rightarrow> string \<Rightarrow> nat \<Rightarrow> string \<Rightarrow> string" where
  "replace_from old new k [] = []"
| "replace_from old new (Suc k) (c # s) = replace_from old new k s"
| "replace_from old new 0 (c # s) =
     (if prefix old (c # s) then new @ replace_from old new (length old - 1) s
      else c # replace_from old new 0 s)"

definition py_replace :: "string \<Rightarrow> string \<Rightarrow> string \<Rightarrow> string" where
  "py_replace s old new = replace_from old new 0 s"

text \<open>\<open>s.split(sep)\<close> for a non-empty \<open>sep\<close>.\<close>

fun split_from :: "string \<Rightarrow> nat \<Rightarrow> string \<Rightarrow> string \<Rightarrow> string list" where
  "split_from sep k acc [] = [rev acc]"
| "split_from sep (Suc k) acc (c # s) = split_from sep k acc s"
| "split_from sep 0 acc (c # s) =
     (if prefix sep (c # s) then rev acc # split_from sep (length sep - 1) [] s
      else split_from sep 0 (c # acc) s)"

definition py_split :: "string \<Rightarrow> string \<Rightarrow> string list" where
  "py_split s sep = split_from sep 0 [] s"

fun py_join :: "string \<Rightarrow> string list \<Rightarrow> string" where
  "py_join sep [] = ''''"
| "py_join sep [x] = x"
| "py_join sep (x # y # xs) = x @ sep @ py_join sep (y # xs)"

lemma replace_from_absent:
  "old \<noteq> [] \<Longrightarrow> \<not> sublist old s \<Longrightarrow> replace_from old new 0 s = s"
  by (induction s) (auto simp: sublist_Cons_right)

lemma py_replace_absent [simp]: "old \<noteq> [] \<Longrightarrow> \<not> sublist old s \<Longrightarrow> py_replace s old new = s"
  by (simp add: py_replace_def replace_from_absent)

lemma split_from_absent:
  "sep \<noteq> [] \<Longrightarrow> \<not> sublist sep s \<Longrightarrow> split_from sep 0 acc s = [rev acc @ s]"
  by (induction s arbitrary: acc) (auto simp: sublist_Cons_right)

lemma split_from_nonempty [simp]: "split_from sep k acc s \<noteq> []"
  by (induction sep k acc s rule: split_from.induct) auto

lemma py_split_nonempty [simp]: "py_split s sep \<noteq> []"
  by (simp add: py_split_def)

text \<open>Joining the parts of a split at a one-character separator gives the string back.\<close>

lemma join_split_from:
  "py_join [d] (split_from [d] 0 acc s) = rev acc @ s"
proof (induction s arbitrary: acc)
  case Nil
  show ?case by simp
next
  case (Cons c s)
  show ?case
  proof (cases "c = d")
    case True
    obtain y ys where ys: "split_from [d] 0 [] s = y # ys"
      using split_from_nonempty by (cases "split_from [d] 0 [] s") blast+
    with Cons.IH [of "[]"] True show ?thesis by simp
  next
    case False
    with Cons.IH [of "c # acc"] show ?thesis by simp
  qed
qed

lemma py_join_split: "py_join [d] (py_split s [d]) = s"
  by (simp add: py_split_def join_split_from)

subsection \<open>Representation of strings: \<open>repr\<close>\<close>

definition hex_digit :: "nat \<Rightarrow> char" where
  "hex_digit d = (if d < 10 then char_of (48 + d) else char_of (87 + d))"

definition repr_char :: "char \<Rightarrow> char \<Rightarrow> string" where
  "repr_char q c =
     (if c = q \<or> code c = 92 then [char_of (92::nat), c]
      else if code c = 10 then [char_of (92::nat), CHR ''n'']
      else if code c = 13 then [char_of (92::nat), CHR ''r'']
      else if code c = 9 then [char_of (92::nat), CHR ''t'']
      else if code c < 32 \<or> code c = 127
        then [char_of (92::nat), CHR ''x'', hex_digit (code c div 16), hex_digit (code c mod 16)]
      else [c])"

abbreviation squote :: char where "squote \<equiv> CHR 0x27"
abbreviation dquote :: char where "dquote \<equiv> CHR 0x22"

definition py_repr :: "string \<Rightarrow> string" where
  "py_repr s =
     (let q = (if squote \<in> set s \<and> dquote \<notin> set s then dquote else squote)
      in [q] @ concat (map (repr_char q) s) @ [q])"

definition py_repr_list :: "string list \<Rightarrow> string" where
  "py_repr_list xs = ''['' @ py_join '', '' (map py_repr xs) @ '']''"

subsection \<open>Paths: \<open>os.path\<close> on POSIX\<close>

definition basename :: "string \<Rightarrow> string" where
  "basename p = rev (takeWhile (\<lambda>c. c \<noteq> CHR ''/'') (rev p))"

text \<open>The extension starts at the last dot of the last component, unless only dots come
  before it (\<open>.bashrc\<close> has none).\<close>

definition path_ext :: "string \<Rightarrow> string" where
  "path_ext p =
     (let b = basename p;
          e = rev (takeWhile (\<lambda>c. c \<noteq> CHR ''.'') (rev b))
      in if CHR ''.'' \<in> set b \<and> (\<exists>c \<in> set (take (length b - Suc (length e)) b). c \<noteq> CHR ''.'')
         then CHR ''.'' # e else '''')"

definition splitext :: "string \<Rightarrow> string \<times> string" where
  "splitext p = (take (length p - length (path_ext p)) p, path_ext p)"

definition path_join :: "string \<Rightarrow> string \<Rightarrow> string" where
  "path_join a b =
     (if prefix ''/'' b then b
      else if a = '''' \<or> suffix ''/'' a then a @ b
      else a @ ''/'' @ b)"

fun strip_common :: "'a list \<Rightarrow> 'a list \<Rightarrow> 'a list \<times> 'a list" where
  "strip_common (x # xs) (y # ys) = (if x = y then strip_common xs ys else (x # xs, y # ys))"
| "strip_common xs ys = (xs, ys)"

text \<open>\<open>os.path.relpath\<close> for two absolute paths without \<open>.\<close> and \<open>..\<close> components.\<close>

definition relpath :: "string \<Rightarrow> string \<Rightarrow> string" where
  "relpath p start =
     (let parts = (\<lambda>s. filter (\<lambda>x. x \<noteq> '''') (py_split s ''/''));
          (ps, ss) = strip_common (parts p) (parts start);
          rel = replicate (length ss) ''..'' @ ps
      in if rel = [] then ''.'' else py_join ''/'' rel)"

subsection \<open>Code points\<close>

text \<open>Well-formed UTF-8 (RFC 3629), as Python's strict decoder accepts it: no overlong forms, no
  surrogates, nothing above \<open>U+10FFFF\<close>.\<close>

abbreviation cont :: "char \<Rightarrow> bool" where
  "cont c \<equiv> 128 \<le> code c \<and> code c \<le> 191"

fun utf8_valid :: "bytes \<Rightarrow> bool" where
  "utf8_valid [] = True"
| "utf8_valid (a # s) =
     (if code a < 128 then utf8_valid s
      else if 194 \<le> code a \<and> code a \<le> 223
        then (case s of b # r \<Rightarrow> cont b \<and> utf8_valid r | _ \<Rightarrow> False)
      else if 224 \<le> code a \<and> code a \<le> 239
        then (case s of b # c # r \<Rightarrow>
            cont b \<and> cont c \<and> (code a = 224 \<longrightarrow> 160 \<le> code b) \<and> (code a = 237 \<longrightarrow> code b \<le> 159)
            \<and> utf8_valid r | _ \<Rightarrow> False)
      else if 240 \<le> code a \<and> code a \<le> 244
        then (case s of b # c # d # r \<Rightarrow>
            cont b \<and> cont c \<and> cont d \<and> (code a = 240 \<longrightarrow> 144 \<le> code b) \<and> (code a = 244 \<longrightarrow> code b \<le> 143)
            \<and> utf8_valid r | _ \<Rightarrow> False)
      else False)"

text \<open>The UTF-8 encoding of a code point of the basic multilingual plane.\<close>

definition utf8_encode :: "nat \<Rightarrow> bytes" where
  "utf8_encode n =
     (if n < 128 then [char_of n]
      else if n < 2048 then [char_of (192 + n div 64), char_of (128 + n mod 64)]
      else [char_of (224 + n div 4096), char_of (128 + (n div 64) mod 64), char_of (128 + n mod 64)])"

lemma wide_spaces_points:
  "wide_spaces = map utf8_encode ([133, 160, 5760] @ [8192..<8203] @ [8232, 8233, 8239, 8287, 12288])"
  by (simp add: wide_spaces_def utf8_encode_def upt_conv_Cons) code_simp

text \<open>The code points of a well-formed encoding.\<close>

fun utf8_points :: "bytes \<Rightarrow> nat list" where
  "utf8_points [] = []"
| "utf8_points (a # s) =
     (if code a < 128 then code a # utf8_points s
      else if code a < 224
        then (case s of b # r \<Rightarrow> ((code a - 192) * 64 + (code b - 128)) # utf8_points r | _ \<Rightarrow> [])
      else if code a < 240
        then (case s of b # c # r \<Rightarrow>
          ((code a - 224) * 4096 + (code b - 128) * 64 + (code c - 128)) # utf8_points r | _ \<Rightarrow> [])
      else (case s of b # c # d # r \<Rightarrow>
          ((code a - 240) * 262144 + (code b - 128) * 4096 + (code c - 128) * 64 + (code d - 128))
            # utf8_points r | _ \<Rightarrow> []))"

text \<open>A code point below the surrogates is encoded as well-formed UTF-8.\<close>

lemma utf8_valid_encode_append:
  assumes "n < 55296" "utf8_valid s" shows "utf8_valid (utf8_encode n @ s)"
proof -
  consider "n < 128" | "128 \<le> n" "n < 2048" | "2048 \<le> n" by linarith
  then show ?thesis
  proof cases
    case 1 then show ?thesis using assms by (simp add: utf8_encode_def)
  next
    case 2
    have "2 \<le> n div 64" "n div 64 < 32" "n mod 64 < 64" using 2 by auto
    then show ?thesis using 2 assms by (simp add: utf8_encode_def)
  next
    case 3
    define m where "m = n div 64"
    have m: "m < 864" "32 \<le> m" "n div 4096 = m div 64"
      using 3 assms(1) by (auto simp: m_def simp flip: div_mult2_eq)
    have "m div 64 < 14" using m(1) by auto
    moreover have "m div 64 = 0 \<Longrightarrow> 32 \<le> m mod 64"
      using m(2) by (metis mod_less div_eq_0_iff zero_neq_numeral)
    moreover have "m div 64 = 13 \<Longrightarrow> m mod 64 \<le> 31"
      using m(1) div_mult_mod_eq [of m 64] by linarith
    moreover have "m mod 64 < 64" "n mod 64 < 64" by auto
    ultimately show ?thesis using 3 assms by (auto simp add: utf8_encode_def m(3) simp flip: m_def)
  qed
qed
end
