(* ===== verification/PyVal.thy ===== *)
theory PyVal
  imports PyStr
begin

section \<open>Python values and exceptions\<close>

text \<open>
  The AutoIndexer resource, its status and the configuration of a data source are
  \<open>dict[str, Any]\<close> objects decoded from JSON. They are modelled as JSON values, with the
  dictionary operations of Python on them, raising where Python raises.
\<close>

subsection \<open>Exceptions\<close>

text \<open>The classes the code catches or raises by name, and \<open>OtherException\<close> for every other
  subclass of \<open>Exception\<close>. Each carries what \<open>str(e)\<close> prints.\<close>

datatype exn =
    DataSourceError string
  | ContentHandlingError string
  | ApiException int string
  | ConfigException string
  | GitCommandError string
  | GitBadName string
  | RequestException string
  | ClientAuthenticationError string
  | UnicodeDecodeError string
  | AttributeError string
  | TypeError string
  | KeyError string
  | IndexError string
  | ValueError string
  | ImportError string
  | OtherException string

fun exn_str :: "exn \<Rightarrow> string" where
  "exn_str (DataSourceError m) = m"
| "exn_str (ContentHandlingError m) = m"
| "exn_str (ApiException st m) = m"
| "exn_str (ConfigException m) = m"
| "exn_str (GitCommandError m) = m"
| "exn_str (GitBadName m) = m"
| "exn_str (RequestException m) = m"
| "exn_str (ClientAuthenticationError m) = m"
| "exn_str (UnicodeDecodeError m) = m"
| "exn_str (AttributeError m) = m"
| "exn_str (TypeError m) = m"
| "exn_str (KeyError k) = py_repr k"
| "exn_str (IndexError m) = m"
| "exn_str (ValueError m) = m"
| "exn_str (ImportError m) = m"
| "exn_str (OtherException m) = m"

subsection \<open>JSON values\<close>

datatype json =
    JNull
  | JBool bool
  | JInt int
  | JStr string
  | JList "json list"
  | JDict "(string \<times> json) list"

fun truthy :: "json \<Rightarrow> bool" where
  "truthy JNull = False"
| "truthy (JBool b) = b"
| "truthy (JInt i) = (i \<noteq> 0)"
| "truthy (JStr s) = (s \<noteq> [])"
| "truthy (JList xs) = (xs \<noteq> [])"
| "truthy (JDict kvs) = (kvs \<noteq> [])"

fun type_name :: "json \<Rightarrow> string" where
  "type_name JNull = ''NoneType''"
| "type_name (JBool b) = ''bool''"
| "type_name (JInt i) = ''int''"
| "type_name (JStr s) = ''str''"
| "type_name (JList xs) = ''list''"
| "type_name (JDict kvs) = ''dict''"

definition no_attribute :: "json \<Rightarrow> string \<Rightarrow> exn" where
  "no_attribute x a =
     AttributeError (py_repr (type_name x) @ '' object has no attribute '' @ py_repr a)"

text \<open>\<open>x.get(k, d)\<close>; \<open>x.get(k)\<close> has the default \<open>None\<close>, here \<open>JNull\<close>.\<close>

fun py_get :: "json \<Rightarrow> string \<Rightarrow> json \<Rightarrow> exn + json" where
  "py_get (JDict kvs) k d = Inr (case map_of kvs k of None \<Rightarrow> d | Some v \<Rightarrow> v)"
| "py_get x k d = Inl (no_attribute x ''get'')"

text \<open>\<open>x[k]\<close> for a string key.\<close>

fun py_item :: "json \<Rightarrow> string \<Rightarrow> exn + json" where
  "py_item (JDict kvs) k = (case map_of kvs k of None \<Rightarrow> Inl (KeyError k) | Some v \<Rightarrow> Inr v)"
| "py_item (JList xs) k = Inl (TypeError ''list indices must be integers or slices, not str'')"
| "py_item (JStr s) k = Inl (TypeError (''string indices must be integers, not '' @ py_repr ''str''))"
| "py_item x k = Inl (TypeError (py_repr (type_name x) @ '' object is not subscriptable''))"

text \<open>\<open>k in x\<close> for a string key.\<close>

fun py_in :: "string \<Rightarrow> json \<Rightarrow> exn + bool" where
  "py_in k (JDict kvs) = Inr (map_of kvs k \<noteq> None)"
| "py_in k (JList xs) = Inr (JStr k \<in> set xs)"
| "py_in k (JStr s) = Inr (sublist k s)"
| "py_in k x = Inl (TypeError (''argument of type '' @ py_repr (type_name x) @ '' is not iterable''))"

text \<open>\<open>x[k] = v\<close> for a string key.\<close>

fun py_set_item :: "json \<Rightarrow> string \<Rightarrow> json \<Rightarrow> exn + json" where
  "py_set_item (JDict kvs) k v = Inr (JDict (dict_set k v kvs))"
| "py_set_item (JList xs) k v = Inl (TypeError ''list indices must be integers or slices, not str'')"
| "py_set_item x k v =
     Inl (TypeError (py_repr (type_name x) @ '' object does not support item assignment''))"

text \<open>\<open>x.update(d)\<close> for a dictionary \<open>d\<close>.\<close>

fun py_dict_update :: "json \<Rightarrow> (string \<times> json) list \<Rightarrow> exn + json" where
  "py_dict_update (JDict kvs) d = Inr (JDict (dict_update kvs d))"
| "py_dict_update x d = Inl (no_attribute x ''update'')"

text \<open>Iteration over a JSON array. A string iterates over its characters and a dictionary over
  its keys.\<close>

fun py_iter :: "json \<Rightarrow> exn + json list" where
  "py_iter (JList xs) = Inr xs"
| "py_iter (JStr s) = Inr (map (\<lambda>c. JStr [c]) s)"
| "py_iter (JDict kvs) = Inr (map (\<lambda>kv. JStr (fst kv)) kvs)"
| "py_iter x = Inl (TypeError (py_repr (type_name x) @ '' object is not iterable''))"

text \<open>A place where the code needs a \<open>str\<close>: a method of \<open>str\<close> called on the value.\<close>

fun need_str :: "json \<Rightarrow> string \<Rightarrow> exn + string" where
  "need_str (JStr s) a = Inr s"
| "need_str x a = Inl (no_attribute x a)"

subsection \<open>Formatting\<close>

text \<open>\<open>repr\<close> of a JSON value, and what an f-string prints for it.\<close>

fun json_repr :: "json \<Rightarrow> string" where
  "json_repr JNull = ''None''"
| "json_repr (JBool b) = (if b then ''True'' else ''False'')"
| "json_repr (JInt i) = int_str i"
| "json_repr (JStr s) = py_repr s"
| "json_repr (JList xs) = ''['' @ py_join '', '' (map json_repr xs) @ '']''"
| "json_repr (JDict kvs) =
     ''{'' @ py_join '', '' (map (\<lambda>kv. py_repr (fst kv) @ '': '' @ json_repr (snd kv)) kvs) @ ''}''"

fun py_format :: "json \<Rightarrow> string" where
  "py_format (JStr s) = s"
| "py_format x = json_repr x"

text \<open>\<open>json.dumps\<close> with its defaults: ASCII only, \<open>", "\<close> and \<open>": "\<close> as separators.\<close>

definition u_escape :: "nat \<Rightarrow> string" where
  "u_escape n =
     [char_of (92::nat), CHR ''u'', hex_digit (n div 4096), hex_digit ((n div 256) mod 16),
      hex_digit ((n div 16) mod 16), hex_digit (n mod 16)]"

definition json_point :: "nat \<Rightarrow> string" where
  "json_point n =
     (if n = 34 \<or> n = 92 then [char_of (92::nat), char_of n]
      else if n = 10 then [char_of (92::nat), CHR ''n'']
      else if n = 13 then [char_of (92::nat), CHR ''r'']
      else if n = 9 then [char_of (92::nat), CHR ''t'']
      else if n = 12 then [char_of (92::nat), CHR ''f'']
      else if n = 8 then [char_of (92::nat), CHR ''b'']
      else if 32 \<le> n \<and> n < 127 then [char_of n]
      else if n < 65536 then u_escape n
      else u_escape (55296 + (n - 65536) div 1024) @ u_escape (56320 + (n - 65536) mod 1024))"

definition json_string :: "string \<Rightarrow> string" where
  "json_string s = [dquote] @ concat (map json_point (utf8_points s)) @ [dquote]"

fun json_dumps :: "json \<Rightarrow> string" where
  "json_dumps JNull = ''null''"
| "json_dumps (JBool b) = (if b then ''true'' else ''false'')"
| "json_dumps (JInt i) = int_str i"
| "json_dumps (JStr s) = json_string s"
| "json_dumps (JList xs) = ''['' @ py_join '', '' (map json_dumps xs) @ '']''"
| "json_dumps (JDict kvs) =
     ''{'' @ py_join '', '' (map (\<lambda>kv. json_string (fst kv) @ '': '' @ json_dumps (snd kv)) kvs) @ ''}''"

subsection \<open>Time\<close>

text \<open>A reading of the clock is the number of microseconds since 1970-01-01 UTC. The date of a
  day number is computed in the proleptic Gregorian calendar, as \<open>datetime\<close> has it.\<close>

definition civil_from_days :: "int \<Rightarrow> int \<times> int \<times> int" where
  "civil_from_days z0 =
     (let z = z0 + 719468;
          era = z div 146097;
          doe = z mod 146097;
          yoe = (doe - doe div 1460 + doe div 36524 - doe div 146096) div 365;
          doy = doe - (365 * yoe + yoe div 4 - yoe div 100);
          mp = (5 * doy + 2) div 153;
          d = doy - (153 * mp + 2) div 5 + 1;
          m = (if mp < 10 then mp + 3 else mp - 9);
          y = yoe + era * 400 + (if m \<le> 2 then 1 else 0)
      in (y, m, d))"

text \<open>\<open>datetime.now(UTC).isoformat()\<close>: the microseconds are left out when they are 0.\<close>

definition isoformat :: "int \<Rightarrow> string" where
  "isoformat us =
     (let secs = us div 1000000; frac = us mod 1000000; sod = secs mod 86400;
          (y, m, d) = civil_from_days (secs div 86400)
      in pad_str 4 y @ ''-'' @ pad_str 2 m @ ''-'' @ pad_str 2 d @ ''T'' @
         pad_str 2 (sod div 3600) @ '':'' @ pad_str 2 ((sod div 60) mod 60) @ '':'' @ pad_str 2 (sod mod 60) @
         (if frac = 0 then '''' else ''.'' @ pad_str 6 frac) @ ''+00:00'')"

definition iso_utc :: "int \<Rightarrow> string" where
  "iso_utc us = py_replace (isoformat us) ''+00:00'' ''Z''"

text \<open>A \<open>timedelta\<close> is its number of microseconds. \<open>.seconds\<close> is the seconds within the last
  day, \<open>int(.total_seconds())\<close> the whole duration, truncated towards 0.\<close>

definition td_seconds :: "int \<Rightarrow> int" where
  "td_seconds us = (us div 1000000) mod 86400"

definition trunc_seconds :: "int \<Rightarrow> int" where
  "trunc_seconds us = (if us < 0 then - ((- us) div 1000000) else us div 1000000)"

subsection \<open>Facts\<close>

lemma py_get_Inr: "py_get x k d = Inr v \<Longrightarrow> \<exists>kvs. x = JDict kvs"
  by (cases x) auto

lemma td_seconds_range: "0 \<le> td_seconds us \<and> td_seconds us < 86400"
  by (simp add: td_seconds_def)

lemma trunc_seconds_nonneg: "0 \<le> us \<Longrightarrow> trunc_seconds us = us div 1000000"
  by (simp add: trunc_seconds_def)

text \<open>Views of a value used in statements: a key of a dictionary, and being a dictionary.\<close>

fun jget :: "json \<Rightarrow> string \<Rightarrow> json option" where
  "jget (JDict kvs) k = map_of kvs k"
| "jget _ k = None"

fun is_dict :: "json \<Rightarrow> bool" where
  "is_dict (JDict kvs) = True"
| "is_dict _ = False"

lemma is_dict_iff: "is_dict j \<longleftrightarrow> (\<exists>kvs. j = JDict kvs)"
  by (cases j) auto

lemma py_item_dict [simp]:
  "is_dict d \<Longrightarrow> py_item d k = (case jget d k of None \<Rightarrow> Inl (KeyError k) | Some v \<Rightarrow> Inr v)"
  by (auto simp: is_dict_iff)

lemma py_get_dict [simp]:
  "is_dict d \<Longrightarrow> py_get d k v0 = Inr (case jget d k of None \<Rightarrow> v0 | Some v \<Rightarrow> v)"
  by (auto simp: is_dict_iff)

lemma py_in_dict [simp]: "is_dict d \<Longrightarrow> py_in k d = Inr (jget d k \<noteq> None)"
  by (auto simp: is_dict_iff)

lemma py_set_item_dict:
  "is_dict d \<Longrightarrow> \<exists>d'. py_set_item d k v = Inr d' \<and> is_dict d' \<and> truthy d' \<and> (\<forall>k'. jget d' k' = (if k' = k then Some v else jget d k'))"
  by (auto simp: is_dict_iff)

lemma py_dict_update_dict:
  "is_dict d \<Longrightarrow> distinct (map fst kvs) \<Longrightarrow>
    \<exists>d'. py_dict_update d kvs = Inr d' \<and> is_dict d' \<and>
      (\<forall>k. jget d' k = (case map_of kvs k of None \<Rightarrow> jget d k | Some v \<Rightarrow> Some v))"
  by (auto simp: is_dict_iff map_of_dict_update split: option.splits)

end
