(* ===== verification/PyMonad.thy ===== *)
theory PyMonad
  imports PyVal
begin

section \<open>Python statements: objects, exceptions and external calls\<close>

text \<open>
  A method runs on its object and on the history of the external calls made so far. It ends
  with a result or an exception, and in both cases with the object as it has become and the
  history with the calls it made appended: as in Python, an exception undoes nothing.
  \<open>'c\<close> is the type of calls, \<open>'s\<close> the object, \<open>'a\<close> the result.
\<close>

type_synonym ('c, 's, 'a) eff = "'s \<times> 'c list \<Rightarrow> (exn + 'a) \<times> 's \<times> 'c list"

definition py_return :: "'a \<Rightarrow> ('c, 's, 'a) eff" where
  "py_return x = (\<lambda>\<sigma>. (Inr x, \<sigma>))"

definition py_raise :: "exn \<Rightarrow> ('c, 's, 'a) eff" where
  "py_raise e = (\<lambda>\<sigma>. (Inl e, \<sigma>))"

definition py_lift :: "exn + 'a \<Rightarrow> ('c, 's, 'a) eff" where
  "py_lift r = (\<lambda>\<sigma>. (r, \<sigma>))"

definition py_bind :: "('c, 's, 'a) eff \<Rightarrow> ('a \<Rightarrow> ('c, 's, 'b) eff) \<Rightarrow> ('c, 's, 'b) eff" where
  "py_bind m f = (\<lambda>\<sigma>. case m \<sigma> of (Inl e, \<sigma>') \<Rightarrow> (Inl e, \<sigma>') | (Inr x, \<sigma>') \<Rightarrow> f x \<sigma>')"

abbreviation py_seq :: "('c, 's, unit) eff \<Rightarrow> ('c, 's, 'b) eff \<Rightarrow> ('c, 's, 'b) eff" where
  "py_seq m n \<equiv> py_bind m (\<lambda>_. n)"

text \<open>\<open>try: m except Exception as e: h e\<close>. A narrower clause raises again in \<open>h\<close> what it does not
  name.\<close>

definition py_try :: "('c, 's, 'a) eff \<Rightarrow> (exn \<Rightarrow> ('c, 's, 'a) eff) \<Rightarrow> ('c, 's, 'a) eff" where
  "py_try m h = (\<lambda>\<sigma>. case m \<sigma> of (Inl e, \<sigma>') \<Rightarrow> h e \<sigma>' | (Inr x, \<sigma>') \<Rightarrow> (Inr x, \<sigma>'))"

text \<open>\<open>try: m finally: n\<close>.\<close>

definition py_finally :: "('c, 's, 'a) eff \<Rightarrow> ('c, 's, unit) eff \<Rightarrow> ('c, 's, 'a) eff" where
  "py_finally m n = (\<lambda>\<sigma>. case m \<sigma> of (r, \<sigma>') \<Rightarrow>
     (case n \<sigma>' of (Inl e, \<sigma>'') \<Rightarrow> (Inl e, \<sigma>'') | (Inr _, \<sigma>'') \<Rightarrow> (r, \<sigma>'')))"

text \<open>Reading and assigning attributes of \<open>self\<close>.\<close>

definition py_self :: "('s \<Rightarrow> 'a) \<Rightarrow> ('c, 's, 'a) eff" where
  "py_self f = (\<lambda>\<sigma>. (Inr (f (fst \<sigma>)), \<sigma>))"

definition py_set :: "('s \<Rightarrow> 's) \<Rightarrow> ('c, 's, unit) eff" where
  "py_set f = (\<lambda>\<sigma>. (Inr (), f (fst \<sigma>), snd \<sigma>))"

text \<open>A method called on an object held in an attribute: \<open>g\<close> reads the attribute, \<open>u\<close> stores it.\<close>

definition py_on :: "('s \<Rightarrow> 'b) \<Rightarrow> ('b \<Rightarrow> 's \<Rightarrow> 's) \<Rightarrow> ('c, 'b, 'a) eff \<Rightarrow> ('c, 's, 'a) eff" where
  "py_on g u m = (\<lambda>\<sigma>. case m (g (fst \<sigma>), snd \<sigma>) of (r, b, t) \<Rightarrow> (r, u b (fst \<sigma>), t))"

text \<open>An external call: the answer is any function of the call and of the calls before it.\<close>

definition py_call :: "'c \<Rightarrow> ('c \<Rightarrow> 'c list \<Rightarrow> exn + 'a) \<Rightarrow> ('c, 's, 'a) eff" where
  "py_call c resp = (\<lambda>\<sigma>. (resp c (snd \<sigma>), fst \<sigma>, snd \<sigma> @ [c]))"

text \<open>\<open>for x in xs\<close>, with the local variables the body assigns as an accumulator.\<close>

primrec py_for :: "('x \<Rightarrow> 'a \<Rightarrow> ('c, 's, 'a) eff) \<Rightarrow> 'x list \<Rightarrow> 'a \<Rightarrow> ('c, 's, 'a) eff" where
  "py_for f [] a = py_return a"
| "py_for f (x # xs) a = py_bind (f x a) (py_for f xs)"

subsection \<open>Running on other states\<close>

lemma py_return_apply [simp]: "py_return x \<sigma> = (Inr x, \<sigma>)"
  by (simp add: py_return_def)

lemma py_raise_apply [simp]: "py_raise e \<sigma> = (Inl e, \<sigma>)"
  by (simp add: py_raise_def)

lemma py_lift_apply [simp]: "py_lift r \<sigma> = (r, \<sigma>)"
  by (simp add: py_lift_def)

lemma py_self_apply [simp]: "py_self f \<sigma> = (Inr (f (fst \<sigma>)), \<sigma>)"
  by (simp add: py_self_def)

lemma py_set_apply [simp]: "py_set f \<sigma> = (Inr (), f (fst \<sigma>), snd \<sigma>)"
  by (simp add: py_set_def)

lemma py_call_apply [simp]: "py_call c resp \<sigma> = (resp c (snd \<sigma>), fst \<sigma>, snd \<sigma> @ [c])"
  by (simp add: py_call_def)

lemma py_bind_laws [simp]:
  "py_bind (py_return x) f = f x"
  "py_bind (py_raise e) f = py_raise e"
  "py_bind m py_return = m"
  "py_bind (py_bind m f) g = py_bind m (\<lambda>x. py_bind (f x) g)"
  by (auto simp: py_bind_def fun_eq_iff split: prod.splits sum.splits)

lemma py_try_laws [simp]:
  "py_try (py_return x) h = py_return x"
  "py_try (py_raise e) h = h e"
  "py_try m py_raise = m"
  by (auto simp: py_try_def fun_eq_iff split: prod.splits sum.splits)

lemma py_lift_simps [simp]:
  "py_lift (Inr x) = py_return x"
  "py_lift (Inl e) = py_raise e"
  by (simp_all add: fun_eq_iff)

lemma py_bind_Inr: "m \<sigma> = (Inr x, \<sigma>') \<Longrightarrow> py_bind m f \<sigma> = f x \<sigma>'"
  by (simp add: py_bind_def)

lemma py_bind_Inl: "m \<sigma> = (Inl e, \<sigma>') \<Longrightarrow> py_bind m f \<sigma> = (Inl e, \<sigma>')"
  by (simp add: py_bind_def)

lemma py_try_Inr: "m \<sigma> = (Inr x, \<sigma>') \<Longrightarrow> py_try m h \<sigma> = (Inr x, \<sigma>')"
  by (simp add: py_try_def)

lemma py_try_Inl: "m \<sigma> = (Inl e, \<sigma>') \<Longrightarrow> py_try m h \<sigma> = h e \<sigma>'"
  by (simp add: py_try_def)

subsection \<open>The calls a computation makes\<close>

text \<open>\<open>emits P m\<close>: \<open>m\<close> only appends calls to the history, and each satisfies \<open>P\<close>.\<close>

definition emits :: "('c \<Rightarrow> bool) \<Rightarrow> ('c, 's, 'a) eff \<Rightarrow> bool" where
  "emits P m \<longleftrightarrow> (\<forall>\<sigma>. \<exists>u. snd (snd (m \<sigma>)) = snd \<sigma> @ u \<and> list_all P u)"

text \<open>The calls \<open>m\<close> makes from a state.\<close>

definition new_calls :: "('c, 's, 'a) eff \<Rightarrow> 's \<times> 'c list \<Rightarrow> 'c list" where
  "new_calls m \<sigma> = drop (length (snd \<sigma>)) (snd (snd (m \<sigma>)))"

lemma emitsD: "emits P m \<Longrightarrow> snd (snd (m \<sigma>)) = snd \<sigma> @ new_calls m \<sigma> \<and> list_all P (new_calls m \<sigma>)"
  unfolding emits_def new_calls_def by (metis append_eq_conv_conj)

lemma emits_new_calls: "emits P m \<Longrightarrow> c \<in> set (new_calls m \<sigma>) \<Longrightarrow> P c"
  using emitsD by (metis list_all_iff)

lemma emits_mono: "emits P m \<Longrightarrow> (\<And>c. P c \<Longrightarrow> Q c) \<Longrightarrow> emits Q m"
  unfolding emits_def by (metis list_all_iff)

lemma emits_return [emits_intros]: "emits P (py_return x)"
  by (simp add: emits_def)

lemma emits_raise [emits_intros]: "emits P (py_raise e)"
  by (simp add: emits_def)

lemma emits_lift [emits_intros]: "emits P (py_lift r)"
  by (simp add: emits_def)

lemma emits_self [emits_intros]: "emits P (py_self f)"
  by (simp add: emits_def)

lemma emits_set [emits_intros]: "emits P (py_set f)"
  by (simp add: emits_def)

lemma emits_call [emits_intros]: "P c \<Longrightarrow> emits P (py_call c resp)"
  by (simp add: emits_def)

lemma emits_bind [emits_intros]:
  assumes "emits P m" and "\<And>x. emits P (f x)"
  shows "emits P (py_bind m f)"
  unfolding emits_def
proof
  fix \<sigma>
  obtain r \<sigma>' where m: "m \<sigma> = (r, \<sigma>')" by (cases "m \<sigma>")
  from assms(1) m obtain u where u: "snd \<sigma>' = snd \<sigma> @ u" "list_all P u"
    unfolding emits_def by (metis snd_conv)
  show "\<exists>u. snd (snd (py_bind m f \<sigma>)) = snd \<sigma> @ u \<and> list_all P u"
  proof (cases r)
    case (Inl e)
    with m u show ?thesis by (simp add: py_bind_Inl)
  next
    case (Inr x)
    from assms(2) obtain v where "snd (snd (f x \<sigma>')) = snd \<sigma>' @ v" "list_all P v"
      unfolding emits_def by metis
    with Inr m u show ?thesis by (intro exI [of _ "u @ v"]) (simp add: py_bind_Inr)
  qed
qed

lemma emits_try [emits_intros]:
  assumes "emits P m" and "\<And>e. emits P (h e)"
  shows "emits P (py_try m h)"
  unfolding emits_def
proof
  fix \<sigma>
  obtain r \<sigma>' where m: "m \<sigma> = (r, \<sigma>')" by (cases "m \<sigma>")
  from assms(1) m obtain u where u: "snd \<sigma>' = snd \<sigma> @ u" "list_all P u"
    unfolding emits_def by (metis snd_conv)
  show "\<exists>u. snd (snd (py_try m h \<sigma>)) = snd \<sigma> @ u \<and> list_all P u"
  proof (cases r)
    case (Inr x)
    with m u show ?thesis by (simp add: py_try_Inr)
  next
    case (Inl e)
    from assms(2) obtain v where "snd (snd (h e \<sigma>')) = snd \<sigma>' @ v" "list_all P v"
      unfolding emits_def by metis
    with Inl m u show ?thesis by (intro exI [of _ "u @ v"]) (simp add: py_try_Inl)
  qed
qed

lemma py_finally_alt:
  "py_finally m n =
    py_bind (py_try (py_bind m (\<lambda>x. py_return (Inr x))) (\<lambda>e. py_return (Inl e)))
      (\<lambda>r. py_seq n (py_lift r))"
  by (auto simp: py_finally_def py_bind_def py_try_def fun_eq_iff split: prod.splits sum.splits)

lemma emits_finally [emits_intros]: "emits P m \<Longrightarrow> emits P n \<Longrightarrow> emits P (py_finally m n)"
  unfolding py_finally_alt by (intro emits_intros)

lemma emits_for [emits_intros]: "(\<And>x a. x \<in> set xs \<Longrightarrow> emits P (f x a)) \<Longrightarrow> emits P (py_for f xs a)"
  by (induction xs arbitrary: a) (auto intro!: emits_intros)

lemma emits_on [emits_intros]: "emits P m \<Longrightarrow> emits P (py_on g u m)"
  unfolding emits_def py_on_def by (auto split: prod.splits) (metis snd_conv)

lemma emits_if [emits_intros]:
  "(b \<Longrightarrow> emits P m) \<Longrightarrow> (\<not> b \<Longrightarrow> emits P n) \<Longrightarrow> emits P (if b then m else n)"
  by simp

lemma emits_case_option [emits_intros]:
  "(x = None \<Longrightarrow> emits P m) \<Longrightarrow> (\<And>y. x = Some y \<Longrightarrow> emits P (f y)) \<Longrightarrow> emits P (case x of None \<Rightarrow> m | Some y \<Rightarrow> f y)"
  by (cases x) simp_all

lemma emits_case_list [emits_intros]:
  "(x = [] \<Longrightarrow> emits P m) \<Longrightarrow> (\<And>y ys. x = y # ys \<Longrightarrow> emits P (f y ys)) \<Longrightarrow>
    emits P (case x of [] \<Rightarrow> m | y # ys \<Rightarrow> f y ys)"
  by (cases x) simp_all

lemma emits_case_prod [emits_intros]: "(\<And>a b. x = (a, b) \<Longrightarrow> emits P (f a b)) \<Longrightarrow> emits P (case x of (a, b) \<Rightarrow> f a b)"
  by (cases x) simp

lemma emits_let [emits_intros]: "(\<And>x. x = a \<Longrightarrow> emits P (f x)) \<Longrightarrow> emits P (let x = a in f x)"
  by simp

lemma new_calls_bind:
  assumes "m \<sigma> = (Inr x, \<sigma>')" and "emits P m" and "emits Q (f x)"
  shows "new_calls (py_bind m f) \<sigma> = new_calls m \<sigma> @ new_calls (f x) \<sigma>'"
proof -
  have "snd \<sigma>' = snd \<sigma> @ new_calls m \<sigma>" using emitsD [OF assms(2), of \<sigma>] assms(1) by simp
  with emitsD [OF assms(3), of \<sigma>'] assms(1) show ?thesis
    by (simp add: new_calls_def [of "py_bind m f"] py_bind_Inr)
qed

subsection \<open>Computations that do not raise\<close>

definition never_raises :: "('c, 's, 'a) eff \<Rightarrow> bool" where
  "never_raises m \<longleftrightarrow> (\<forall>\<sigma>. \<not> isl (fst (m \<sigma>)))"

lemma never_raisesD: "never_raises m \<Longrightarrow> \<exists>x \<sigma>'. m \<sigma> = (Inr x, \<sigma>')"
  unfolding never_raises_def by (metis prod.collapse sum.collapse(2))

lemma never_raises_intros [total_intros]:
  "never_raises (py_return x)"
  "never_raises (py_self f)"
  "never_raises (py_set g)"
  by (simp_all add: never_raises_def)

lemma never_raises_bind [total_intros]:
  "never_raises m \<Longrightarrow> (\<And>x. never_raises (f x)) \<Longrightarrow> never_raises (py_bind m f)"
  unfolding never_raises_def py_bind_def
  by (auto split: prod.splits sum.splits) (metis fst_conv sum.disc(1))

lemma never_raises_try [total_intros]:
  "(\<And>e. never_raises (h e)) \<Longrightarrow> never_raises (py_try m h)"
  unfolding never_raises_def py_try_def by (auto split: prod.splits sum.splits)

lemma never_raises_finally [total_intros]:
  "never_raises m \<Longrightarrow> never_raises n \<Longrightarrow> never_raises (py_finally m n)"
  unfolding never_raises_def py_finally_def
  by (auto split: prod.splits sum.splits) (metis fst_conv sum.disc(1))+

lemma never_raises_on [total_intros]: "never_raises m \<Longrightarrow> never_raises (py_on g u m)"
  unfolding never_raises_def py_on_def by (auto split: prod.splits) (metis fst_conv)

lemma never_raises_if [total_intros]:
  "(b \<Longrightarrow> never_raises m) \<Longrightarrow> (\<not> b \<Longrightarrow> never_raises n) \<Longrightarrow> never_raises (if b then m else n)"
  by simp

lemma never_raises_case_option [total_intros]:
  "(x = None \<Longrightarrow> never_raises m) \<Longrightarrow> (\<And>y. x = Some y \<Longrightarrow> never_raises (f y)) \<Longrightarrow>
    never_raises (case x of None \<Rightarrow> m | Some y \<Rightarrow> f y)"
  by (cases x) simp_all

lemma never_raises_for [total_intros]:
  "(\<And>x a. never_raises (f x a)) \<Longrightarrow> never_raises (py_for f xs a)"
  by (induction xs arbitrary: a) (auto intro!: total_intros)

subsection \<open>Computations that keep the object\<close>

text \<open>\<open>keeps f m\<close>: running \<open>m\<close> does not change the part \<open>f\<close> of the object.\<close>

definition keeps :: "('s \<Rightarrow> 'f) \<Rightarrow> ('c, 's, 'a) eff \<Rightarrow> bool" where
  "keeps f m \<longleftrightarrow> (\<forall>\<sigma>. f (fst (snd (m \<sigma>))) = f (fst \<sigma>))"

abbreviation keeps_self :: "('c, 's, 'a) eff \<Rightarrow> bool" where
  "keeps_self \<equiv> keeps (\<lambda>s. s)"

lemma keepsD: "keeps f m \<Longrightarrow> m \<sigma> = (r, s, t) \<Longrightarrow> f s = f (fst \<sigma>)"
  unfolding keeps_def by (metis fst_conv snd_conv)

lemma keeps_self_part: "keeps_self m \<Longrightarrow> keeps f m"
  by (simp add: keeps_def)

lemma keeps_basic [frame_intros]:
  "keeps f (py_return x)"
  "keeps f (py_raise e)"
  "keeps f (py_lift r)"
  "keeps f (py_self g)"
  "keeps f (py_call c resp)"
  by (simp_all add: keeps_def)

lemma keeps_set [frame_intros]: "(\<And>s. f (g s) = f s) \<Longrightarrow> keeps f (py_set g)"
  by (simp add: keeps_def)

lemma keeps_on [frame_intros]: "(\<And>b s. f (u b s) = f s) \<Longrightarrow> keeps f (py_on g u m)"
  by (auto simp: keeps_def py_on_def split: prod.splits)

lemma keeps_bind [frame_intros]:
  "keeps f m \<Longrightarrow> (\<And>x. keeps f (g x)) \<Longrightarrow> keeps f (py_bind m g)"
  unfolding keeps_def py_bind_def
  by (auto split: prod.splits sum.splits) (metis fst_conv snd_conv)+

lemma keeps_try [frame_intros]:
  "keeps f m \<Longrightarrow> (\<And>e. keeps f (h e)) \<Longrightarrow> keeps f (py_try m h)"
  unfolding keeps_def py_try_def
  by (auto split: prod.splits sum.splits) (metis fst_conv snd_conv)+

lemma keeps_finally [frame_intros]: "keeps f m \<Longrightarrow> keeps f n \<Longrightarrow> keeps f (py_finally m n)"
  unfolding py_finally_alt by (intro frame_intros)

lemma keeps_for [frame_intros]:
  "(\<And>x a. keeps f (g x a)) \<Longrightarrow> keeps f (py_for g xs a)"
  by (induction xs arbitrary: a) (auto intro!: frame_intros)

lemma keeps_if [frame_intros]:
  "(b \<Longrightarrow> keeps f m) \<Longrightarrow> (\<not> b \<Longrightarrow> keeps f n) \<Longrightarrow> keeps f (if b then m else n)"
  by simp

lemma keeps_case_option [frame_intros]:
  "(x = None \<Longrightarrow> keeps f m) \<Longrightarrow> (\<And>y. x = Some y \<Longrightarrow> keeps f (g y)) \<Longrightarrow>
    keeps f (case x of None \<Rightarrow> m | Some y \<Rightarrow> g y)"
  by (cases x) simp_all

lemma keeps_let [frame_intros]: "(\<And>x. x = a \<Longrightarrow> keeps f (g x)) \<Longrightarrow> keeps f (let x = a in g x)"
  by simp

subsection \<open>Contracts\<close>

text \<open>\<open>runs I P Q m\<close>: started on an object with the invariant \<open>I\<close>, \<open>m\<close> keeps \<open>I\<close>, makes only
  calls that satisfy \<open>P\<close>, and a normal result satisfies \<open>Q\<close>. Both hold also when \<open>m\<close> raises.\<close>

definition runs :: "('s \<Rightarrow> bool) \<Rightarrow> ('c \<Rightarrow> bool) \<Rightarrow> ('a \<Rightarrow> bool) \<Rightarrow> ('c, 's, 'a) eff \<Rightarrow> bool" where
  "runs I P Q m \<longleftrightarrow>
     (\<forall>s t. I s \<longrightarrow> (\<exists>u. snd (snd (m (s, t))) = t @ u \<and> list_all P u) \<and> I (fst (snd (m (s, t)))) \<and>
        (\<forall>x. fst (m (s, t)) = Inr x \<longrightarrow> Q x))"

lemma runsD:
  assumes "runs I P Q m" and "I s" and "m (s, t) = (r, s', t')"
  obtains u where "t' = t @ u" and "list_all P u" and "I s'" and "\<forall>x. r = Inr x \<longrightarrow> Q x"
  using assms unfolding runs_def by (metis fst_conv snd_conv)

lemma runsI:
  assumes "\<And>s t r s' t'. I s \<Longrightarrow> m (s, t) = (r, s', t') \<Longrightarrow>
    (\<exists>u. t' = t @ u \<and> list_all P u) \<and> I s' \<and> (\<forall>x. r = Inr x \<longrightarrow> Q x)"
  shows "runs I P Q m"
  unfolding runs_def using assms by (metis prod.collapse)

lemma runs_weaken: "runs I P R m \<Longrightarrow> (\<And>x. R x \<Longrightarrow> Q x) \<Longrightarrow> runs I P Q m"
  unfolding runs_def by blast

lemma runs_new_calls: "runs I P Q m \<Longrightarrow> I s \<Longrightarrow> list_all P (new_calls m (s, t))"
  unfolding runs_def new_calls_def by (metis append_eq_conv_conj snd_conv)

lemma runs_emits: "emits P m \<Longrightarrow> keeps_self m \<Longrightarrow> runs I P (\<lambda>_. True) m"
  unfolding runs_def emits_def keeps_def by (metis fst_conv snd_conv)

lemma runs_return [runs_intros]: "Q x \<Longrightarrow> runs I P Q (py_return x)"
  by (simp add: runs_def)

lemma runs_raise [runs_intros]: "runs I P Q (py_raise e)"
  by (simp add: runs_def)

lemma runs_lift [runs_intros]: "(\<And>x. r = Inr x \<Longrightarrow> Q x) \<Longrightarrow> runs I P Q (py_lift r)"
  by (simp add: runs_def)

lemma runs_self [runs_intros]: "(\<And>s. I s \<Longrightarrow> Q (f s)) \<Longrightarrow> runs I P Q (py_self f)"
  by (simp add: runs_def)

lemma runs_set [runs_intros]: "(\<And>s. I s \<Longrightarrow> I (g s)) \<Longrightarrow> Q () \<Longrightarrow> runs I P Q (py_set g)"
  by (simp add: runs_def)

lemma runs_call [runs_intros]: "P c \<Longrightarrow> (\<And>t x. resp c t = Inr x \<Longrightarrow> Q x) \<Longrightarrow> runs I P Q (py_call c resp)"
  by (simp add: runs_def)

lemma runs_on [runs_intros]:
  "emits P m \<Longrightarrow> (\<And>b s. I s \<Longrightarrow> I (u b s)) \<Longrightarrow> (\<And>x. Q x) \<Longrightarrow> runs I P Q (py_on g u m)"
  unfolding runs_def emits_def py_on_def by (auto split: prod.splits) (metis snd_conv)

lemma runs_bind:
  assumes m: "runs I P R m" and f: "\<And>x. R x \<Longrightarrow> runs I P Q (f x)"
  shows "runs I P Q (py_bind m f)"
proof (rule runsI)
  fix s t r s' t'
  assume I: "I s" and run: "py_bind m f (s, t) = (r, s', t')"
  obtain r1 s1 t1 where m1: "m (s, t) = (r1, s1, t1)" by (metis prod.collapse)
  obtain u1 where u1: "t1 = t @ u1" "list_all P u1" "I s1" "\<forall>x. r1 = Inr x \<longrightarrow> R x"
    by (rule runsD [OF m I m1])
  show "(\<exists>u. t' = t @ u \<and> list_all P u) \<and> I s' \<and> (\<forall>x. r = Inr x \<longrightarrow> Q x)"
  proof (cases r1)
    case (Inl e)
    with run m1 u1 show ?thesis by (auto simp: py_bind_def)
  next
    case (Inr x)
    with run m1 have f1: "f x (s1, t1) = (r, s', t')" by (simp add: py_bind_def)
    obtain u2 where "t' = t1 @ u2" "list_all P u2" "I s'" "\<forall>x. r = Inr x \<longrightarrow> Q x"
      using u1(4) Inr by (auto intro: runsD [OF f u1(3) f1])
    with u1(1,2) show ?thesis by (intro conjI exI [of _ "u1 @ u2"]) auto
  qed
qed

lemmas runs_bind_any = runs_bind [where R = "\<lambda>_. True"]

lemma runs_bind_self [runs_intros]:
  assumes "\<And>s. I s \<Longrightarrow> runs I P Q (f (g s))" shows "runs I P Q (py_bind (py_self g) f)"
  using assms unfolding runs_def py_bind_def by simp

lemma runs_try:
  assumes m: "runs I P Q m" and h: "\<And>e. runs I P Q (h e)"
  shows "runs I P Q (py_try m h)"
proof (rule runsI)
  fix s t r s' t'
  assume I: "I s" and run: "py_try m h (s, t) = (r, s', t')"
  obtain r1 s1 t1 where m1: "m (s, t) = (r1, s1, t1)" by (metis prod.collapse)
  obtain u1 where u1: "t1 = t @ u1" "list_all P u1" "I s1" "\<forall>x. r1 = Inr x \<longrightarrow> Q x"
    by (rule runsD [OF m I m1])
  show "(\<exists>u. t' = t @ u \<and> list_all P u) \<and> I s' \<and> (\<forall>x. r = Inr x \<longrightarrow> Q x)"
  proof (cases r1)
    case (Inr x)
    with run m1 u1 show ?thesis by (auto simp: py_try_def)
  next
    case (Inl e)
    with run m1 have h1: "h e (s1, t1) = (r, s', t')" by (simp add: py_try_def)
    obtain u2 where "t' = t1 @ u2" "list_all P u2" "I s'" "\<forall>x. r = Inr x \<longrightarrow> Q x"
      by (rule runsD [OF h u1(3) h1])
    with u1(1,2) show ?thesis by (intro conjI exI [of _ "u1 @ u2"]) auto
  qed
qed

lemma runs_finally [runs_intros]:
  assumes "runs I P Q m" and "runs I P (\<lambda>_. True) n"
  shows "runs I P Q (py_finally m n)"
proof -
  have "runs I P (\<lambda>r. \<forall>x. r = Inr x \<longrightarrow> Q x) (py_try (py_bind m (\<lambda>x. py_return (Inr x))) (\<lambda>e. py_return (Inl e)))"
    by (intro runs_try runs_bind [OF assms(1)] runs_intros) simp_all
  then show ?thesis
    unfolding py_finally_alt
    by (rule runs_bind) (intro runs_bind_any [OF assms(2)] runs_lift, simp)
qed

lemma runs_for:
  assumes "J a" and "\<And>x a. x \<in> set xs \<Longrightarrow> J a \<Longrightarrow> runs I P J (f x a)"
  shows "runs I P J (py_for f xs a)"
  using assms
proof (induction xs arbitrary: a)
  case Nil
  then show ?case by (simp add: runs_def)
next
  case (Cons x xs)
  have "runs I P J (py_bind (f x a) (py_for f xs))"
    by (rule runs_bind [where R = J]) (simp_all add: Cons)
  then show ?case by simp
qed

lemma runs_if [runs_intros]:
  "(b \<Longrightarrow> runs I P Q m) \<Longrightarrow> (\<not> b \<Longrightarrow> runs I P Q n) \<Longrightarrow> runs I P Q (if b then m else n)"
  by simp

lemma runs_case_option [runs_intros]:
  "(x = None \<Longrightarrow> runs I P Q m) \<Longrightarrow> (\<And>y. x = Some y \<Longrightarrow> runs I P Q (f y)) \<Longrightarrow>
    runs I P Q (case x of None \<Rightarrow> m | Some y \<Rightarrow> f y)"
  by (cases x) simp_all

lemma runs_case_prod [runs_intros]:
  "(\<And>a b. x = (a, b) \<Longrightarrow> runs I P Q (f a b)) \<Longrightarrow> runs I P Q (case x of (a, b) \<Rightarrow> f a b)"
  by (cases x) simp

lemma runs_let [runs_intros]: "(\<And>x. x = a \<Longrightarrow> runs I P Q (f x)) \<Longrightarrow> runs I P Q (let x = a in f x)"
  by simp

end
