(* ===== verification/World.thy ===== *)
theory World
  imports PyMonad
begin

section \<open>The world outside the program\<close>

text \<open>
  The services and libraries the job talks to are not under \<open>src/\<close>: the Kubernetes API, the
  RAG engine, HTTP servers, the git executable and the file system, the Kusto service, Azure
  identity, the clock, and the libraries pdfplumber, chardet and the path matcher. The record
  \<open>env\<close> holds their answers as parameters of the model. An answer may depend on the
  call and on all calls made before it, so any stateful service is an instance. Every
  definition that talks to a service takes the \<open>env\<close> as its argument \<open>E\<close>.

  The effects of the program are the calls it makes: they are recorded in the history, with
  their arguments, in the order the code makes them.
\<close>

subsection \<open>Data exchanged with the services\<close>

text \<open>A document of the RAG engine. \<open>doc_id\<close> is \<open>None\<close> until the engine has given one.\<close>

record document =
  doc_text :: string
  doc_metadata :: "(string \<times> json) list"
  doc_id :: "string option"

text \<open>The answer to a listing; a falsy answer of the client library is \<open>None\<close>.\<close>

record doc_listing =
  ld_documents :: "document list"
  ld_total_items :: int

record object_reference =
  or_api_version :: string
  or_kind :: string
  or_name :: json
  or_namespace :: json
  or_uid :: json
  or_resource_version :: json

record k8s_event =
  ev_generate_name :: string
  ev_namespace :: string
  ev_labels :: "(string \<times> string) list"
  ev_involved_object :: object_reference
  ev_reason :: string
  ev_message :: string
  ev_type :: string
  ev_component :: string
  ev_first_timestamp :: int
  ev_last_timestamp :: int
  ev_count :: int

text \<open>A streamed HTTP response: what \<open>raise_for_status\<close> raises, the two headers the code reads,
  and the chunks \<open>iter_content\<close> yields, where reading one may raise.\<close>

record http_response =
  hr_raise_for_status :: "exn option"
  hr_content_length :: "string option"
  hr_content_type :: "string option"
  hr_chunks :: "(exn + bytes) list"

record diff_item =
  di_a_path :: "string option"
  di_b_path :: "string option"
  di_change_type :: "string option"

text \<open>A page of a PDF file, as pdfplumber gives it; a cell of a table may be \<open>None\<close>.\<close>

record pdf_page =
  pg_text :: "exn + string option"
  pg_tables :: "exn + string option list list list"

record detection =
  dt_encoding :: "string option"
  dt_confidence :: rat

text \<open>The primary result of a Kusto query. A cell is \<open>None\<close> or has a \<open>str()\<close>.\<close>

record kusto_table =
  kt_columns :: "string list"
  kt_rows :: "string option list list"

subsection \<open>Calls\<close>

text \<open>\<open>(group, version, namespace, plural, name)\<close> of a custom object.\<close>

type_synonym k8s_path = "string \<times> string \<times> string \<times> string \<times> string"

datatype call =
    ClockNow
  | LoadIncluster
  | LoadKubeConfig
  | K8sGet k8s_path
  | K8sPatchStatus k8s_path json
  | K8sCreateEvent string k8s_event
  | RagIndex string json "document list"
  | RagUpdate string json "document list"
  | RagDelete string json "string list"
  | RagList string json string int int
  | RagListIndexes string
  | RagPersist string json string
  | RagLoad string json string bool
  | RagDeleteIndex string json
  | HttpGet string "(string \<times> string) list" json
  | AzureCredential json json json
  | AzureGetToken "string list"
  | MkDtemp string
  | PathExists string
  | RmTree string
  | OsWalk string
  | ReadFile string
  | GitClone string string
  | GitCheckout json
  | GitFetch
  | GitPull
  | GitHeadCommit
  | GitDiff json string
  | KustoConnect string string
  | KustoNewClient string
  | KustoExecute string string

type_synonym trace = "call list"

type_synonym ('s, 'a) py = "(call, 's, 'a) eff"

subsection \<open>Answers\<close>

record env =
  getenv :: "string \<Rightarrow> string option"
  clock_now :: "call \<Rightarrow> trace \<Rightarrow> int"
  load_config :: "call \<Rightarrow> trace \<Rightarrow> exn + unit"
  k8s_get :: "call \<Rightarrow> trace \<Rightarrow> exn + json"
  k8s_patch :: "call \<Rightarrow> trace \<Rightarrow> exn + unit"
  k8s_create_event :: "call \<Rightarrow> trace \<Rightarrow> exn + unit"
  rag_write :: "call \<Rightarrow> trace \<Rightarrow> exn + unit"
  rag_list :: "call \<Rightarrow> trace \<Rightarrow> exn + doc_listing option"
  rag_indexes :: "call \<Rightarrow> trace \<Rightarrow> exn + json"
  http_get :: "call \<Rightarrow> trace \<Rightarrow> exn + http_response"
  azure_new :: "call \<Rightarrow> trace \<Rightarrow> exn + unit"
  azure_token :: "call \<Rightarrow> trace \<Rightarrow> exn + string"
  fs_mkdtemp :: "call \<Rightarrow> trace \<Rightarrow> exn + string"
  fs_exists :: "call \<Rightarrow> trace \<Rightarrow> bool"
  fs_rmtree :: "call \<Rightarrow> trace \<Rightarrow> exn + unit"
  fs_walk :: "call \<Rightarrow> trace \<Rightarrow> exn + (string \<times> string list) list"
  fs_read :: "call \<Rightarrow> trace \<Rightarrow> exn + bytes"
  git_run :: "call \<Rightarrow> trace \<Rightarrow> exn + unit"
  git_head :: "call \<Rightarrow> trace \<Rightarrow> exn + string"
  git_diff :: "call \<Rightarrow> trace \<Rightarrow> exn + diff_item list"
  kusto_import :: "exn + unit"
  kusto_connect :: "call \<Rightarrow> trace \<Rightarrow> exn + bool"
  kusto_client :: "call \<Rightarrow> trace \<Rightarrow> exn + unit"
  kusto_execute :: "call \<Rightarrow> trace \<Rightarrow> exn + kusto_table"
  path_match :: "json \<Rightarrow> string \<Rightarrow> bool"
  chardet_detect :: "bytes \<Rightarrow> exn + detection option"
  codec_other :: "string \<Rightarrow> bytes \<Rightarrow> exn + string"
  pdf_open :: "bytes \<Rightarrow> exn + pdf_page list"

text \<open>\<open>datetime.now(UTC)\<close>; the clock itself does not fail.\<close>

definition now :: "env \<Rightarrow> ('s, int) py" where
  "now E = py_call ClockNow (\<lambda>c t. Inr (clock_now E c t))"

text \<open>\<open>datetime.now(UTC).isoformat().replace("+00:00", "Z")\<close>.\<close>

definition now_iso :: "env \<Rightarrow> ('s, string) py" where
  "now_iso E = py_bind (now E) (\<lambda>us. py_return (iso_utc us))"

subsection \<open>Kinds of calls\<close>

fun is_clock :: "call \<Rightarrow> bool" where
  "is_clock ClockNow = True"
| "is_clock _ = False"

fun is_k8s :: "call \<Rightarrow> bool" where
  "is_k8s (K8sGet p) = True"
| "is_k8s (K8sPatchStatus p b) = True"
| "is_k8s (K8sCreateEvent n e) = True"
| "is_k8s _ = False"

text \<open>The calls that change the AutoIndexer resource or create an event.\<close>

fun is_k8s_write :: "call \<Rightarrow> bool" where
  "is_k8s_write (K8sPatchStatus p b) = True"
| "is_k8s_write (K8sCreateEvent n e) = True"
| "is_k8s_write _ = False"

fun is_rag_write :: "call \<Rightarrow> bool" where
  "is_rag_write (RagIndex u i ds) = True"
| "is_rag_write (RagUpdate u i ds) = True"
| "is_rag_write (RagDelete u i ids) = True"
| "is_rag_write (RagPersist u i p) = True"
| "is_rag_write (RagLoad u i p b) = True"
| "is_rag_write (RagDeleteIndex u i) = True"
| "is_rag_write _ = False"

text \<open>The batches of documents a history sent to be indexed, and to be updated, in order.\<close>

fun indexed_batches :: "trace \<Rightarrow> document list list" where
  "indexed_batches [] = []"
| "indexed_batches (RagIndex u i ds # t) = ds # indexed_batches t"
| "indexed_batches (_ # t) = indexed_batches t"

text \<open>The resources a history patched, and the events it created, in order.\<close>

fun patched :: "trace \<Rightarrow> json list" where
  "patched [] = []"
| "patched (K8sPatchStatus p b # t) = b # patched t"
| "patched (_ # t) = patched t"

fun created_events :: "trace \<Rightarrow> k8s_event list" where
  "created_events [] = []"
| "created_events (K8sCreateEvent n e # t) = e # created_events t"
| "created_events (_ # t) = created_events t"

text \<open>The number of writes to the engine in \<open>u\<close> that it refused, after the history \<open>t\<close>.\<close>

fun refused :: "env \<Rightarrow> trace \<Rightarrow> trace \<Rightarrow> nat" where
  "refused E t [] = 0"
| "refused E t (c # u) =
     (if is_rag_write c \<and> isl (rag_write E c t) then 1 else 0) + refused E (t @ [c]) u"

lemma refused_append [simp]: "refused E t (u @ v) = refused E t u + refused E (t @ u) v"
  by (induction u arbitrary: t) simp_all

lemma no_write_none_refused: "list_all (\<lambda>c. \<not> is_rag_write c) u \<Longrightarrow> refused E t u = 0"
  by (induction u arbitrary: t) simp_all

lemma indexed_batches_append [simp]: "indexed_batches (t @ u) = indexed_batches t @ indexed_batches u"
  by (induction t rule: indexed_batches.induct) auto

lemma patched_append [simp]: "patched (t @ u) = patched t @ patched u"
  by (induction t rule: patched.induct) auto

lemma created_events_append [simp]: "created_events (t @ u) = created_events t @ created_events u"
  by (induction t rule: created_events.induct) auto

lemma no_index_no_batches:
  "list_all (\<lambda>c. \<not> is_rag_write c) t \<Longrightarrow> indexed_batches t = []"
  by (induction t rule: indexed_batches.induct) auto

lemma no_write_no_patch: "list_all (\<lambda>c. \<not> is_k8s_write c) t \<Longrightarrow> patched t = [] \<and> created_events t = []"
proof (induction t)
  case Nil
  then show ?case by simp
next
  case (Cons c t)
  then show ?case by (cases c) auto
qed

subsection \<open>Facts about the clock\<close>

lemma now_total [total_intros]: "never_raises (now E)" "never_raises (now_iso E)"
  by (simp_all add: now_iso_def now_def never_raises_def py_bind_def)

lemma now_emits [emits_intros]: "P ClockNow \<Longrightarrow> emits P (now E)" "P ClockNow \<Longrightarrow> emits P (now_iso E)"
  unfolding now_iso_def now_def by (intro emits_intros; simp)+

lemma now_keeps_self [frame_intros]: "keeps p (now E)" "keeps p (now_iso E)"
  unfolding now_iso_def now_def by (intro frame_intros)+

subsection \<open>A sample world\<close>

text \<open>A world in which every call succeeds: the clock stands at the number of calls made, in
  seconds; the AutoIndexer resource is \<open>crd\<close> until it is patched, and then what was patched
  last; every file and every URL has the content \<open>hello\<close>. The concrete instances of the
  theorems run in it or in variants of it.\<close>

fun last_patched :: "json \<Rightarrow> trace \<Rightarrow> json" where
  "last_patched crd [] = crd"
| "last_patched crd (K8sPatchStatus p b # t) = last_patched b t"
| "last_patched crd (c # t) = last_patched crd t"

lemma last_patched_append: "last_patched crd (t @ u) = last_patched (last_patched crd t) u"
  by (induction crd t rule: last_patched.induct) auto

lemma last_patched_patched:
  "last_patched crd t = (if patched t = [] then crd else last (patched t))"
  by (induction crd t rule: last_patched.induct) auto

definition sample_world :: "json \<Rightarrow> env" where
  "sample_world crd = \<lparr>
     getenv = (\<lambda>_. None),
     clock_now = (\<lambda>c t. 1704067200000000 + 1000000 * int (length t)),
     load_config = (\<lambda>c t. Inr ()),
     k8s_get = (\<lambda>c t. Inr (last_patched crd t)),
     k8s_patch = (\<lambda>c t. Inr ()),
     k8s_create_event = (\<lambda>c t. Inr ()),
     rag_write = (\<lambda>c t. Inr ()),
     rag_list = (\<lambda>c t. Inr (Some \<lparr>ld_documents = [], ld_total_items = 7\<rparr>)),
     rag_indexes = (\<lambda>c t. Inr (JDict [])),
     http_get = (\<lambda>c t. Inr \<lparr>hr_raise_for_status = None, hr_content_length = None,
        hr_content_type = Some ''text/plain'', hr_chunks = [Inr ''hello'']\<rparr>),
     azure_new = (\<lambda>c t. Inr ()),
     azure_token = (\<lambda>c t. Inr ''token''),
     fs_mkdtemp = (\<lambda>c t. Inr ''/tmp/work''),
     fs_exists = (\<lambda>c t. True),
     fs_rmtree = (\<lambda>c t. Inr ()),
     fs_walk = (\<lambda>c t. Inr []),
     fs_read = (\<lambda>c t. Inr ''hello''),
     git_run = (\<lambda>c t. Inr ()),
     git_head = (\<lambda>c t. Inr ''c0ffee''),
     git_diff = (\<lambda>c t. Inr []),
     kusto_import = Inr (),
     kusto_connect = (\<lambda>c t. Inr True),
     kusto_client = (\<lambda>c t. Inr ()),
     kusto_execute = (\<lambda>c t. Inr \<lparr>kt_columns = [''k''], kt_rows = [[Some ''v'']]\<rparr>),
     path_match = (\<lambda>ps f. False),
     chardet_detect = (\<lambda>raw. Inr None),
     codec_other = (\<lambda>enc raw. Inl (OtherException ''unknown encoding'')),
     pdf_open = (\<lambda>raw. Inl (OtherException ''no PDF''))\<rparr>"

end
