(* ===== verification/K8sClient.thy ===== *)
theory K8sClient
  imports World
begin

section \<open>The Kubernetes client\<close>

text \<open>
  \<open>jobs/autoindexer/k8s/k8s_client.py\<close>: \<open>AutoIndexerK8sClient\<close> reads the AutoIndexer resource,
  patches its status and creates events. The API server is a service; the resource is a JSON
  value, \<open>JNull\<close> standing for \<open>None\<close>. The code changes the dictionary it received in place and
  sends it back; the model returns the changed value and sends that.
\<close>

subsection \<open>Client\<close>

definition api_group :: string where "api_group = ''autoindexer.kaito.sh''"
definition api_version :: string where "api_version = ''v1alpha1''"
definition plural :: string where "plural = ''autoindexers''"
definition kind :: string where "kind = ''AutoIndexer''"

record k8s_client =
  kc_namespace :: string
  kc_name :: string

definition object_path :: "k8s_client \<Rightarrow> k8s_path" where
  "object_path c = (api_group, api_version, kc_namespace c, plural, kc_name c)"

definition new_k8s_client :: "env \<Rightarrow> string \<Rightarrow> string \<Rightarrow> ('s, k8s_client) py" where
  "new_k8s_client E ns name =
     py_seq
       (py_try (py_call LoadIncluster (load_config E))
          (\<lambda>e. case e of ConfigException m \<Rightarrow> py_call LoadKubeConfig (load_config E) | _ \<Rightarrow> py_raise e))
       (py_return \<lparr>kc_namespace = ns, kc_name = name\<rparr>)"

definition get_autoindexer :: "env \<Rightarrow> k8s_client \<Rightarrow> ('s, json) py" where
  "get_autoindexer E c =
     (if kc_name c = '''' then py_return JNull
      else py_try (py_call (K8sGet (object_path c)) (k8s_get E))
        (\<lambda>e. case e of
           ApiException st m \<Rightarrow> if st = 404 then py_return JNull else py_raise e
         | _ \<Rightarrow> py_raise e))"

subsection \<open>Status\<close>

text \<open>\<open>if "status" not in current: current["status"] = {}\<close>.\<close>

definition ensure_key :: "json \<Rightarrow> string \<Rightarrow> json \<Rightarrow> exn + json" where
  "ensure_key d k v = sum_bind (py_in k d) (\<lambda>present. if present then Inr d else py_set_item d k v)"

text \<open>\<open>current["status"].update(status_update)\<close>.\<close>

definition merge_status :: "json \<Rightarrow> (string \<times> json) list \<Rightarrow> exn + json" where
  "merge_status current0 status_update =
     sum_bind (ensure_key current0 ''status'' (JDict [])) (\<lambda>current.
     sum_bind (py_item current ''status'') (\<lambda>status.
     sum_bind (py_dict_update status status_update) (\<lambda>status'.
       py_set_item current ''status'' status')))"

definition patch_status :: "env \<Rightarrow> k8s_client \<Rightarrow> json \<Rightarrow> ('s, unit) py" where
  "patch_status E c body = py_call (K8sPatchStatus (object_path c) body) (k8s_patch E)"

definition api_false :: "exn \<Rightarrow> ('s, bool) py" where
  "api_false e = (case e of ApiException st m \<Rightarrow> py_return False | _ \<Rightarrow> py_raise e)"

definition update_autoindexer_status :: "env \<Rightarrow> k8s_client \<Rightarrow> (string \<times> json) list \<Rightarrow> ('s, bool) py" where
  "update_autoindexer_status E c status_update =
     (if kc_name c = '''' then py_return False
      else py_try
        (py_bind (get_autoindexer E c) (\<lambda>current.
           if \<not> truthy current then py_return False
           else py_bind (py_lift (merge_status current status_update)) (\<lambda>body.
             py_seq (patch_status E c body) (py_return True))))
        api_false)"

subsection \<open>Conditions\<close>

text \<open>\<open>_create_condition\<close>: \<open>JNull\<close> for a missing transition time or generation.\<close>

definition condition_json :: "string \<Rightarrow> string \<Rightarrow> string \<Rightarrow> string \<Rightarrow> json \<Rightarrow> json \<Rightarrow> json" where
  "condition_json condition_type status reason message last_transition_time observed_generation =
     JDict [(''type'', JStr condition_type), (''status'', JStr status), (''reason'', JStr reason),
            (''message'', JStr message), (''lastTransitionTime'', last_transition_time),
            (''observedGeneration'', if observed_generation = JNull then JInt 0 else observed_generation)]"

definition create_condition ::
  "env \<Rightarrow> string \<Rightarrow> string \<Rightarrow> string \<Rightarrow> string \<Rightarrow> json \<Rightarrow> json \<Rightarrow> ('s, json) py" where
  "create_condition E condition_type status reason message last_transition_time observed_generation =
     py_bind
       (if last_transition_time = JNull then py_bind (now_iso E) (\<lambda>t. py_return (JStr t))
        else py_return last_transition_time)
       (\<lambda>t. py_return (condition_json condition_type status reason message t observed_generation))"

text \<open>A loop over \<open>conditions\<close> that calls \<open>.get\<close> on the elements and may end in \<open>.append\<close> needs a
  list; this is what it raises on another value.\<close>

fun need_list :: "json \<Rightarrow> exn + json list" where
  "need_list (JList xs) = Inr xs"
| "need_list (JStr s) = Inl (no_attribute (JStr s) (if s = [] then ''append'' else ''get''))"
| "need_list (JDict kvs) = Inl (if kvs = [] then no_attribute (JDict kvs) ''append'' else no_attribute (JStr '''') ''get'')"
| "need_list x = Inl (TypeError (py_repr (type_name x) @ '' object is not iterable''))"

text \<open>The index of the first condition of a type; \<open>.get\<close> raises on what is not a dictionary.\<close>

fun find_condition :: "string \<Rightarrow> json list \<Rightarrow> exn + nat option" where
  "find_condition ty [] = Inr None"
| "find_condition ty (x # xs) =
     sum_bind (py_get x ''type'' JNull) (\<lambda>t.
       if t = JStr ty then Inr (Some 0)
       else sum_bind (find_condition ty xs) (\<lambda>i. Inr (map_option Suc i)))"

definition put_condition :: "nat option \<Rightarrow> json \<Rightarrow> json list \<Rightarrow> json list" where
  "put_condition i c cs = (case i of Some k \<Rightarrow> cs[k := c] | None \<Rightarrow> cs @ [c])"

text \<open>The transition time of the new condition: the time of the last change of the status.\<close>

definition transition_time :: "nat option \<Rightarrow> string \<Rightarrow> string \<Rightarrow> json list \<Rightarrow> exn + json" where
  "transition_time i status now_str cs =
     (case i of
        None \<Rightarrow> Inr (JStr now_str)
      | Some k \<Rightarrow>
          sum_bind (py_get (cs ! k) ''status'' JNull) (\<lambda>st.
            if st \<noteq> JStr status then Inr (JStr now_str)
            else py_get (cs ! k) ''lastTransitionTime'' (JStr now_str)))"

definition conditions_of :: "json \<Rightarrow> exn + json list" where
  "conditions_of current =
     sum_bind (py_item current ''status'') (\<lambda>status.
     sum_bind (py_item status ''conditions'') need_list)"

definition with_conditions :: "json \<Rightarrow> json list \<Rightarrow> exn + json" where
  "with_conditions current cs =
     sum_bind (py_item current ''status'') (\<lambda>status.
     sum_bind (py_set_item status ''conditions'' (JList cs)) (\<lambda>status'.
       py_set_item current ''status'' status'))"

text \<open>The two initialisations at the start of \<open>add_status_condition\<close>.\<close>

definition ensure_conditions :: "json \<Rightarrow> exn + json" where
  "ensure_conditions current0 =
     sum_bind (ensure_key current0 ''status'' (JDict [])) (\<lambda>current.
     sum_bind (py_item current ''status'') (\<lambda>status.
     sum_bind (ensure_key status ''conditions'' (JList [])) (\<lambda>status'.
       py_set_item current ''status'' status')))"

definition generation_of :: "json \<Rightarrow> exn + json" where
  "generation_of current =
     sum_bind (py_get current ''metadata'' (JDict [])) (\<lambda>m. py_get m ''generation'' (JInt 0))"

definition add_status_condition ::
  "env \<Rightarrow> k8s_client \<Rightarrow> string \<Rightarrow> string \<Rightarrow> string \<Rightarrow> string \<Rightarrow> ('s, bool) py" where
  "add_status_condition E c condition_type status reason message =
     (if kc_name c = '''' then py_return False
      else py_try
        (py_bind (get_autoindexer E c) (\<lambda>current0.
           if \<not> truthy current0 then py_return False
           else
             py_bind (py_lift (ensure_conditions current0)) (\<lambda>current.
             py_bind (py_lift (generation_of current)) (\<lambda>observed_generation.
             py_bind (now_iso E) (\<lambda>now_str.
             py_bind (py_lift (conditions_of current)) (\<lambda>conditions.
             py_bind (py_lift (find_condition condition_type conditions)) (\<lambda>i.
             py_bind (py_lift (transition_time i status now_str conditions)) (\<lambda>t.
             py_bind (create_condition E condition_type status reason message t observed_generation) (\<lambda>new.
             py_bind (py_lift (with_conditions current (put_condition i new conditions))) (\<lambda>body.
               py_seq (patch_status E c body) (py_return True)))))))))))
        api_false)"

subsection \<open>Progress and completion\<close>

definition update_indexing_progress :: "env \<Rightarrow> k8s_client \<Rightarrow> int \<Rightarrow> ('s, bool) py" where
  "update_indexing_progress E c total_documents =
     py_bind (now_iso E) (\<lambda>now_str.
       update_autoindexer_status E c
         [(''numOfDocumentInIndex'', JInt total_documents), (''lastIndexingTimestamp'', JStr now_str)])"

text \<open>\<open>x + 1\<close>.\<close>

fun py_succ :: "json \<Rightarrow> exn + int" where
  "py_succ (JInt i) = Inr (i + 1)"
| "py_succ (JBool b) = Inr (if b then 2 else 1)"
| "py_succ x = Inl (TypeError (''unsupported operand type(s) for +: '' @ py_repr (type_name x) @ '' and '' @ py_repr ''int''))"

definition next_count :: "json \<Rightarrow> string \<Rightarrow> exn + int" where
  "next_count current counter_field =
     (if \<not> truthy current then Inr 1
      else sum_bind (py_in ''status'' current) (\<lambda>present.
        if \<not> present then Inr 1
        else sum_bind (py_item current ''status'') (\<lambda>status.
             sum_bind (py_get status counter_field (JInt 0)) py_succ)))"

definition increment_counter :: "env \<Rightarrow> k8s_client \<Rightarrow> string \<Rightarrow> ('s, int) py" where
  "increment_counter E c counter_field =
     py_try
       (py_bind (get_autoindexer E c) (\<lambda>current. py_lift (next_count current counter_field)))
       (\<lambda>e. py_return 1)"

definition update_indexing_completion ::
  "env \<Rightarrow> k8s_client \<Rightarrow> bool \<Rightarrow> int \<Rightarrow> int \<Rightarrow> json \<Rightarrow> ('s, bool) py" where
  "update_indexing_completion E c success duration_seconds document_count commit_hash =
     py_bind (now_iso E) (\<lambda>now_str.
     (let counter = (if success then ''successfulIndexingCount'' else ''errorIndexingCount'')
      in py_bind (increment_counter E c counter) (\<lambda>n.
           update_autoindexer_status E c
             ([(''lastIndexingTimestamp'', JStr now_str), (''lastIndexingDurationSeconds'', JInt duration_seconds),
               (''numOfDocumentInIndex'', JInt document_count), (counter, JInt n)] @
              (if truthy commit_hash then [(''lastIndexedCommit'', commit_hash)] else [])))))"

definition get_autoindexer_config :: "env \<Rightarrow> k8s_client \<Rightarrow> ('s, json) py" where
  "get_autoindexer_config E c =
     py_bind (get_autoindexer E c) (\<lambda>autoindexer.
       if truthy autoindexer then py_lift (py_get autoindexer ''spec'' (JDict [])) else py_return JNull)"

subsection \<open>Events\<close>

definition create_object_reference :: "k8s_client \<Rightarrow> json \<Rightarrow> exn + object_reference" where
  "create_object_reference c autoindexer =
     sum_bind (py_get autoindexer ''metadata'' (JDict [])) (\<lambda>metadata.
     sum_bind (py_get metadata ''name'' (JStr (kc_name c))) (\<lambda>name.
     sum_bind (py_get metadata ''namespace'' (JStr (kc_namespace c))) (\<lambda>ns.
     sum_bind (py_get metadata ''uid'' JNull) (\<lambda>uid.
     sum_bind (py_get metadata ''resourceVersion'' JNull) (\<lambda>rv.
       Inr \<lparr>or_api_version = api_group @ ''/'' @ api_version, or_kind = kind, or_name = name,
            or_namespace = ns, or_uid = uid, or_resource_version = rv\<rparr>)))))"

definition build_event :: "k8s_client \<Rightarrow> object_reference \<Rightarrow> int \<Rightarrow> string \<Rightarrow> string \<Rightarrow> string \<Rightarrow> k8s_event" where
  "build_event c involved now_us reason message event_type =
     \<lparr>ev_generate_name = kc_name c @ ''-'' @ py_lower reason @ ''-'',
      ev_namespace = kc_namespace c,
      ev_labels = [(''app.kubernetes.io/name'', ''autoindexer''),
                   (''app.kubernetes.io/component'', ''indexing-job''),
                   (''autoindexer.kaito.sh/name'', kc_name c)],
      ev_involved_object = involved, ev_reason = reason, ev_message = message, ev_type = event_type,
      ev_component = ''autoindexer-job'', ev_first_timestamp = now_us, ev_last_timestamp = now_us,
      ev_count = 1\<rparr>"

definition create_event :: "env \<Rightarrow> k8s_client \<Rightarrow> string \<Rightarrow> string \<Rightarrow> string \<Rightarrow> ('s, bool) py" where
  "create_event E c reason message event_type =
     (if kc_name c = '''' then py_return False
      else py_try
        (py_bind (get_autoindexer E c) (\<lambda>autoindexer.
           if \<not> truthy autoindexer then py_return False
           else py_bind (now E) (\<lambda>now_us.
             py_bind (py_lift (create_object_reference c autoindexer)) (\<lambda>involved.
             py_seq
               (py_call (K8sCreateEvent (kc_namespace c) (build_event c involved now_us reason message event_type))
                 (k8s_create_event E))
               (py_return True)))))
        (\<lambda>e. py_return False))"

subsection \<open>Reading resources and conditions\<close>

text \<open>Views of a resource used to state what the operations do: the status
  and its conditions, the first condition of a type.\<close>

definition resource_status :: "json \<Rightarrow> json" where
  "resource_status crd = (case jget crd ''status'' of Some st \<Rightarrow> st | None \<Rightarrow> JDict [])"

definition status_conditions :: "json \<Rightarrow> json list" where
  "status_conditions st = (case jget st ''conditions'' of Some (JList cs) \<Rightarrow> cs | _ \<Rightarrow> [])"

abbreviation resource_conditions :: "json \<Rightarrow> json list" where
  "resource_conditions crd \<equiv> status_conditions (resource_status crd)"

definition has_type :: "string \<Rightarrow> json \<Rightarrow> bool" where
  "has_type ty c \<longleftrightarrow> jget c ''type'' = Some (JStr ty)"

definition lookup_condition :: "string \<Rightarrow> json list \<Rightarrow> json option" where
  "lookup_condition ty cs = find (has_type ty) cs"

definition types_of :: "json list \<Rightarrow> string list" where
  "types_of cs = List.map_filter (\<lambda>c. case jget c ''type'' of Some (JStr t) \<Rightarrow> Some t | _ \<Rightarrow> None) cs"

text \<open>What the API server's schema guarantees of a resource: a dictionary, whose status and metadata
  are dictionaries where present, and whose conditions are a list of dictionaries.\<close>

definition wf_status :: "json \<Rightarrow> bool" where
  "wf_status st \<longleftrightarrow> is_dict st \<and>
     (case jget st ''conditions'' of None \<Rightarrow> True | Some (JList cs) \<Rightarrow> list_all is_dict cs | _ \<Rightarrow> False)"

definition wf_resource :: "json \<Rightarrow> bool" where
  "wf_resource crd \<longleftrightarrow> is_dict crd \<and> truthy crd \<and> wf_status (resource_status crd) \<and>
     (case jget crd ''metadata'' of None \<Rightarrow> True | Some m \<Rightarrow> is_dict m)"

lemma ensure_key_dict:
  "is_dict d \<Longrightarrow> \<exists>d'. ensure_key d k v = Inr d' \<and> is_dict d' \<and>
      jget d' k = Some (case jget d k of None \<Rightarrow> v | Some x \<Rightarrow> x) \<and> (\<forall>k'. k' \<noteq> k \<longrightarrow> jget d' k' = jget d k')"
  using py_set_item_dict [of d k v] by (auto simp: ensure_key_def)

subsection \<open>The conditions as a store\<close>

text \<open>The contract of storing a condition under its type: it succeeds on dictionaries, the type
  then has the stored condition, every other type keeps its own, and a type occurs once more
  only if it did not occur.\<close>

locale condition_store =
  fixes store :: "string \<Rightarrow> json \<Rightarrow> json list \<Rightarrow> exn + json list"
  assumes store_ok: "list_all is_dict cs \<Longrightarrow> has_type ty c \<Longrightarrow> \<exists>cs'. store ty c cs = Inr cs'"
    and store_dicts: "store ty c cs = Inr cs' \<Longrightarrow> has_type ty c \<Longrightarrow> list_all is_dict cs \<Longrightarrow> list_all is_dict cs'"
    and store_same: "store ty c cs = Inr cs' \<Longrightarrow> has_type ty c \<Longrightarrow> lookup_condition ty cs' = Some c"
    and store_other: "store ty c cs = Inr cs' \<Longrightarrow> has_type ty c \<Longrightarrow> ty' \<noteq> ty \<Longrightarrow>
      lookup_condition ty' cs' = lookup_condition ty' cs"
    and store_types: "store ty c cs = Inr cs' \<Longrightarrow> has_type ty c \<Longrightarrow>
      types_of cs' = (if ty \<in> set (types_of cs) then types_of cs else types_of cs @ [ty])"
begin

lemma store_unique:
  "store ty c cs = Inr cs' \<Longrightarrow> has_type ty c \<Longrightarrow> distinct (types_of cs) \<Longrightarrow> distinct (types_of cs')"
  by (simp add: store_types)

lemma store_lookup:
  "store ty c cs = Inr cs' \<Longrightarrow> has_type ty c \<Longrightarrow>
    lookup_condition ty' cs' = (if ty' = ty then Some c else lookup_condition ty' cs)"
  by (simp add: store_same store_other)

end

lemma find_condition_Inr: "find_condition ty cs = Inr i \<Longrightarrow> i = find_index (has_type ty) cs"
proof (induction cs arbitrary: i)
  case Nil
  then show ?case by simp
next
  case (Cons x xs)
  from Cons.prems obtain t where t: "py_get x ''type'' JNull = Inr t"
    by (auto simp: sum_bind_Inr_iff)
  then have x: "is_dict x" using py_get_Inr is_dict.simps(1) by blast
  with t have "t = JStr ty \<longleftrightarrow> has_type ty x"
    by (auto simp: has_type_def split: option.splits)
  with Cons t show ?case by (auto simp: sum_bind_Inr_iff split: if_splits)
qed

lemma find_condition_dicts:
  "list_all is_dict cs \<Longrightarrow> find_condition ty cs = Inr (find_index (has_type ty) cs)"
proof (induction cs)
  case (Cons x xs)
  then show ?case
    by (cases "has_type ty x") (auto simp: has_type_def split: option.splits)
qed simp

text \<open>The two halves of storing: with the index found, the list is updated or extended.\<close>

lemma lookup_put_condition:
  assumes "has_type ty c"
  shows "lookup_condition ty' (put_condition (find_index (has_type ty) cs) c cs) =
    (if ty' = ty then Some c else lookup_condition ty' cs)"
proof (induction cs)
  case Nil
  from assms show ?case by (auto simp: put_condition_def lookup_condition_def has_type_def)
next
  case (Cons x xs)
  have other: "ty' \<noteq> ty \<Longrightarrow> has_type ty z \<Longrightarrow> \<not> has_type ty' z" for z
    by (simp add: has_type_def)
  from Cons assms other show ?case
    by (auto simp: put_condition_def lookup_condition_def split: option.splits)
qed

lemma types_of_Cons:
  "types_of (x # xs) = (case jget x ''type'' of Some (JStr t) \<Rightarrow> t # types_of xs | _ \<Rightarrow> types_of xs)"
  by (auto simp: types_of_def List.map_filter_simps split: option.splits json.splits)

lemma types_of_Nil [simp]: "types_of [] = []"
  by (simp add: types_of_def List.map_filter_simps)

lemma types_of_put_condition:
  assumes "has_type ty c"
  shows "types_of (put_condition (find_index (has_type ty) cs) c cs) =
    (if ty \<in> set (types_of cs) then types_of cs else types_of cs @ [ty])"
proof (induction cs)
  case Nil
  from assms show ?case by (simp add: put_condition_def types_of_Cons has_type_def)
next
  case (Cons x xs)
  show ?case
  proof (cases "has_type ty x")
    case True
    with assms show ?thesis by (simp add: put_condition_def types_of_Cons has_type_def)
  next
    case False
    have "put_condition (find_index (has_type ty) (x # xs)) c (x # xs) =
        x # put_condition (find_index (has_type ty) xs) c xs"
      using False by (simp add: put_condition_def split: option.split)
    moreover have "ty \<in> set (types_of (x # xs)) \<longleftrightarrow> ty \<in> set (types_of xs)"
      using False by (auto simp: types_of_Cons has_type_def split: option.splits json.splits)
    ultimately show ?thesis
      using Cons by (simp add: types_of_Cons split: option.splits json.splits)
  qed
qed

lemma dicts_put_condition:
  "list_all is_dict cs \<Longrightarrow> is_dict c \<Longrightarrow> list_all is_dict (put_condition i c cs)"
  by (auto simp: put_condition_def list_all_iff dest: set_update_subset_insert [THEN subsetD] split: option.splits)

lemma has_type_dict: "has_type ty c \<Longrightarrow> is_dict c"
  by (cases c) (simp_all add: has_type_def)

definition set_condition :: "string \<Rightarrow> json \<Rightarrow> json list \<Rightarrow> exn + json list" where
  "set_condition ty c cs = sum_bind (find_condition ty cs) (\<lambda>i. Inr (put_condition i c cs))"

interpretation k8s_conditions: condition_store set_condition
proof unfold_locales
  fix cs ty c
  assume "list_all is_dict cs" and "has_type ty c"
  then show "\<exists>cs'. set_condition ty c cs = Inr cs'"
    by (simp add: set_condition_def find_condition_dicts)
next
  fix ty c cs cs'
  assume "set_condition ty c cs = Inr cs'" and ty: "has_type ty c"
  then have cs': "cs' = put_condition (find_index (has_type ty) cs) c cs"
    by (auto simp: set_condition_def sum_bind_Inr_iff dest: find_condition_Inr)
  show "lookup_condition ty cs' = Some c"
    and "types_of cs' = (if ty \<in> set (types_of cs) then types_of cs else types_of cs @ [ty])"
    unfolding cs' by (simp_all add: lookup_put_condition [OF ty] types_of_put_condition [OF ty])
  show "lookup_condition ty' cs' = lookup_condition ty' cs" if "ty' \<noteq> ty" for ty'
    unfolding cs' using that by (simp add: lookup_put_condition [OF ty])
  show "list_all is_dict cs'" if "list_all is_dict cs"
    unfolding cs' using that has_type_dict [OF ty] by (rule dicts_put_condition)
qed
subsection \<open>What the operations send\<close>

lemma get_autoindexer_Inr:
  "kc_name c \<noteq> '''' \<Longrightarrow> k8s_get E (K8sGet (object_path c)) (snd \<sigma>) = Inr crd \<Longrightarrow>
    get_autoindexer E c \<sigma> = (Inr crd, fst \<sigma>, snd \<sigma> @ [K8sGet (object_path c)])"
  by (simp add: get_autoindexer_def py_try_def)

lemma now_iso_apply [simp]:
  "now_iso E \<sigma> = (Inr (iso_utc (clock_now E ClockNow (snd \<sigma>))), fst \<sigma>, snd \<sigma> @ [ClockNow])"
  by (simp add: now_iso_def now_def py_bind_def)

lemma patch_status_apply:
  "patch_status E c body \<sigma> =
    (k8s_patch E (K8sPatchStatus (object_path c) body) (snd \<sigma>), fst \<sigma>, snd \<sigma> @ [K8sPatchStatus (object_path c) body])"
  by (simp add: patch_status_def)

lemma resource_status_dict: "wf_resource crd \<Longrightarrow> is_dict (resource_status crd)"
  by (simp add: wf_resource_def wf_status_def)

text \<open>\<open>ensure_conditions\<close> changes nothing but to add the missing parts.\<close>

lemma ensure_conditions_wf:
  assumes "wf_resource crd"
  shows "\<exists>cur st. ensure_conditions crd = Inr cur \<and> is_dict cur \<and> jget cur ''status'' = Some st \<and> is_dict st \<and>
    jget st ''conditions'' = Some (JList (resource_conditions crd)) \<and>
    list_all is_dict (resource_conditions crd) \<and>
    (\<forall>k. k \<noteq> ''status'' \<longrightarrow> jget cur k = jget crd k) \<and>
    (\<forall>k. k \<noteq> ''conditions'' \<longrightarrow> jget st k = jget (resource_status crd) k)"
proof -
  from assms have d: "is_dict crd" by (simp add: wf_resource_def)
  obtain cur where cur: "ensure_key crd ''status'' (JDict []) = Inr cur" "is_dict cur"
    "jget cur ''status'' = Some (resource_status crd)" "\<forall>k. k \<noteq> ''status'' \<longrightarrow> jget cur k = jget crd k"
    using ensure_key_dict [OF d, of "''status''" "JDict []"] by (auto simp: resource_status_def)
  have sd: "is_dict (resource_status crd)" by (rule resource_status_dict [OF assms])
  obtain st where st: "ensure_key (resource_status crd) ''conditions'' (JList []) = Inr st" "is_dict st"
    "jget st ''conditions'' = Some (case jget (resource_status crd) ''conditions'' of None \<Rightarrow> JList [] | Some x \<Rightarrow> x)"
    "\<forall>k. k \<noteq> ''conditions'' \<longrightarrow> jget st k = jget (resource_status crd) k"
    using ensure_key_dict [OF sd, of "''conditions''" "JList []"] by auto
  from assms have wf: "wf_status (resource_status crd)" by (simp add: wf_resource_def)
  then have conds: "jget st ''conditions'' = Some (JList (resource_conditions crd))"
    "list_all is_dict (resource_conditions crd)"
    using st(3) by (auto simp: wf_status_def status_conditions_def split: option.splits json.splits)
  obtain cur' where cur': "py_set_item cur ''status'' st = Inr cur'" "is_dict cur'"
    "\<forall>k. jget cur' k = (if k = ''status'' then Some st else jget cur k)"
    using py_set_item_dict [OF cur(2), of "''status''" st] by auto
  have "ensure_conditions crd = Inr cur'"
    using cur st(1) cur'(1) by (simp add: ensure_conditions_def)
  with cur' st cur(4) conds show ?thesis by auto
qed

lemma with_conditions_wf:
  assumes "is_dict cur" and "jget cur ''status'' = Some st" and "is_dict st"
  shows "\<exists>body st'. with_conditions cur cs = Inr body \<and> is_dict body \<and> truthy body \<and>
    jget body ''status'' = Some st' \<and> is_dict st' \<and> jget st' ''conditions'' = Some (JList cs) \<and>
    (\<forall>k. k \<noteq> ''status'' \<longrightarrow> jget body k = jget cur k) \<and>
    (\<forall>k. k \<noteq> ''conditions'' \<longrightarrow> jget st' k = jget st k)"
proof -
  obtain st' where st': "py_set_item st ''conditions'' (JList cs) = Inr st'" "is_dict st'"
    "\<forall>k. jget st' k = (if k = ''conditions'' then Some (JList cs) else jget st k)"
    using py_set_item_dict [OF assms(3)] by metis
  obtain body where body: "py_set_item cur ''status'' st' = Inr body" "is_dict body" "truthy body"
    "\<forall>k. jget body k = (if k = ''status'' then Some st' else jget cur k)"
    using py_set_item_dict [OF assms(1)] by metis
  have "with_conditions cur cs = Inr body"
    using assms st'(1) body(1) by (simp add: with_conditions_def)
  with st' body show ?thesis by auto
qed

lemma generation_of_wf:
  assumes "is_dict cur" and "case jget cur ''metadata'' of None \<Rightarrow> True | Some m \<Rightarrow> is_dict m"
  shows "\<exists>g. generation_of cur = Inr g"
  using assms by (auto simp: generation_of_def split: option.splits)

lemma create_condition_cases:
  "\<exists>n v. create_condition E ty st r m ltt gen \<sigma> =
      (Inr (condition_json ty st r m v gen), fst \<sigma>, snd \<sigma> @ replicate n ClockNow) \<and>
    (ltt \<noteq> JNull \<longrightarrow> n = 0 \<and> v = ltt) \<and> v \<noteq> JNull"
proof (cases "ltt = JNull")
  case True
  then show ?thesis
    by (intro exI [of _ 1] exI [of _ "JStr (iso_utc (clock_now E ClockNow (snd \<sigma>)))"])
      (simp add: create_condition_def py_bind_def)
next
  case False
  then show ?thesis
    by (intro exI [of _ 0] exI [of _ ltt]) (simp add: create_condition_def)
qed

lemma jget_condition_json [simp]:
  "jget (condition_json ty st r m v gen) ''type'' = Some (JStr ty)"
  "jget (condition_json ty st r m v gen) ''status'' = Some (JStr st)"
  "jget (condition_json ty st r m v gen) ''reason'' = Some (JStr r)"
  "jget (condition_json ty st r m v gen) ''message'' = Some (JStr m)"
  "jget (condition_json ty st r m v gen) ''lastTransitionTime'' = Some v"
  "has_type ty' (condition_json ty st r m v gen) \<longleftrightarrow> ty' = ty"
  by (auto simp: condition_json_def has_type_def)

text \<open>The time of the last transition of a condition stored over \<open>old\<close>: kept while the status
  stays the same, the present time otherwise.\<close>

definition transition_ok :: "json option \<Rightarrow> string \<Rightarrow> json \<Rightarrow> json \<Rightarrow> bool" where
  "transition_ok old st now_val v \<longleftrightarrow>
     (case old of
        None \<Rightarrow> v = now_val
      | Some c \<Rightarrow>
          if jget c ''status'' \<noteq> Some (JStr st) then v = now_val
          else (case jget c ''lastTransitionTime'' of
              None \<Rightarrow> v = now_val
            | Some w \<Rightarrow> w \<noteq> JNull \<longrightarrow> v = w))"

lemma lookup_find_index:
  "lookup_condition ty cs = (case find_index (has_type ty) cs of None \<Rightarrow> None | Some k \<Rightarrow> Some (cs ! k))"
  by (induction cs) (auto simp: lookup_condition_def split: option.splits)

lemma transition_time_wf:
  assumes "list_all is_dict cs" and "i = find_index (has_type ty) cs"
  shows "\<exists>w. transition_time i st now_str cs = Inr w \<and>
    (\<forall>v. (w \<noteq> JNull \<longrightarrow> v = w) \<longrightarrow> transition_ok (lookup_condition ty cs) st (JStr now_str) v)"
proof (cases i)
  case None
  with assms(2) show ?thesis by (simp add: transition_time_def lookup_find_index transition_ok_def)
next
  case (Some k)
  with assms have k: "k < length cs" using find_index_SomeD by metis
  with assms(1) have d: "is_dict (cs ! k)" by (simp add: list_all_length)
  from Some assms(2) have "lookup_condition ty cs = Some (cs ! k)" by (simp add: lookup_find_index)
  with Some d show ?thesis
    by (auto simp: transition_time_def transition_ok_def split: option.splits)
qed

text \<open>The whole of \<open>add_status_condition\<close> on a well-formed resource, up to the patch.\<close>

lemma add_status_condition_run:
  assumes name: "kc_name c \<noteq> ''''"
    and get: "k8s_get E (K8sGet (object_path c)) t = Inr crd" and wf: "wf_resource crd"
  obtains body st' n v g where
    "add_status_condition E c ty st r m (s, t) =
      py_try (py_seq (patch_status E c body) (py_return True)) api_false
        (s, t @ K8sGet (object_path c) # replicate (Suc n) ClockNow)"
    and "is_dict body" and "truthy body" and "jget body ''status'' = Some st'" and "is_dict st'"
    and "jget st' ''conditions'' = Some (JList (put_condition (find_index (has_type ty) (resource_conditions crd))
      (condition_json ty st r m v g) (resource_conditions crd)))"
    and "\<forall>k. k \<noteq> ''status'' \<longrightarrow> jget body k = jget crd k"
    and "\<forall>k. k \<noteq> ''conditions'' \<longrightarrow> jget st' k = jget (resource_status crd) k"
    and "transition_ok (lookup_condition ty (resource_conditions crd)) st
      (JStr (iso_utc (clock_now E ClockNow (t @ [K8sGet (object_path c)])))) v"
proof -
  let ?p = "object_path c"
  let ?now = "iso_utc (clock_now E ClockNow (t @ [K8sGet ?p]))"
  let ?cs = "resource_conditions crd"
  obtain cur stt where cur: "ensure_conditions crd = Inr cur" "is_dict cur" "jget cur ''status'' = Some stt"
    "is_dict stt" "jget stt ''conditions'' = Some (JList ?cs)" "list_all is_dict ?cs"
    "\<forall>k. k \<noteq> ''status'' \<longrightarrow> jget cur k = jget crd k"
    "\<forall>k. k \<noteq> ''conditions'' \<longrightarrow> jget stt k = jget (resource_status crd) k"
    using ensure_conditions_wf [OF wf] by blast
  from wf cur(7) have "case jget cur ''metadata'' of None \<Rightarrow> True | Some m \<Rightarrow> is_dict m"
    by (simp add: wf_resource_def)
  then obtain g where g: "generation_of cur = Inr g" using generation_of_wf [OF cur(2)] by blast
  have cs: "conditions_of cur = Inr ?cs" using cur(2-5) by (simp add: conditions_of_def)
  define i where "i = find_index (has_type ty) ?cs"
  have i: "find_condition ty ?cs = Inr i" using cur(6) by (simp add: i_def find_condition_dicts)
  obtain w where w: "transition_time i st ?now ?cs = Inr w"
    "\<forall>v. (w \<noteq> JNull \<longrightarrow> v = w) \<longrightarrow> transition_ok (lookup_condition ty ?cs) st (JStr ?now) v"
    using transition_time_wf [OF cur(6) i_def] by blast
  let ?t1 = "t @ [K8sGet ?p, ClockNow]"
  obtain n v where nv: "create_condition E ty st r m w g (s, ?t1) =
      (Inr (condition_json ty st r m v g), s, ?t1 @ replicate n ClockNow)" "w \<noteq> JNull \<longrightarrow> v = w"
    using create_condition_cases [of E ty st r m w g "(s, ?t1)"] by auto
  let ?new = "condition_json ty st r m v g"
  obtain body st' where body: "with_conditions cur (put_condition i ?new ?cs) = Inr body" "is_dict body" "truthy body"
    "jget body ''status'' = Some st'" "is_dict st'" "jget st' ''conditions'' = Some (JList (put_condition i ?new ?cs))"
    "\<forall>k. k \<noteq> ''status'' \<longrightarrow> jget body k = jget cur k" "\<forall>k. k \<noteq> ''conditions'' \<longrightarrow> jget st' k = jget stt k"
    using with_conditions_wf [OF cur(2-4), of "put_condition i ?new ?cs"] by blast
  have tr: "truthy crd" using wf by (simp add: wf_resource_def)
  have "add_status_condition E c ty st r m (s, t) =
      py_try (py_seq (patch_status E c body) (py_return True)) api_false
        (s, t @ K8sGet ?p # replicate (Suc n) ClockNow)"
    using name get tr cur(1) g cs i w(1) nv(1) body(1)
    by (simp add: add_status_condition_def py_try_def py_bind_def get_autoindexer_Inr)
  with body cur w(2) nv(2) show ?thesis
    unfolding i_def by (intro that [of body n st' v g]) simp_all
qed

lemma merge_status_wf:
  assumes wf: "wf_resource crd" and "distinct (map fst upd)"
  shows "\<exists>body st'. merge_status crd upd = Inr body \<and> is_dict body \<and> truthy body \<and>
    jget body ''status'' = Some st' \<and> is_dict st' \<and>
    (\<forall>k. k \<noteq> ''status'' \<longrightarrow> jget body k = jget crd k) \<and>
    (\<forall>k. jget st' k = (case map_of upd k of None \<Rightarrow> jget (resource_status crd) k | Some v \<Rightarrow> Some v))"
proof -
  from wf have d: "is_dict crd" by (simp add: wf_resource_def)
  obtain cur where cur: "ensure_key crd ''status'' (JDict []) = Inr cur" "is_dict cur"
    "jget cur ''status'' = Some (resource_status crd)" "\<forall>k. k \<noteq> ''status'' \<longrightarrow> jget cur k = jget crd k"
    using ensure_key_dict [OF d, of "''status''" "JDict []"] by (auto simp: resource_status_def)
  obtain st' where st': "py_dict_update (resource_status crd) upd = Inr st'" "is_dict st'"
    "\<forall>k. jget st' k = (case map_of upd k of None \<Rightarrow> jget (resource_status crd) k | Some v \<Rightarrow> Some v)"
    using py_dict_update_dict [OF resource_status_dict [OF wf] assms(2)] by blast
  obtain body where body: "py_set_item cur ''status'' st' = Inr body" "is_dict body" "truthy body"
    "\<forall>k. jget body k = (if k = ''status'' then Some st' else jget cur k)"
    using py_set_item_dict [OF cur(2)] by metis
  have "merge_status crd upd = Inr body"
    using cur st'(1) body(1) by (simp add: merge_status_def)
  with st' body cur(4) show ?thesis by auto
qed

lemma update_autoindexer_status_run:
  assumes name: "kc_name c \<noteq> ''''"
    and get: "k8s_get E (K8sGet (object_path c)) t = Inr crd" and wf: "wf_resource crd"
    and upd: "distinct (map fst upd)"
  shows "\<exists>body st'. update_autoindexer_status E c upd (s, t) =
        py_try (py_seq (patch_status E c body) (py_return True)) api_false (s, t @ [K8sGet (object_path c)]) \<and>
      is_dict body \<and> truthy body \<and> jget body ''status'' = Some st' \<and> is_dict st' \<and>
      (\<forall>k. k \<noteq> ''status'' \<longrightarrow> jget body k = jget crd k) \<and>
      (\<forall>k. jget st' k = (case map_of upd k of None \<Rightarrow> jget (resource_status crd) k | Some v \<Rightarrow> Some v))"
proof -
  obtain body st' where body: "merge_status crd upd = Inr body" "is_dict body" "truthy body"
    "jget body ''status'' = Some st'" "is_dict st'" "\<forall>k. k \<noteq> ''status'' \<longrightarrow> jget body k = jget crd k"
    "\<forall>k. jget st' k = (case map_of upd k of None \<Rightarrow> jget (resource_status crd) k | Some v \<Rightarrow> Some v)"
    using merge_status_wf [OF wf upd] by blast
  have "update_autoindexer_status E c upd (s, t) =
        py_try (py_seq (patch_status E c body) (py_return True)) api_false (s, t @ [K8sGet (object_path c)])"
    using name get wf body(1)
    by (simp add: update_autoindexer_status_def py_try_def py_bind_def get_autoindexer_Inr wf_resource_def)
  with body show ?thesis by blast
qed

text \<open>The end of both: the patch is sent, and an \<open>ApiException\<close> makes the result \<open>False\<close>.\<close>

lemma patch_end_run:
  "\<exists>r. py_try (py_seq (patch_status E c body) (py_return True)) api_false (s, t) =
    (r, s, t @ [K8sPatchStatus (object_path c) body]) \<and>
    (k8s_patch E (K8sPatchStatus (object_path c) body) t = Inr () \<longrightarrow> r = Inr True)"
  by (cases "k8s_patch E (K8sPatchStatus (object_path c) body) t")
    (auto simp: py_try_def py_bind_def patch_status_apply api_false_def split: exn.splits)

lemma increment_counter_run:
  assumes "kc_name c \<noteq> ''''" and "k8s_get E (K8sGet (object_path c)) t = Inr crd" and "wf_resource crd"
    and "jget (resource_status crd) f = None \<or> (\<exists>n. jget (resource_status crd) f = Some (JInt n))"
  shows "increment_counter E c f (s, t) =
    (Inr ((case jget (resource_status crd) f of Some (JInt n) \<Rightarrow> n | _ \<Rightarrow> 0) + 1), s, t @ [K8sGet (object_path c)])"
proof -
  have d: "is_dict crd" "truthy crd" using assms(3) by (simp_all add: wf_resource_def)
  have "is_dict (resource_status crd)" using assms(3) by (rule resource_status_dict)
  then have "next_count crd f = Inr ((case jget (resource_status crd) f of Some (JInt n) \<Rightarrow> n | _ \<Rightarrow> 0) + 1)"
    using d assms(4) by (auto simp: next_count_def resource_status_def split: option.splits)
  with assms(1,2) show ?thesis
    by (simp add: increment_counter_def py_try_def py_bind_def get_autoindexer_Inr)
qed

subsection \<open>Calls and errors\<close>

text \<open>The client talks to the API server and reads the clock, and nothing else.\<close>

lemma get_autoindexer_emits:
  "(\<And>p. P (K8sGet p)) \<Longrightarrow> emits P (get_autoindexer E c)"
  unfolding get_autoindexer_def by (intro emits_intros) (auto intro!: emits_intros split: exn.splits)

lemma api_false_emits [emits_intros]: "emits P (api_false e)"
  unfolding api_false_def by (cases e) (simp_all add: emits_return emits_raise)

lemma create_condition_emits [emits_intros]:
  "P ClockNow \<Longrightarrow> emits P (create_condition E ty st r m ltt g)"
  unfolding create_condition_def by (intro emits_intros)

lemma add_status_condition_emits:
  assumes "\<And>p. P (K8sGet p)" "P ClockNow" "\<And>p b. P (K8sPatchStatus p b)"
  shows "emits P (add_status_condition E c ty st r m)"
  unfolding add_status_condition_def patch_status_def
  by (intro emits_intros get_autoindexer_emits assms)

lemma update_autoindexer_status_emits:
  assumes "\<And>p. P (K8sGet p)" "\<And>p b. P (K8sPatchStatus p b)"
  shows "emits P (update_autoindexer_status E c upd)"
  unfolding update_autoindexer_status_def patch_status_def
  by (intro emits_intros get_autoindexer_emits assms)

lemma update_indexing_completion_emits:
  assumes "\<And>p. P (K8sGet p)" "P ClockNow" "\<And>p b. P (K8sPatchStatus p b)"
  shows "emits P (update_indexing_completion E c ok d n h)"
  unfolding update_indexing_completion_def increment_counter_def
  by (intro emits_intros get_autoindexer_emits update_autoindexer_status_emits assms)

lemma create_event_emits:
  assumes "\<And>p. P (K8sGet p)" "P ClockNow" "\<And>n e. P (K8sCreateEvent n e)"
  shows "emits P (create_event E c r m ty)"
  unfolding create_event_def by (intro emits_intros get_autoindexer_emits assms)

lemma create_event_total [total_intros]: "never_raises (create_event E c r m ty)"
  unfolding create_event_def by (intro total_intros)

lemma increment_counter_total [total_intros]: "never_raises (increment_counter E c f)"
  unfolding increment_counter_def by (intro total_intros)

lemma get_autoindexer_keeps [frame_intros]: "keeps p (get_autoindexer E c)"
  unfolding get_autoindexer_def by (intro frame_intros) (auto intro: frame_intros split: exn.splits)

lemma api_false_keeps [frame_intros]: "keeps p (api_false e)"
  unfolding api_false_def by (cases e) (simp_all add: frame_intros)

lemma k8s_keeps [frame_intros]:
  "keeps p (update_autoindexer_status E c upd)"
  "keeps p (add_status_condition E c ty st r m)"
  "keeps p (update_indexing_completion E c ok d n h)"
  "keeps p (create_event E c r m ty)"
  unfolding update_indexing_completion_def increment_counter_def update_autoindexer_status_def
    add_status_condition_def create_event_def create_condition_def patch_status_def
  by (intro frame_intros)+

subsection \<open>What the operations send\<close>

text \<open>\<open>sends_patch c body u\<close>: the calls \<open>u\<close> end in the patch \<open>body\<close> and write nothing before.\<close>

definition sends_patch :: "k8s_client \<Rightarrow> json \<Rightarrow> trace \<Rightarrow> bool" where
  "sends_patch c body u \<longleftrightarrow>
     (\<exists>v. u = v @ [K8sPatchStatus (object_path c) body] \<and> list_all (\<lambda>c. \<not> is_k8s_write c) v)"

lemma sends_patchD: "sends_patch c body u \<Longrightarrow> patched u = [body] \<and> created_events u = []"
  using no_write_no_patch unfolding sends_patch_def by fastforce

lemma wf_resource_patched:
  assumes "wf_resource crd" and "jget body ''status'' = Some st" and "is_dict st"
    and "\<forall>k. k \<noteq> ''status'' \<longrightarrow> jget body k = jget crd k"
    and "jget st ''conditions'' = jget (resource_status crd) ''conditions'' \<or>
      (\<exists>cs. jget st ''conditions'' = Some (JList cs) \<and> list_all is_dict cs)"
  shows "wf_resource body"
proof -
  have "is_dict body \<and> truthy body" using assms(2) by (cases body) auto
  moreover have "jget body ''metadata'' = jget crd ''metadata''" using assms(4) by simp
  moreover have "wf_status st"
    using assms(1,3,5) by (auto simp: wf_resource_def wf_status_def)
  ultimately show ?thesis
    using assms(1,2) by (simp add: wf_resource_def resource_status_def)
qed

lemma list_all_put_condition: "list_all is_dict cs \<Longrightarrow> is_dict c \<Longrightarrow> list_all is_dict (put_condition i c cs)"
  by (auto simp: put_condition_def list_all_iff dest: set_update_subset_insert [THEN subsetD] split: option.split)

lemma add_status_condition_sends:
  assumes "kc_name c \<noteq> ''''"
    and "k8s_get E (K8sGet (object_path c)) t = Inr crd" and "wf_resource crd"
  obtains body new v where
    "sends_patch c body (new_calls (add_status_condition E c ty st r m) (s, t))"
    and "wf_resource body" and "jget body ''status'' \<noteq> None"
    and "lookup_condition ty (resource_conditions body) = Some new"
    and "jget new ''status'' = Some (JStr st)" and "jget new ''reason'' = Some (JStr r)"
    and "jget new ''message'' = Some (JStr m)" and "jget new ''lastTransitionTime'' = Some v"
    and "transition_ok (lookup_condition ty (resource_conditions crd)) st
      (JStr (iso_utc (clock_now E ClockNow (t @ [K8sGet (object_path c)])))) v"
    and "\<forall>ty'. ty' \<noteq> ty \<longrightarrow> lookup_condition ty' (resource_conditions body) = lookup_condition ty' (resource_conditions crd)"
    and "distinct (types_of (resource_conditions crd)) \<longrightarrow> distinct (types_of (resource_conditions body))"
    and "\<forall>k. k \<noteq> ''status'' \<longrightarrow> jget body k = jget crd k"
    and "\<forall>k. k \<noteq> ''conditions'' \<longrightarrow> jget (resource_status body) k = jget (resource_status crd) k"
proof -
  let ?cs = "resource_conditions crd"
  obtain body st' n v g where run: "add_status_condition E c ty st r m (s, t) =
        py_try (py_seq (patch_status E c body) (py_return True)) api_false
          (s, t @ K8sGet (object_path c) # replicate (Suc n) ClockNow)"
    and body: "jget body ''status'' = Some st'" "is_dict st'"
      "jget st' ''conditions'' = Some (JList (put_condition (find_index (has_type ty) ?cs) (condition_json ty st r m v g) ?cs))"
      "\<forall>k. k \<noteq> ''status'' \<longrightarrow> jget body k = jget crd k"
      "\<forall>k. k \<noteq> ''conditions'' \<longrightarrow> jget st' k = jget (resource_status crd) k"
    and v: "transition_ok (lookup_condition ty ?cs) st
      (JStr (iso_utc (clock_now E ClockNow (t @ [K8sGet (object_path c)])))) v"
    by (rule add_status_condition_run [OF assms, of ty st r m s])
  let ?new = "condition_json ty st r m v g"
  have dicts: "list_all is_dict ?cs"
    using ensure_conditions_wf [OF assms(3)] by blast
  then have stored: "set_condition ty ?new ?cs = Inr (put_condition (find_index (has_type ty) ?cs) ?new ?cs)"
    by (simp add: set_condition_def find_condition_dicts)
  have rs: "resource_status body = st'" using body(1) by (simp add: resource_status_def)
  then have rc: "resource_conditions body = put_condition (find_index (has_type ty) ?cs) ?new ?cs"
    using body(3) by (simp add: status_conditions_def)
  have "new_calls (add_status_condition E c ty st r m) (s, t) =
      (K8sGet (object_path c) # replicate (Suc n) ClockNow) @ [K8sPatchStatus (object_path c) body]"
    using patch_end_run [of E c body s "t @ K8sGet (object_path c) # replicate (Suc n) ClockNow"]
    by (auto simp: new_calls_def run)
  moreover have "list_all (\<lambda>c. \<not> is_k8s_write c) (K8sGet (object_path c) # replicate (Suc n) ClockNow)"
    by (simp add: list_all_iff)
  ultimately have sent: "sends_patch c body (new_calls (add_status_condition E c ty st r m) (s, t))"
    unfolding sends_patch_def by blast
  have "is_dict ?new" by (simp add: condition_json_def)
  with dicts have wf: "wf_resource body"
    using body(3) by (intro wf_resource_patched [OF assms(3) body(1,2,4)]) (simp add: list_all_put_condition)
  have look: "lookup_condition ty' (resource_conditions body) =
      (if ty' = ty then Some ?new else lookup_condition ty' ?cs)" for ty'
    unfolding rc using k8s_conditions.store_lookup [OF stored] by simp
  have uniq: "distinct (types_of ?cs) \<longrightarrow> distinct (types_of (resource_conditions body))"
    unfolding rc using k8s_conditions.store_unique [OF stored] by simp
  have rest: "\<forall>k. k \<noteq> ''conditions'' \<longrightarrow> jget (resource_status body) k = jget (resource_status crd) k"
    unfolding rs by (rule body(5))
  have same: "lookup_condition ty (resource_conditions body) = Some ?new"
    and other: "\<forall>ty'. ty' \<noteq> ty \<longrightarrow> lookup_condition ty' (resource_conditions body) = lookup_condition ty' ?cs"
    by (auto simp only: look if_True if_False simp_thms split: if_splits)
  have status: "jget body ''status'' \<noteq> None" using body(1) by simp
  show ?thesis by (rule that [OF sent wf status same jget_condition_json(2-5) v other uniq body(4) rest])
qed

subsection \<open>Properties\<close>

text \<open>C16: The effect of \<open>add_status_condition\<close>. On a well-formed resource it sends exactly one
  patch. In the patched resource the condition type has the given status, reason and message,
  every other condition type has the condition it had, no type is duplicated that was not, and
  nothing outside \<open>status.conditions\<close> has changed. The time of the last transition is kept when
  the status is the same as before and is the present time when it differs or is new.\<close>

theorem add_status_condition_effect:
  assumes "kc_name c \<noteq> ''''"
    and "k8s_get E (K8sGet (object_path c)) t = Inr crd" and "wf_resource crd"
  shows "\<exists>body new v.
    patched (new_calls (add_status_condition E c ty st r m) (s, t)) = [body] \<and>
    lookup_condition ty (resource_conditions body) = Some new \<and>
    jget new ''status'' = Some (JStr st) \<and> jget new ''reason'' = Some (JStr r) \<and>
    jget new ''message'' = Some (JStr m) \<and> jget new ''lastTransitionTime'' = Some v \<and>
    transition_ok (lookup_condition ty (resource_conditions crd)) st
      (JStr (iso_utc (clock_now E ClockNow (t @ [K8sGet (object_path c)])))) v \<and>
    (\<forall>ty'. ty' \<noteq> ty \<longrightarrow> lookup_condition ty' (resource_conditions body) = lookup_condition ty' (resource_conditions crd)) \<and>
    (distinct (types_of (resource_conditions crd)) \<longrightarrow> distinct (types_of (resource_conditions body))) \<and>
    (\<forall>k. k \<noteq> ''status'' \<longrightarrow> jget body k = jget crd k) \<and>
    (\<forall>k. k \<noteq> ''conditions'' \<longrightarrow> jget (resource_status body) k = jget (resource_status crd) k)"
proof -
  obtain body new v where r: "sends_patch c body (new_calls (add_status_condition E c ty st r m) (s, t))"
    and rest: "lookup_condition ty (resource_conditions body) = Some new"
      "jget new ''status'' = Some (JStr st)" "jget new ''reason'' = Some (JStr r)"
      "jget new ''message'' = Some (JStr m)" "jget new ''lastTransitionTime'' = Some v"
      "transition_ok (lookup_condition ty (resource_conditions crd)) st
        (JStr (iso_utc (clock_now E ClockNow (t @ [K8sGet (object_path c)])))) v"
      "\<forall>ty'. ty' \<noteq> ty \<longrightarrow> lookup_condition ty' (resource_conditions body) = lookup_condition ty' (resource_conditions crd)"
      "distinct (types_of (resource_conditions crd)) \<longrightarrow> distinct (types_of (resource_conditions body))"
      "\<forall>k. k \<noteq> ''status'' \<longrightarrow> jget body k = jget crd k"
      "\<forall>k. k \<noteq> ''conditions'' \<longrightarrow> jget (resource_status body) k = jget (resource_status crd) k"
    by (rule add_status_condition_sends [OF assms, of ty st r m s])
  show ?thesis
    by (rule exI [of _ body], rule exI [of _ new], rule exI [of _ v])
      (intro conjI sends_patchD [OF r, THEN conjunct1] rest)
qed

definition sample_client :: k8s_client where
  "sample_client = \<lparr>kc_namespace = ''default'', kc_name = ''docs''\<rparr>"

definition sample_resource :: json where
  "sample_resource = JDict
     [(''metadata'', JDict [(''name'', JStr ''docs''), (''generation'', JInt 3)]),
      (''spec'', JDict [(''indexName'', JStr ''documentation-index'')]),
      (''status'', JDict [(''successfulIndexingCount'', JInt 5),
        (''conditions'', JList
          [JDict [(''type'', JStr ''AutoIndexerError''), (''status'', JStr ''False''),
             (''lastTransitionTime'', JStr ''2023-01-01T00:00:00Z'')]])])]"

lemma sample_resource_wf: "wf_resource sample_resource"
  by code_simp

lemma sample_client_name: "kc_name sample_client \<noteq> ''''"
  by (simp add: sample_client_def)

lemma sample_get: "k8s_get (sample_world crd) call [] = Inr crd"
  by (simp add: sample_world_def)

lemma sample_iso: "iso_utc 1704067201000000 = ''2024-01-01T00:00:01Z''"
  by code_simp

theorem add_status_condition_effect_witness:
  "\<exists>body new.
    patched (new_calls (add_status_condition (sample_world sample_resource) sample_client
      ''AutoIndexerError'' ''True'' ''IndexingErrors'' ''2 errors'') ((), [])) = [body] \<and>
    lookup_condition ''AutoIndexerError'' (resource_conditions body) = Some new \<and>
    jget new ''status'' = Some (JStr ''True'') \<and>
    jget new ''lastTransitionTime'' = Some (JStr ''2024-01-01T00:00:01Z'')"
proof -
  have clock: "iso_utc (clock_now (sample_world sample_resource) ClockNow ([] @ [K8sGet (object_path sample_client)]))
      = ''2024-01-01T00:00:01Z''"
    by (simp add: sample_world_def sample_iso)
  have old: "lookup_condition ''AutoIndexerError'' (resource_conditions sample_resource) =
      Some (JDict [(''type'', JStr ''AutoIndexerError''), (''status'', JStr ''False''),
             (''lastTransitionTime'', JStr ''2023-01-01T00:00:00Z'')])"
    by code_simp
  show ?thesis
    using add_status_condition_effect [OF sample_client_name sample_get sample_resource_wf,
        of "''AutoIndexerError''" "''True''" "''IndexingErrors''" "''2 errors''" "()"]
    unfolding clock old by (auto simp: transition_ok_def)
qed

lemma update_autoindexer_status_sends:
  assumes "kc_name c \<noteq> ''''"
    and "k8s_get E (K8sGet (object_path c)) t = Inr crd" and "wf_resource crd"
    and "distinct (map fst upd)"
  shows "\<exists>body.
    new_calls (update_autoindexer_status E c upd) (s, t) =
      [K8sGet (object_path c), K8sPatchStatus (object_path c) body] \<and>
    (\<forall>k. k \<noteq> ''status'' \<longrightarrow> jget body k = jget crd k) \<and>
    (\<forall>k. jget (resource_status body) k =
      (case map_of upd k of None \<Rightarrow> jget (resource_status crd) k | Some v \<Rightarrow> Some v)) \<and>
    (k8s_patch E (K8sPatchStatus (object_path c) body) (t @ [K8sGet (object_path c)]) = Inr () \<longrightarrow>
      fst (update_autoindexer_status E c upd (s, t)) = Inr True)"
proof -
  obtain body st' where run: "update_autoindexer_status E c upd (s, t) =
        py_try (py_seq (patch_status E c body) (py_return True)) api_false (s, t @ [K8sGet (object_path c)])"
    and body: "jget body ''status'' = Some st'" "\<forall>k. k \<noteq> ''status'' \<longrightarrow> jget body k = jget crd k"
      "\<forall>k. jget st' k = (case map_of upd k of None \<Rightarrow> jget (resource_status crd) k | Some v \<Rightarrow> Some v)"
    using update_autoindexer_status_run [OF assms, of s] by blast
  then have "resource_status body = st'" by (simp add: resource_status_def)
  with body patch_end_run [of E c body s "t @ [K8sGet (object_path c)]"] show ?thesis
    by (intro exI [of _ body]) (auto simp: new_calls_def run)
qed

text \<open>C17: The effect of \<open>update_autoindexer_status\<close>. On a well-formed resource exactly one patch is
  sent. It sets the given status fields and changes nothing else, neither in the status nor
  outside it; the result is \<open>True\<close> when the API server accepts the patch.\<close>

theorem update_autoindexer_status_effect:
  assumes "kc_name c \<noteq> ''''"
    and "k8s_get E (K8sGet (object_path c)) t = Inr crd" and "wf_resource crd"
    and "distinct (map fst upd)"
  shows "\<exists>body.
    new_calls (update_autoindexer_status E c upd) (s, t) =
      [K8sGet (object_path c), K8sPatchStatus (object_path c) body] \<and>
    (\<forall>k. k \<noteq> ''status'' \<longrightarrow> jget body k = jget crd k) \<and>
    (\<forall>k. jget (resource_status body) k =
      (case map_of upd k of None \<Rightarrow> jget (resource_status crd) k | Some v \<Rightarrow> Some v)) \<and>
    (k8s_patch E (K8sPatchStatus (object_path c) body) (t @ [K8sGet (object_path c)]) = Inr () \<longrightarrow>
      fst (update_autoindexer_status E c upd (s, t)) = Inr True)"
  using update_autoindexer_status_sends [OF assms] .

theorem update_autoindexer_status_effect_witness:
  "\<exists>body.
    new_calls (update_autoindexer_status (sample_world sample_resource) sample_client
        [(''numOfDocumentInIndex'', JInt 12)]) ((), []) =
      [K8sGet (object_path sample_client), K8sPatchStatus (object_path sample_client) body] \<and>
    jget (resource_status body) ''numOfDocumentInIndex'' = Some (JInt 12) \<and>
    jget (resource_status body) ''successfulIndexingCount'' = Some (JInt 5)"
proof -
  have old: "jget (resource_status sample_resource) ''successfulIndexingCount'' = Some (JInt 5)"
    by code_simp
  have "distinct (map fst [(''numOfDocumentInIndex'', JInt 12)])" by simp
  from update_autoindexer_status_effect [OF sample_client_name sample_get sample_resource_wf this, of "()"] old
  show ?thesis by auto
qed

lemma update_indexing_completion_sends:
  assumes "kc_name c \<noteq> ''''"
    and "k8s_get E (K8sGet (object_path c)) (t @ [ClockNow]) = Inr crd"
    and "k8s_get E (K8sGet (object_path c)) (t @ [ClockNow, K8sGet (object_path c)]) = Inr crd"
    and "wf_resource crd"
    and "counter = (if ok then ''successfulIndexingCount'' else ''errorIndexingCount'')"
    and "jget (resource_status crd) counter = old"
    and "old = None \<and> n = 0 \<or> old = Some (JInt n)"
  obtains body where
    "sends_patch c body (new_calls (update_indexing_completion E c ok d num JNull) (s, t))"
    and "wf_resource body" and "jget body ''status'' \<noteq> None"
    and "jget (resource_status body) counter = Some (JInt (n + 1))"
    and "jget (resource_status body) ''numOfDocumentInIndex'' = Some (JInt num)"
    and "jget (resource_status body) ''lastIndexingDurationSeconds'' = Some (JInt d)"
    and "\<forall>k. k \<notin> {counter, ''numOfDocumentInIndex'', ''lastIndexingDurationSeconds'', ''lastIndexingTimestamp''} \<longrightarrow>
      jget (resource_status body) k = jget (resource_status crd) k"
    and "\<forall>k. k \<noteq> ''status'' \<longrightarrow> jget body k = jget crd k"
proof -
  let ?p = "object_path c"
  let ?now = "JStr (iso_utc (clock_now E ClockNow t))"
  let ?upd = "[(''lastIndexingTimestamp'', ?now), (''lastIndexingDurationSeconds'', JInt d),
      (''numOfDocumentInIndex'', JInt num), (counter, JInt (n + 1))]"
  have upd: "distinct (map fst ?upd)" using assms(5) by simp
  have "increment_counter E c counter (s, t @ [ClockNow]) = (Inr (n + 1), s, t @ [ClockNow, K8sGet ?p])"
    using increment_counter_run [OF assms(1,2,4), of counter s] assms(6,7) by auto
  then have run: "update_indexing_completion E c ok d num JNull (s, t) =
      update_autoindexer_status E c ?upd (s, t @ [ClockNow, K8sGet ?p])"
    using assms(5) by (simp add: update_indexing_completion_def py_bind_def Let_def)
  obtain body st where upd_run: "update_autoindexer_status E c ?upd (s, t @ [ClockNow, K8sGet ?p]) =
        py_try (py_seq (patch_status E c body) (py_return True)) api_false (s, (t @ [ClockNow, K8sGet ?p]) @ [K8sGet ?p])"
    and body: "jget body ''status'' = Some st" "is_dict st" "\<forall>k. k \<noteq> ''status'' \<longrightarrow> jget body k = jget crd k"
      "\<forall>k. jget st k = (case map_of ?upd k of None \<Rightarrow> jget (resource_status crd) k | Some v \<Rightarrow> Some v)"
    using update_autoindexer_status_run [OF assms(1,3,4) upd, of s] by blast
  have "new_calls (update_indexing_completion E c ok d num JNull) (s, t) =
      [ClockNow, K8sGet ?p, K8sGet ?p] @ [K8sPatchStatus ?p body]"
    using patch_end_run [of E c body s "(t @ [ClockNow, K8sGet ?p]) @ [K8sGet ?p]"]
    by (auto simp: new_calls_def run upd_run)
  moreover have "list_all (\<lambda>c. \<not> is_k8s_write c) [ClockNow, K8sGet ?p, K8sGet ?p]" by simp
  ultimately have sent: "sends_patch c body (new_calls (update_indexing_completion E c ok d num JNull) (s, t))"
    unfolding sends_patch_def by blast
  have rs: "resource_status body = st" using body(1) by (simp add: resource_status_def)
  have wf: "wf_resource body"
    by (rule wf_resource_patched [OF assms(4) body(1-3)]) (use body(4) assms(5) in simp)
  show ?thesis
    by (rule that [OF sent wf]) (use body assms(5) in \<open>simp_all add: rs\<close>)
qed

text \<open>C29: The counters of completed runs. If the resource stays the same until the patch,
  \<open>update_indexing_completion\<close> raises by one the counter of successful runs after a success
  and the counter of failed runs after a failure, a missing counter counting from 0, and
  leaves the other counter, the conditions and everything outside the status alone.\<close>

theorem completion_counts:
  assumes "kc_name c \<noteq> ''''"
    and "k8s_get E (K8sGet (object_path c)) (t @ [ClockNow]) = Inr crd"
    and "k8s_get E (K8sGet (object_path c)) (t @ [ClockNow, K8sGet (object_path c)]) = Inr crd"
    and "wf_resource crd"
    and "counter = (if ok then ''successfulIndexingCount'' else ''errorIndexingCount'')"
    and "jget (resource_status crd) counter = old"
    and "old = None \<and> n = 0 \<or> old = Some (JInt n)"
  shows "\<exists>body. patched (new_calls (update_indexing_completion E c ok d num JNull) (s, t)) = [body] \<and>
    jget (resource_status body) counter = Some (JInt (n + 1)) \<and>
    jget (resource_status body) ''numOfDocumentInIndex'' = Some (JInt num) \<and>
    jget (resource_status body) ''lastIndexingDurationSeconds'' = Some (JInt d) \<and>
    (\<forall>k. k \<notin> {counter, ''numOfDocumentInIndex'', ''lastIndexingDurationSeconds'', ''lastIndexingTimestamp''} \<longrightarrow>
      jget (resource_status body) k = jget (resource_status crd) k) \<and>
    (\<forall>k. k \<noteq> ''status'' \<longrightarrow> jget body k = jget crd k)"
proof -
  obtain body where r: "sends_patch c body (new_calls (update_indexing_completion E c ok d num JNull) (s, t))"
    and rest: "jget (resource_status body) counter = Some (JInt (n + 1))"
      "jget (resource_status body) ''numOfDocumentInIndex'' = Some (JInt num)"
      "jget (resource_status body) ''lastIndexingDurationSeconds'' = Some (JInt d)"
      "\<forall>k. k \<notin> {counter, ''numOfDocumentInIndex'', ''lastIndexingDurationSeconds'', ''lastIndexingTimestamp''} \<longrightarrow>
        jget (resource_status body) k = jget (resource_status crd) k"
      "\<forall>k. k \<noteq> ''status'' \<longrightarrow> jget body k = jget crd k"
    by (rule update_indexing_completion_sends [OF assms, of d num s])
  show ?thesis
    by (rule exI [of _ body]) (intro conjI sends_patchD [OF r, THEN conjunct1] rest)
qed

theorem completion_counts_witness:
  "\<exists>body. patched (new_calls (update_indexing_completion (sample_world sample_resource) sample_client
      True 4 12 JNull) ((), [])) = [body] \<and>
    jget (resource_status body) ''successfulIndexingCount'' = Some (JInt 6) \<and>
    jget (resource_status body) ''conditions'' = jget (resource_status sample_resource) ''conditions''"
proof -
  have get: "k8s_get (sample_world sample_resource) (K8sGet (object_path sample_client)) ([] @ [ClockNow]) = Inr sample_resource"
    "k8s_get (sample_world sample_resource) (K8sGet (object_path sample_client))
      ([] @ [ClockNow, K8sGet (object_path sample_client)]) = Inr sample_resource"
    by (simp_all add: sample_world_def)
  have old: "jget (resource_status sample_resource) ''successfulIndexingCount'' = Some (JInt 5)"
    by code_simp
  have counter: "''successfulIndexingCount'' = (if True then ''successfulIndexingCount'' else ''errorIndexingCount'')"
    by simp
  have five: "Some (JInt 5) = None \<and> (5::int) = 0 \<or> Some (JInt 5) = Some (JInt 5)" by simp
  obtain body where body: "patched (new_calls (update_indexing_completion (sample_world sample_resource) sample_client
      True 4 12 JNull) ((), [])) = [body]"
    "jget (resource_status body) ''successfulIndexingCount'' = Some (JInt (5 + 1))"
    "\<forall>k. k \<notin> {''successfulIndexingCount'', ''numOfDocumentInIndex'', ''lastIndexingDurationSeconds'', ''lastIndexingTimestamp''} \<longrightarrow>
      jget (resource_status body) k = jget (resource_status sample_resource) k"
    using completion_counts [OF sample_client_name get sample_resource_wf counter old five, of 4 12 "()"] by blast
  from body(3) have "jget (resource_status body) ''conditions'' = jget (resource_status sample_resource) ''conditions''"
    by simp
  with body(1,2) show ?thesis by auto
qed

text \<open>Errors of the API server on reading. If the resource cannot be read because the server
  answers with an error, each of the three operations reports \<open>False\<close> after that one call, and
  neither patches nor creates anything.\<close>

theorem api_errors_reported:
  assumes "kc_name c \<noteq> ''''"
    and "k8s_get E (K8sGet (object_path c)) t = Inl (ApiException code_no msg)"
  shows "add_status_condition E c ty st r m (s, t) = (Inr False, s, t @ [K8sGet (object_path c)]) \<and>
    update_autoindexer_status E c upd (s, t) = (Inr False, s, t @ [K8sGet (object_path c)]) \<and>
    create_event E c r m ty (s, t) = (Inr False, s, t @ [K8sGet (object_path c)])"
  using assms
  by (cases "code_no = 404")
    (simp_all add: add_status_condition_def update_autoindexer_status_def create_event_def get_autoindexer_def
        py_try_def py_bind_def api_false_def)

theorem api_errors_reported_witness:
  "update_autoindexer_status
      ((sample_world sample_resource)\<lparr>k8s_get := \<lambda>c t. Inl (ApiException 503 ''unavailable'')\<rparr>) sample_client
      [(''numOfDocumentInIndex'', JInt 12)] ((), []) =
    (Inr False, (), [K8sGet (object_path sample_client)])"
  using api_errors_reported [OF sample_client_name,
      of "(sample_world sample_resource)\<lparr>k8s_get := \<lambda>c t. Inl (ApiException 503 ''unavailable'')\<rparr>" "[]" 503
        "''unavailable''" _ _ _ _ "()" "[(''numOfDocumentInIndex'', JInt 12)]"]
  by simp

end
