(* ===== verification/RagClient.thy ===== *)
theory RagClient
  imports World
begin

section \<open>The RAG engine client and its file types\<close>

text \<open>
  \<open>jobs/autoindexer/rag/rag_client.py\<close>: \<open>KAITORAGClient\<close>, a thin client of the RAG engine, and
  \<open>jobs/autoindexer/rag/utils.py\<close>: the languages of the code files. The engine is a service:
  each method is one call, whose arguments are recorded.
\<close>

subsection \<open>KAITORAGClient\<close>

record rag_client =
  rc_base_url :: string

definition new_rag_client :: "string \<Rightarrow> rag_client" where
  "new_rag_client base_url = \<lparr>rc_base_url = base_url\<rparr>"

definition index_documents :: "env \<Rightarrow> rag_client \<Rightarrow> json \<Rightarrow> document list \<Rightarrow> ('s, unit) py" where
  "index_documents E c index_name docs =
     py_call (RagIndex (rc_base_url c) index_name docs) (rag_write E)"

definition update_documents :: "env \<Rightarrow> rag_client \<Rightarrow> json \<Rightarrow> document list \<Rightarrow> ('s, unit) py" where
  "update_documents E c index_name docs =
     py_call (RagUpdate (rc_base_url c) index_name docs) (rag_write E)"

definition delete_documents :: "env \<Rightarrow> rag_client \<Rightarrow> json \<Rightarrow> string list \<Rightarrow> ('s, unit) py" where
  "delete_documents E c index_name ids =
     py_call (RagDelete (rc_base_url c) index_name ids) (rag_write E)"

definition list_documents ::
  "env \<Rightarrow> rag_client \<Rightarrow> json \<Rightarrow> json \<Rightarrow> int \<Rightarrow> int \<Rightarrow> ('s, doc_listing option) py" where
  "list_documents E c index_name metadata_filter limit offset =
     py_call (RagList (rc_base_url c) index_name (json_dumps metadata_filter) limit offset) (rag_list E)"

definition list_indexes :: "env \<Rightarrow> rag_client \<Rightarrow> ('s, json) py" where
  "list_indexes E c = py_call (RagListIndexes (rc_base_url c)) (rag_indexes E)"

definition persist_index :: "env \<Rightarrow> rag_client \<Rightarrow> json \<Rightarrow> string \<Rightarrow> ('s, unit) py" where
  "persist_index E c index_name path = py_call (RagPersist (rc_base_url c) index_name path) (rag_write E)"

definition load_index :: "env \<Rightarrow> rag_client \<Rightarrow> json \<Rightarrow> string \<Rightarrow> bool \<Rightarrow> ('s, unit) py" where
  "load_index E c index_name path overwrite =
     py_call (RagLoad (rc_base_url c) index_name path overwrite) (rag_write E)"

definition delete_index :: "env \<Rightarrow> rag_client \<Rightarrow> json \<Rightarrow> ('s, unit) py" where
  "delete_index E c index_name = py_call (RagDeleteIndex (rc_base_url c) index_name) (rag_write E)"

text \<open>The attributes of a client object: the methods of the class and the attribute its
  constructor sets. Looking up any other name raises \<open>AttributeError\<close>.\<close>

definition rag_client_attributes :: "string list" where
  "rag_client_attributes =
     [''client'', ''index_documents'', ''update_documents'', ''delete_documents'', ''list_documents'',
      ''list_indexes'', ''persist_index'', ''load_index'', ''delete_index'']"

definition rag_client_attribute :: "string \<Rightarrow> exn + unit" where
  "rag_client_attribute a =
     (if a \<in> set rag_client_attributes then Inr ()
      else Inl (AttributeError (py_repr ''KAITORAGClient'' @ '' object has no attribute '' @ py_repr a)))"

subsection \<open>Languages of code files\<close>

definition valid_languages :: "string list" where
  "valid_languages =
     [''bash'', ''c'', ''c_sharp'', ''commonlisp'', ''cpp'', ''css'', ''dockerfile'', ''dot'', ''elisp'',
      ''elixir'', ''elm'', ''embedded_template'', ''erlang'', ''fixed_form_fortran'', ''fortran'', ''go'',
      ''gomod'', ''hack'', ''haskell'', ''hcl'', ''html'', ''java'', ''javascript'', ''jsdoc'', ''json'',
      ''julia'', ''kotlin'', ''lua'', ''make'', ''markdown'', ''objc'', ''ocaml'', ''perl'', ''php'',
      ''python'', ''ql'', ''r'', ''regex'', ''rst'', ''ruby'', ''rust'', ''scala'', ''sql'', ''sqlite'',
      ''toml'', ''tsq'', ''typescript'', ''yaml'']"

definition file_extension_to_language_map :: "(string \<times> string) list" where
  "file_extension_to_language_map =
     [(''.sh'', ''bash''), (''.bash'', ''bash''), (''.c'', ''c''), (''.cs'', ''c_sharp''),
      (''.lisp'', ''commonlisp''), (''.lsp'', ''commonlisp''), (''.cpp'', ''cpp''), (''.cc'', ''cpp''),
      (''.cxx'', ''cpp''), (''.hpp'', ''cpp''), (''.h'', ''c''), (''.css'', ''css''),
      (''.dockerfile'', ''dockerfile''), (''Dockerfile'', ''dockerfile''), (''.dot'', ''dot''),
      (''.el'', ''elisp''), (''.ex'', ''elixir''), (''.exs'', ''elixir''), (''.elm'', ''elm''),
      (''.ejs'', ''embedded_template''), (''.erl'', ''erlang''), (''.hrl'', ''erlang''),
      (''.f'', ''fixed_form_fortran''), (''.for'', ''fixed_form_fortran''), (''.f90'', ''fortran''),
      (''.f95'', ''fortran''), (''.go'', ''go''), (''.mod'', ''gomod''), (''go.mod'', ''gomod''),
      (''.hack'', ''hack''), (''.hs'', ''haskell''), (''.hcl'', ''hcl''), (''.tf'', ''hcl''),
      (''.html'', ''html''), (''.htm'', ''html''), (''.java'', ''java''), (''.js'', ''javascript''),
      (''.jsx'', ''javascript''), (''.jsdoc'', ''jsdoc''), (''.json'', ''json''), (''.jl'', ''julia''),
      (''.kt'', ''kotlin''), (''.kts'', ''kotlin''), (''.lua'', ''lua''), (''.mk'', ''make''),
      (''Makefile'', ''make''), (''.md'', ''markdown''), (''.m'', ''objc''), (''.mm'', ''objc''),
      (''.ml'', ''ocaml''), (''.mli'', ''ocaml''), (''.pl'', ''perl''), (''.pm'', ''perl''),
      (''.php'', ''php''), (''.py'', ''python''), (''.ql'', ''ql''), (''.r'', ''r''),
      (''.regex'', ''regex''), (''.rst'', ''rst''), (''.rb'', ''ruby''), (''.rs'', ''rust''),
      (''.scala'', ''scala''), (''.sc'', ''scala''), (''.sql'', ''sql''), (''.sqlite'', ''sqlite''),
      (''.db'', ''sqlite''), (''.toml'', ''toml''), (''.tsq'', ''tsq''), (''.ts'', ''typescript''),
      (''.tsx'', ''typescript''), (''.yaml'', ''yaml''), (''.yml'', ''yaml'')]"

definition get_file_extension_language :: "string \<Rightarrow> string" where
  "get_file_extension_language ext =
     (let file_extension = (if prefix ''.'' ext then ext else ''.'' @ ext)
      in case map_of file_extension_to_language_map file_extension of None \<Rightarrow> '''' | Some l \<Rightarrow> l)"

text \<open>\<open>create_rag_document\<close>: the metadata is left out when it is missing or empty.\<close>

definition create_rag_document :: "string \<Rightarrow> (string \<times> json) list option \<Rightarrow> json" where
  "create_rag_document txt metadata =
     JDict ([(''text'', JStr txt)] @
       (case metadata of None \<Rightarrow> [] | Some m \<Rightarrow> if m = [] then [] else [(''metadata'', JDict m)]))"

subsection \<open>Facts\<close>

lemma rag_client_emits [emits_intros]:
  "P (RagIndex (rc_base_url c) i ds) \<Longrightarrow> emits P (index_documents E c i ds)"
  "P (RagUpdate (rc_base_url c) i ds) \<Longrightarrow> emits P (update_documents E c i ds)"
  "P (RagList (rc_base_url c) i (json_dumps f) l k) \<Longrightarrow> emits P (list_documents E c i f l k)"
  by (simp_all add: index_documents_def update_documents_def list_documents_def emits_call)

lemma rag_client_keeps_self [frame_intros]:
  "keeps p (index_documents E c i ds)"
  "keeps p (update_documents E c i ds)"
  "keeps p (list_documents E c i f l k)"
  by (simp_all add: index_documents_def update_documents_def list_documents_def frame_intros)

lemma rag_client_attribute_cases:
  "rag_client_attribute a = Inr () \<longleftrightarrow> a \<in> set rag_client_attributes"
  by (simp add: rag_client_attribute_def)

text \<open>The keys of the language map are distinct and map to valid languages.\<close>

lemma language_map_distinct: "distinct (map fst file_extension_to_language_map)"
  by code_simp

lemma language_map_valid:
  "list_all (\<lambda>(k, l). l \<in> set valid_languages \<and> l \<noteq> '''') file_extension_to_language_map"
  by code_simp

lemma language_valid:
  "get_file_extension_language ext \<noteq> '''' \<Longrightarrow> get_file_extension_language ext \<in> set valid_languages"
proof -
  assume nonempty: "get_file_extension_language ext \<noteq> ''''"
  obtain k where k: "get_file_extension_language ext =
      (case map_of file_extension_to_language_map k of None \<Rightarrow> '''' | Some l \<Rightarrow> l)"
    by (auto simp: get_file_extension_language_def Let_def)
  with nonempty obtain l where l: "map_of file_extension_to_language_map k = Some l"
    "get_file_extension_language ext = l" by (auto split: option.splits)
  from l(1) have "(k, l) \<in> set file_extension_to_language_map" by (rule map_of_SomeD)
  with language_map_valid l(2) show ?thesis by (auto simp: list_all_iff)
qed

subsection \<open>Properties\<close>

lemma path_ext_undotted: "CHR ''.'' \<notin> set (basename p) \<Longrightarrow> path_ext p = []"
  by (simp add: path_ext_def Let_def)

text \<open>The language of a file. The answer is empty or one of the languages the RAG engine
  accepts, it does not matter whether the leading dot is given, and a file whose name has no
  dot never has a language: the entries \<open>Makefile\<close> and \<open>Dockerfile\<close> of the table are not
  reached from an extension.\<close>

theorem language_of_file:
  "(get_file_extension_language ext \<noteq> '''' \<longrightarrow> get_file_extension_language ext \<in> set valid_languages) \<and>
   (\<not> prefix ''.'' ext \<longrightarrow> get_file_extension_language ext = get_file_extension_language (''.'' @ ext)) \<and>
   (CHR ''.'' \<notin> set (basename p) \<longrightarrow> get_file_extension_language (snd (splitext p)) = '''')"
proof -
  have "get_file_extension_language [] = []" by code_simp
  then have "CHR ''.'' \<notin> set (basename p) \<longrightarrow> get_file_extension_language (snd (splitext p)) = ''''"
    using path_ext_undotted by (simp add: splitext_def)
  moreover have "\<not> prefix ''.'' ext \<longrightarrow> get_file_extension_language ext = get_file_extension_language (''.'' @ ext)"
    by (simp add: get_file_extension_language_def)
  ultimately show ?thesis using language_valid by blast
qed

theorem language_of_file_witness:
  "get_file_extension_language (snd (splitext ''src/Makefile'')) = '''' \<and>
   get_file_extension_language ''py'' = ''python''"
proof -
  have undotted: "CHR ''.'' \<notin> set (basename ''src/Makefile'')" by code_simp
  have py: "\<not> prefix ''.'' ''py''" "get_file_extension_language (''.'' @ ''py'') = ''python''" by code_simp+
  from language_of_file [of "''py''" "''src/Makefile''"] undotted py show ?thesis by simp
qed

end
