(* ===== verification/HandlerBase.thy ===== *)
theory HandlerBase
  imports K8sClient RagClient
begin

section \<open>The base class of the data source handlers\<close>

text \<open>
  \<open>jobs/autoindexer/data_source_handler/handler.py\<close>: \<open>_create_base_autoindexer_status_update\<close>,
  the status every handler writes after indexing. It replaces the conditions with a loop of its
  own, which is a second provider of the contract \<open>condition_store\<close>.
\<close>

subsection \<open>Definitions\<close>

text \<open>\<open>list_docs_resp.total_items\<close>; a listing may be \<open>None\<close>.\<close>

definition total_items :: "doc_listing option \<Rightarrow> exn + int" where
  "total_items resp =
     (case resp of None \<Rightarrow> Inl (no_attribute JNull ''total_items'') | Some r \<Rightarrow> Inr (ld_total_items r))"

definition count_documents :: "env \<Rightarrow> rag_client \<Rightarrow> json \<Rightarrow> json \<Rightarrow> ('s, int) py" where
  "count_documents E rag index_name autoindexer_name =
     py_try
       (py_bind (list_documents E rag index_name (JDict [(''autoindexer'', autoindexer_name)]) 1 0)
          (\<lambda>resp. py_lift (total_items resp)))
       (\<lambda>e. py_return 0)"

text \<open>One pass of the inner loop: the first condition of the type is replaced, and \<open>found\<close> set.\<close>

fun replace_found :: "string \<Rightarrow> json \<Rightarrow> json list \<Rightarrow> exn + (bool \<times> json list)" where
  "replace_found condition_type condition_data [] = Inr (False, [])"
| "replace_found condition_type condition_data (existing # rest) =
     sum_bind (py_get existing ''type'' JNull) (\<lambda>t.
       if t = JStr condition_type then Inr (True, condition_data # rest)
       else sum_bind (replace_found condition_type condition_data rest) (\<lambda>(found, rest').
            Inr (found, existing # rest')))"

definition replace_condition :: "string \<Rightarrow> json \<Rightarrow> json list \<Rightarrow> exn + json list" where
  "replace_condition condition_type condition_data conditions =
     sum_bind (replace_found condition_type condition_data conditions) (\<lambda>(found, conditions').
       Inr (if found then conditions' else conditions' @ [condition_data]))"

text \<open>Storing several conditions one after the other, for any way of storing one.\<close>

fun store_all ::
  "(string \<Rightarrow> json \<Rightarrow> json list \<Rightarrow> exn + json list) \<Rightarrow> (string \<times> json) list \<Rightarrow> json list \<Rightarrow> exn + json list" where
  "store_all store [] cs = Inr cs"
| "store_all store ((ty, c) # new) cs = sum_bind (store ty c cs) (store_all store new)"

definition new_conditions :: "env \<Rightarrow> string list \<Rightarrow> json \<Rightarrow> ('s, (string \<times> json) list) py" where
  "new_conditions E errors generation =
     py_bind (create_condition E ''AutoIndexerSucceeded'' ''True'' ''IndexingCompleted''
       ''Indexing completed successfully'' JNull generation) (\<lambda>succeeded.
     py_bind
       (if errors \<noteq> [] then create_condition E ''AutoIndexerError'' ''True'' ''IndexingErrors''
          (''Indexing completed with errors: '' @ py_repr_list errors) JNull generation
        else create_condition E ''AutoIndexerError'' ''False'' ''IndexingCompleted''
          ''No errors during indexing'' JNull generation) (\<lambda>error.
     py_bind (create_condition E ''AutoIndexerFailed'' ''False'' ''IndexingCompleted''
       ''Indexing completed successfully'' JNull generation) (\<lambda>failed.
     py_bind (create_condition E ''AutoIndexerIndexing'' ''False'' ''IndexingCompleted''
       ''Document indexing process completed successfully'' JNull generation) (\<lambda>indexing.
     py_return [(''AutoIndexerSucceeded'', succeeded), (''AutoIndexerError'', error),
       (''AutoIndexerFailed'', failed), (''AutoIndexerIndexing'', indexing)]))))"

definition create_base_autoindexer_status_update ::
  "env \<Rightarrow> json \<Rightarrow> json \<Rightarrow> rag_client \<Rightarrow> k8s_client \<Rightarrow> string list \<Rightarrow> int \<Rightarrow> ('s, (string \<times> json) list) py" where
  "create_base_autoindexer_status_update E index_name autoindexer_name rag k8s errors duration_seconds =
     py_bind (get_autoindexer E k8s) (\<lambda>current_ai.
     py_bind (py_lift (py_item current_ai ''status'')) (\<lambda>current_status.
     py_bind (py_lift (generation_of current_ai)) (\<lambda>current_generation.
     py_bind (now_iso E) (\<lambda>timestamp.
     py_bind (py_lift (py_get current_status ''conditions'' (JList []))) (\<lambda>current_conditions.
     py_bind (count_documents E rag index_name autoindexer_name) (\<lambda>num.
     py_bind (new_conditions E errors current_generation) (\<lambda>new.
     py_bind (py_lift (sum_bind (need_list current_conditions) (store_all replace_condition new))) (\<lambda>conditions.
     py_return
       [(''lastIndexingTimestamp'', JStr timestamp),
        (''lastIndexingDurationSeconds'', JInt duration_seconds),
        (''numOfDocumentInIndex'', JInt num),
        (''conditions'', JList conditions)]))))))))"

text \<open>\<open>any(condition.get("type") == "AutoIndexerError" and condition.get("status") == "True" ...)\<close> in
  the handlers that resume from the status of the last run: it stops at the first match.\<close>

fun any_indexing_error :: "json list \<Rightarrow> exn + bool" where
  "any_indexing_error [] = Inr False"
| "any_indexing_error (condition # conditions) =
     sum_bind (py_get condition ''type'' JNull) (\<lambda>ty.
       if ty \<noteq> JStr ''AutoIndexerError'' then any_indexing_error conditions
       else sum_bind (py_get condition ''status'' JNull) (\<lambda>st.
         if st = JStr ''True'' then Inr True else any_indexing_error conditions))"

definition last_indexing_had_errors :: "json \<Rightarrow> exn + bool" where
  "last_indexing_had_errors conditions = sum_bind (py_iter conditions) any_indexing_error"

subsection \<open>The loop as a store of conditions\<close>

lemma replace_found_set_condition:
  "sum_bind (replace_found ty c cs) (\<lambda>(found, cs'). Inr (if found then cs' else cs' @ [c])) = set_condition ty c cs"
proof (induction cs)
  case Nil
  show ?case by (simp add: set_condition_def put_condition_def)
next
  case (Cons x xs)
  show ?case
  proof (cases "py_get x ''type'' JNull")
    case (Inl e)
    then show ?thesis by (simp add: set_condition_def)
  next
    case (Inr t)
    show ?thesis
    proof (cases "t = JStr ty")
      case True
      with Inr show ?thesis by (simp add: set_condition_def put_condition_def)
    next
      case False
      with Inr Cons.IH show ?thesis
        by (cases "replace_found ty c xs"; cases "find_condition ty xs")
          (auto simp: set_condition_def put_condition_def split: option.splits if_splits)
    qed
  qed
qed

lemma replace_condition_eq: "replace_condition = set_condition"
  unfolding fun_eq_iff replace_condition_def using replace_found_set_condition by blast

interpretation handler_conditions: condition_store replace_condition
  unfolding replace_condition_eq by (rule k8s_conditions.condition_store_axioms)

context condition_store
begin

lemma store_all_ok:
  assumes "list_all is_dict cs" and "list_all (\<lambda>(ty, c). has_type ty c) new" and "distinct (map fst new)"
  shows "\<exists>cs'. store_all store new cs = Inr cs' \<and> list_all is_dict cs' \<and>
    (\<forall>ty. lookup_condition ty cs' = (case map_of new ty of None \<Rightarrow> lookup_condition ty cs | Some c \<Rightarrow> Some c)) \<and>
    (distinct (types_of cs) \<longrightarrow> distinct (types_of cs'))"
  using assms
proof (induction new arbitrary: cs)
  case Nil
  then show ?case by simp
next
  case (Cons p new)
  obtain ty c where p: "p = (ty, c)" by (cases p)
  from Cons.prems p have h: "has_type ty c" by simp
  obtain cs1 where cs1: "store ty c cs = Inr cs1" using store_ok [OF Cons.prems(1) h] by blast
  note dicts = store_dicts [OF cs1 h Cons.prems(1)]
  obtain cs' where cs': "store_all store new cs1 = Inr cs'" "list_all is_dict cs'"
    "\<forall>ty. lookup_condition ty cs' = (case map_of new ty of None \<Rightarrow> lookup_condition ty cs1 | Some c \<Rightarrow> Some c)"
    "distinct (types_of cs1) \<longrightarrow> distinct (types_of cs')"
    using Cons.IH [OF dicts] Cons.prems by (auto simp: p)
  have "map_of new ty = None" using Cons.prems(3) p by (simp add: map_of_eq_None_iff)
  then have "lookup_condition ty' cs' =
      (case map_of (p # new) ty' of None \<Rightarrow> lookup_condition ty' cs | Some c \<Rightarrow> Some c)" for ty'
    using cs'(3) store_lookup [OF cs1 h] p by (auto split: option.splits)
  moreover have "distinct (types_of cs) \<longrightarrow> distinct (types_of cs')"
    using store_unique [OF cs1 h] cs'(4) by simp
  ultimately show ?case using cs'(1,2) cs1 p by auto
qed

end

subsection \<open>The error condition of the last run\<close>

lemma any_indexing_error_iff:
  "list_all is_dict cs \<Longrightarrow> any_indexing_error cs =
    Inr (\<exists>c\<in>set cs. has_type ''AutoIndexerError'' c \<and> jget c ''status'' = Some (JStr ''True''))"
proof (induction cs)
  case Nil
  then show ?case by simp
next
  case (Cons c cs)
  then have d: "is_dict c" "py_get c ''type'' JNull = Inr (case jget c ''type'' of None \<Rightarrow> JNull | Some v \<Rightarrow> v)"
    "py_get c ''status'' JNull = Inr (case jget c ''status'' of None \<Rightarrow> JNull | Some v \<Rightarrow> v)" by simp_all
  have ty: "has_type ''AutoIndexerError'' c \<longleftrightarrow> (case jget c ''type'' of None \<Rightarrow> JNull | Some v \<Rightarrow> v) = JStr ''AutoIndexerError''"
    by (simp add: has_type_def split: option.split)
  have st: "jget c ''status'' = Some (JStr ''True'') \<longleftrightarrow> (case jget c ''status'' of None \<Rightarrow> JNull | Some v \<Rightarrow> v) = JStr ''True''"
    by (simp split: option.split)
  show ?case
    unfolding any_indexing_error.simps d(2,3) sum_bind_simps set_simps bex_simps ty st
    using Cons by simp
qed

text \<open>When no type occurs twice, the search agrees with the lookup of the condition.\<close>

lemma types_of_has: "c \<in> set cs \<Longrightarrow> has_type ty c \<Longrightarrow> ty \<in> set (types_of cs)"
  by (induction cs) (auto simp: types_of_Cons has_type_def split: option.split json.split)

lemma lookup_condition_iff:
  "distinct (types_of cs) \<Longrightarrow>
    (\<exists>c\<in>set cs. has_type ty c \<and> P c) \<longleftrightarrow> (\<exists>c. lookup_condition ty cs = Some c \<and> P c)"
proof (induction cs)
  case Nil
  then show ?case by (simp add: lookup_condition_def)
next
  case (Cons x xs)
  show ?case
  proof (cases "has_type ty x")
    case True
    then have "\<not> (\<exists>c\<in>set xs. has_type ty c)"
      using Cons.prems types_of_has [of _ xs ty] by (auto simp: types_of_Cons has_type_def)
    with True show ?thesis by (auto simp: lookup_condition_def)
  next
    case False
    moreover have "distinct (types_of xs)"
      using Cons.prems by (simp add: types_of_Cons split: option.splits json.splits)
    ultimately show ?thesis using Cons.IH by (simp add: lookup_condition_def)
  qed
qed

subsection \<open>Running the status update\<close>

lemma create_condition_now:
  "create_condition E ty st r m JNull g \<sigma> =
    (Inr (condition_json ty st r m (JStr (iso_utc (clock_now E ClockNow (snd \<sigma>)))) g), fst \<sigma>, snd \<sigma> @ [ClockNow])"
  by (simp add: create_condition_def py_bind_def)

definition error_status :: "string list \<Rightarrow> string" where
  "error_status errors = (if errors \<noteq> [] then ''True'' else ''False'')"

text \<open>The types the base class writes and the status each gets.\<close>

definition base_statuses :: "string list \<Rightarrow> (string \<times> string) list" where
  "base_statuses errors =
     [(''AutoIndexerSucceeded'', ''True''), (''AutoIndexerError'', error_status errors),
      (''AutoIndexerFailed'', ''False''), (''AutoIndexerIndexing'', ''False'')]"

lemma new_conditions_run:
  obtains new where "new_conditions E errors g (s, t) = (Inr new, s, t @ replicate 4 ClockNow)"
    and "list_all (\<lambda>(ty, c). has_type ty c) new" and "map fst new = map fst (base_statuses errors)"
    and "\<forall>ty. (case map_of new ty of None \<Rightarrow> None | Some c \<Rightarrow> jget c ''status'') = map_option JStr (map_of (base_statuses errors) ty)"
proof -
  obtain r1 m1 v1 r2 m2 v2 r3 m3 v3 r4 m4 v4 where run: "new_conditions E errors g (s, t) =
      (Inr [(''AutoIndexerSucceeded'', condition_json ''AutoIndexerSucceeded'' ''True'' r1 m1 v1 g),
        (''AutoIndexerError'', condition_json ''AutoIndexerError'' (error_status errors) r2 m2 v2 g),
        (''AutoIndexerFailed'', condition_json ''AutoIndexerFailed'' ''False'' r3 m3 v3 g),
        (''AutoIndexerIndexing'', condition_json ''AutoIndexerIndexing'' ''False'' r4 m4 v4 g)],
       s, t @ replicate 4 ClockNow)"
    by (cases "errors = []")
      (simp_all add: new_conditions_def py_bind_def create_condition_now numeral_eq_Suc error_status_def)
  show ?thesis
    by (rule that [OF run]) (simp_all add: base_statuses_def)
qed

lemma count_documents_run:
  obtains n where "count_documents E rag i a (s, t) = (Inr n, s, t @ [RagList (rc_base_url rag) i (json_dumps (JDict [(''autoindexer'', a)])) 1 0])"
    and "\<And>l. rag_list E (RagList (rc_base_url rag) i (json_dumps (JDict [(''autoindexer'', a)])) 1 0) t = Inr (Some l) \<Longrightarrow> n = ld_total_items l"
    and "\<And>e. rag_list E (RagList (rc_base_url rag) i (json_dumps (JDict [(''autoindexer'', a)])) 1 0) t = Inl e \<Longrightarrow> n = 0"
proof -
  let ?c = "RagList (rc_base_url rag) i (json_dumps (JDict [(''autoindexer'', a)])) 1 0"
  let ?n = "case rag_list E ?c t of Inr (Some l) \<Rightarrow> ld_total_items l | _ \<Rightarrow> 0"
  have "count_documents E rag i a (s, t) = (Inr ?n, s, t @ [?c])"
    by (simp add: count_documents_def list_documents_def py_try_def py_bind_def total_items_def split: sum.split option.split)
  then show ?thesis by (rule that) simp_all
qed

text \<open>Reading the base status of a well-formed resource that has a status. The calls made are
  clock readings, one read of the resource and one listing.\<close>

abbreviation quiet :: "call \<Rightarrow> bool" where
  "quiet c \<equiv> \<not> is_k8s_write c \<and> \<not> is_rag_write c"

lemma base_status_run:
  assumes name: "kc_name k8s \<noteq> ''''" and get: "k8s_get E (K8sGet (object_path k8s)) t = Inr crd"
    and wf: "wf_resource crd" and st: "jget crd ''status'' \<noteq> None"
  obtains ts n cs u where
    "create_base_autoindexer_status_update E i a rag k8s errors d (s, t) =
      (Inr [(''lastIndexingTimestamp'', JStr ts), (''lastIndexingDurationSeconds'', JInt d),
            (''numOfDocumentInIndex'', JInt n), (''conditions'', JList cs)], s, t @ u)"
    and "list_all quiet u"
    and "list_all is_dict cs"
    and "\<forall>ty. case map_of (base_statuses errors) ty of
        None \<Rightarrow> lookup_condition ty cs = lookup_condition ty (resource_conditions crd)
      | Some v \<Rightarrow> \<exists>c. lookup_condition ty cs = Some c \<and> jget c ''status'' = Some (JStr v)"
    and "distinct (types_of (resource_conditions crd)) \<longrightarrow> distinct (types_of cs)"
proof -
  let ?cs = "resource_conditions crd"
  from wf st obtain status where status: "jget crd ''status'' = Some status" "is_dict crd" "is_dict status"
    "list_all is_dict ?cs" "py_get status ''conditions'' (JList []) = Inr (JList ?cs)"
    by (auto simp: wf_resource_def wf_status_def resource_status_def status_conditions_def
      split: option.splits json.splits)
  from wf have "case jget crd ''metadata'' of None \<Rightarrow> True | Some m \<Rightarrow> is_dict m"
    by (simp add: wf_resource_def)
  then obtain g where g: "generation_of crd = Inr g" using generation_of_wf [OF status(2)] by blast
  let ?t1 = "t @ [K8sGet (object_path k8s), ClockNow]"
  let ?l = "RagList (rc_base_url rag) i (json_dumps (JDict [(''autoindexer'', a)])) 1 0"
  obtain n where n: "count_documents E rag i a (s, ?t1) = (Inr n, s, ?t1 @ [?l])"
    by (rule count_documents_run)
  obtain new where new: "new_conditions E errors g (s, ?t1 @ [?l]) = (Inr new, s, (?t1 @ [?l]) @ replicate 4 ClockNow)"
    "list_all (\<lambda>(ty, c). has_type ty c) new" "map fst new = map fst (base_statuses errors)"
    "\<forall>ty. (case map_of new ty of None \<Rightarrow> None | Some c \<Rightarrow> jget c ''status'') = map_option JStr (map_of (base_statuses errors) ty)"
    by (rule new_conditions_run)
  have "distinct (map fst new)" unfolding new(3) by (simp add: base_statuses_def)
  from handler_conditions.store_all_ok [OF status(4) new(2) this] obtain cs where
    cs: "store_all replace_condition new ?cs = Inr cs" "list_all is_dict cs"
    "\<forall>ty. lookup_condition ty cs = (case map_of new ty of None \<Rightarrow> lookup_condition ty ?cs | Some c \<Rightarrow> Some c)"
    "distinct (types_of ?cs) \<longrightarrow> distinct (types_of cs)" by blast
  have look: "case map_of (base_statuses errors) ty of
        None \<Rightarrow> lookup_condition ty cs = lookup_condition ty ?cs
      | Some v \<Rightarrow> \<exists>c. lookup_condition ty cs = Some c \<and> jget c ''status'' = Some (JStr v)" for ty
  proof (cases "map_of new ty")
    case None
    then have "map_of (base_statuses errors) ty = None"
      using new(3) by (metis map_of_eq_None_iff list.set_map)
    with None cs(3) show ?thesis by simp
  next
    case (Some c)
    with new(4) [rule_format, of ty] have "jget c ''status'' = map_option JStr (map_of (base_statuses errors) ty)" by simp
    moreover have "map_of (base_statuses errors) ty \<noteq> None"
      using new(3) Some by (metis map_of_eq_None_iff list.set_map option.distinct(1))
    ultimately show ?thesis using Some cs(3) by auto
  qed
  let ?u = "[K8sGet (object_path k8s), ClockNow, ?l] @ replicate 4 ClockNow"
  have "create_base_autoindexer_status_update E i a rag k8s errors d (s, t) =
      (Inr [(''lastIndexingTimestamp'', JStr (iso_utc (clock_now E ClockNow (t @ [K8sGet (object_path k8s)])))),
            (''lastIndexingDurationSeconds'', JInt d),
            (''numOfDocumentInIndex'', JInt n), (''conditions'', JList cs)], s, t @ ?u)"
    using name get status g n new(1) cs(1)
    by (simp add: create_base_autoindexer_status_update_def py_bind_def get_autoindexer_Inr)
  moreover have "list_all quiet ?u" by (simp add: list_all_iff)
  ultimately show ?thesis using cs(2) allI [OF look] cs(4) by (rule that)
qed

subsection \<open>Writing the status\<close>

text \<open>What the handlers do with the base status: they add fields of their own, write it, and only
  log when that fails.\<close>

definition write_base_status ::
  "env \<Rightarrow> json \<Rightarrow> json \<Rightarrow> rag_client \<Rightarrow> k8s_client \<Rightarrow> string list \<Rightarrow> int \<Rightarrow> (string \<times> json) list \<Rightarrow> ('s, unit) py" where
  "write_base_status E index_name autoindexer_name rag k8s errors duration_seconds extra =
     py_bind (create_base_autoindexer_status_update E index_name autoindexer_name rag k8s errors duration_seconds)
       (\<lambda>status_update. py_bind (update_autoindexer_status E k8s (dict_update status_update extra)) (\<lambda>ok. py_return ()))"

lemma create_base_emits:
  assumes "\<And>p. P (K8sGet p)" "P ClockNow" "\<And>u i f l k. P (RagList u i f l k)"
  shows "emits P (create_base_autoindexer_status_update E i a rag k8s errors d)"
  unfolding create_base_autoindexer_status_update_def count_documents_def new_conditions_def list_documents_def
  by (intro emits_intros get_autoindexer_emits assms)

lemma write_base_status_emits:
  assumes "\<And>p. P (K8sGet p)" "P ClockNow" "\<And>u i f l k. P (RagList u i f l k)" "\<And>p b. P (K8sPatchStatus p b)"
  shows "emits P (write_base_status E i a rag k8s errors d extra)"
  unfolding write_base_status_def
  by (intro emits_intros create_base_emits update_autoindexer_status_emits assms)

lemma base_keeps [frame_intros]: "keeps p (write_base_status E i a rag k8s errors d extra)"
  unfolding write_base_status_def create_base_autoindexer_status_update_def count_documents_def new_conditions_def
    create_condition_def
  by (intro frame_intros)

text \<open>The effect of a status written while nobody else changes the resource.\<close>

definition resource_stays :: "env \<Rightarrow> k8s_client \<Rightarrow> trace \<Rightarrow> json \<Rightarrow> bool" where
  "resource_stays E k8s t crd \<longleftrightarrow>
     (\<forall>u. list_all (\<lambda>c. \<not> is_k8s_write c) u \<longrightarrow> k8s_get E (K8sGet (object_path k8s)) (t @ u) = Inr crd)"

lemma resource_staysD: "resource_stays E k8s t crd \<Longrightarrow> k8s_get E (K8sGet (object_path k8s)) t = Inr crd"
  unfolding resource_stays_def by (metis append_Nil2 list.pred_inject(1))

lemma resource_stays_append:
  "resource_stays E k8s t crd \<Longrightarrow> list_all (\<lambda>c. \<not> is_k8s_write c) u \<Longrightarrow> resource_stays E k8s (t @ u) crd"
  unfolding resource_stays_def by simp

definition base_fields :: "string set" where
  "base_fields = {''lastIndexingTimestamp'', ''lastIndexingDurationSeconds'', ''numOfDocumentInIndex'', ''conditions''}"

lemma distinct_dict_update: "distinct (map fst d) \<Longrightarrow> distinct (map fst (dict_update d kvs))"
  by (induction d kvs rule: dict_update.induct) (simp_all add: distinct_update)

lemma write_base_status_sends:
  assumes "kc_name k8s \<noteq> ''''" and "resource_stays E k8s t crd"
    and "wf_resource crd" and "jget crd ''status'' \<noteq> None"
    and "distinct (map fst extra)" and "fst ` set extra \<inter> base_fields = {}"
  shows "\<exists>body. patched (new_calls (write_base_status E i a rag k8s errors d extra) (s, t)) = [body] \<and>
    (\<forall>ty. case map_of (base_statuses errors) ty of
        None \<Rightarrow> lookup_condition ty (resource_conditions body) = lookup_condition ty (resource_conditions crd)
      | Some v \<Rightarrow> \<exists>c. lookup_condition ty (resource_conditions body) = Some c \<and> jget c ''status'' = Some (JStr v)) \<and>
    (distinct (types_of (resource_conditions crd)) \<longrightarrow> distinct (types_of (resource_conditions body))) \<and>
    jget (resource_status body) ''lastIndexingDurationSeconds'' = Some (JInt d) \<and>
    (\<forall>k. k \<notin> base_fields \<longrightarrow> jget (resource_status body) k =
      (case map_of extra k of None \<Rightarrow> jget (resource_status crd) k | Some v \<Rightarrow> Some v)) \<and>
    (\<forall>k. k \<noteq> ''status'' \<longrightarrow> jget body k = jget crd k) \<and>
    sends_patch k8s body (new_calls (write_base_status E i a rag k8s errors d extra) (s, t)) \<and>
    wf_resource body \<and> jget body ''status'' \<noteq> None"
proof -
  obtain ts n cs u where run: "create_base_autoindexer_status_update E i a rag k8s errors d (s, t) =
      (Inr [(''lastIndexingTimestamp'', JStr ts), (''lastIndexingDurationSeconds'', JInt d),
            (''numOfDocumentInIndex'', JInt n), (''conditions'', JList cs)], s, t @ u)"
    and u: "list_all quiet u" and dicts: "list_all is_dict cs"
    and look: "\<forall>ty. case map_of (base_statuses errors) ty of
        None \<Rightarrow> lookup_condition ty cs = lookup_condition ty (resource_conditions crd)
      | Some v \<Rightarrow> \<exists>c. lookup_condition ty cs = Some c \<and> jget c ''status'' = Some (JStr v)"
    and uniq: "distinct (types_of (resource_conditions crd)) \<longrightarrow> distinct (types_of cs)"
    by (rule base_status_run [OF assms(1) resource_staysD [OF assms(2)] assms(3,4), of i a rag errors d s])
  let ?upd = "[(''lastIndexingTimestamp'', JStr ts), (''lastIndexingDurationSeconds'', JInt d),
            (''numOfDocumentInIndex'', JInt n), (''conditions'', JList cs)]"
  have nw: "list_all (\<lambda>c. \<not> is_k8s_write c) u" using u by (simp add: list_all_iff)
  have upd: "distinct (map fst (dict_update ?upd extra))" by (rule distinct_dict_update) simp
  obtain body st' where upd_run: "update_autoindexer_status E k8s (dict_update ?upd extra) (s, t @ u) =
        py_try (py_seq (patch_status E k8s body) (py_return True)) api_false (s, (t @ u) @ [K8sGet (object_path k8s)])"
    and std: "is_dict st'" and body: "jget body ''status'' = Some st'" "\<forall>k. k \<noteq> ''status'' \<longrightarrow> jget body k = jget crd k"
      "\<forall>k. jget st' k = (case map_of (dict_update ?upd extra) k of None \<Rightarrow> jget (resource_status crd) k | Some v \<Rightarrow> Some v)"
    using update_autoindexer_status_run [OF assms(1) resource_staysD [OF resource_stays_append [OF assms(2) nw]] assms(3) upd, of s]
    by blast
  obtain r where r: "update_autoindexer_status E k8s (dict_update ?upd extra) (s, t @ u) =
      (r, s, ((t @ u) @ [K8sGet (object_path k8s)]) @ [K8sPatchStatus (object_path k8s) body])"
    using patch_end_run [of E k8s body s "(t @ u) @ [K8sGet (object_path k8s)]"] upd_run by auto
  have calls: "new_calls (write_base_status E i a rag k8s errors d extra) (s, t) =
      (u @ [K8sGet (object_path k8s)]) @ [K8sPatchStatus (object_path k8s) body]"
    by (cases r) (simp_all add: new_calls_def write_base_status_def py_bind_def run r)
  then have sends: "sends_patch k8s body (new_calls (write_base_status E i a rag k8s errors d extra) (s, t))"
    unfolding sends_patch_def using nw by fastforce
  note sent = sends_patchD [OF this, THEN conjunct1]
  have rs: "resource_status body = st'" using body(1) by (simp add: resource_status_def)
  have own: "jget st' k = map_of ?upd k" if "k \<in> base_fields" for k
  proof -
    have "map_of extra k = None" using that assms(6) by (force simp: map_of_eq_None_iff)
    with body(3) have "jget st' k = (case map_of ?upd k of None \<Rightarrow> jget (resource_status crd) k | Some v \<Rightarrow> Some v)"
      by (simp add: map_of_dict_update [OF assms(5)])
    moreover have "map_of ?upd k \<noteq> None" using that by (auto simp: base_fields_def)
    ultimately show ?thesis by auto
  qed
  have rc: "resource_conditions body = cs" unfolding rs using own by (simp add: status_conditions_def base_fields_def)
  have dur: "jget (resource_status body) ''lastIndexingDurationSeconds'' = Some (JInt d)"
    unfolding rs using own by (simp add: base_fields_def)
  have rest: "\<forall>k. k \<notin> base_fields \<longrightarrow> jget (resource_status body) k =
      (case map_of extra k of None \<Rightarrow> jget (resource_status crd) k | Some v \<Rightarrow> Some v)"
    unfolding rs using body(3) by (auto simp: map_of_dict_update [OF assms(5)] base_fields_def split: option.splits)
  have "jget st' ''conditions'' = Some (JList cs)" using own by (simp add: base_fields_def)
  then have wf: "wf_resource body"
    using dicts by (intro wf_resource_patched [OF assms(3) body(1) std body(2)]) simp
  have status: "jget body ''status'' \<noteq> None" using body(1) by simp
  show ?thesis
    by (rule exI [of _ body])
      (intro conjI sent dur rest body(2) look [folded rc] uniq [folded rc] sends wf status)
qed

text \<open>C8: The status a handler writes after indexing. If nobody else changes the resource, exactly one
  patch is sent. \<open>AutoIndexerError\<close> is \<open>True\<close> exactly when there were errors, \<open>AutoIndexerFailed\<close>
  and \<open>AutoIndexerIndexing\<close> are \<open>False\<close>, \<open>AutoIndexerSucceeded\<close> is \<open>True\<close> (also with errors),
  every other condition stays as it was, no type becomes a duplicate, the extra fields of the handler
  are set, and nothing but those, the three indexing fields and the conditions changes.\<close>

theorem base_status_written:
  assumes "kc_name k8s \<noteq> ''''" and "resource_stays E k8s t crd"
    and "wf_resource crd" and "jget crd ''status'' \<noteq> None"
    and "distinct (map fst extra)" and "fst ` set extra \<inter> base_fields = {}"
  shows "\<exists>body. patched (new_calls (write_base_status E i a rag k8s errors d extra) (s, t)) = [body] \<and>
    (\<forall>ty. case map_of (base_statuses errors) ty of
        None \<Rightarrow> lookup_condition ty (resource_conditions body) = lookup_condition ty (resource_conditions crd)
      | Some v \<Rightarrow> \<exists>c. lookup_condition ty (resource_conditions body) = Some c \<and> jget c ''status'' = Some (JStr v)) \<and>
    (distinct (types_of (resource_conditions crd)) \<longrightarrow> distinct (types_of (resource_conditions body))) \<and>
    jget (resource_status body) ''lastIndexingDurationSeconds'' = Some (JInt d) \<and>
    (\<forall>k. k \<notin> base_fields \<longrightarrow> jget (resource_status body) k =
      (case map_of extra k of None \<Rightarrow> jget (resource_status crd) k | Some v \<Rightarrow> Some v)) \<and>
    (\<forall>k. k \<noteq> ''status'' \<longrightarrow> jget body k = jget crd k)"
proof -
  obtain body where sent: "patched (new_calls (write_base_status E i a rag k8s errors d extra) (s, t)) = [body]"
    and look: "\<forall>ty. case map_of (base_statuses errors) ty of
        None \<Rightarrow> lookup_condition ty (resource_conditions body) = lookup_condition ty (resource_conditions crd)
      | Some v \<Rightarrow> \<exists>c. lookup_condition ty (resource_conditions body) = Some c \<and> jget c ''status'' = Some (JStr v)"
    and rest: "distinct (types_of (resource_conditions crd)) \<longrightarrow> distinct (types_of (resource_conditions body))"
      "jget (resource_status body) ''lastIndexingDurationSeconds'' = Some (JInt d)"
      "\<forall>k. k \<notin> base_fields \<longrightarrow> jget (resource_status body) k =
        (case map_of extra k of None \<Rightarrow> jget (resource_status crd) k | Some v \<Rightarrow> Some v)"
      "\<forall>k. k \<noteq> ''status'' \<longrightarrow> jget body k = jget crd k"
    using write_base_status_sends [OF assms, of i a rag errors d s] by (elim exE conjE) (rule that)
  show ?thesis by (rule exI [of _ body]) (intro conjI sent look rest)
qed

theorem base_status_written_witness:
  "\<exists>body. patched (new_calls (write_base_status (sample_world sample_resource) (JStr ''documentation-index'')
      (JStr ''default_docs'') (new_rag_client ''http://rag'') sample_client [''x failed''] 9 []) ((), [])) = [body] \<and>
    (\<exists>c. lookup_condition ''AutoIndexerError'' (resource_conditions body) = Some c \<and> jget c ''status'' = Some (JStr ''True''))"
proof -
  have stays: "resource_stays (sample_world sample_resource) sample_client [] sample_resource"
    unfolding resource_stays_def sample_world_def by (simp add: last_patched_patched no_write_no_patch)
  have status: "jget sample_resource ''status'' \<noteq> None" by (simp add: sample_resource_def)
  have error: "map_of (base_statuses [''x failed'']) ''AutoIndexerError'' = Some ''True''" by code_simp
  obtain body where body: "patched (new_calls (write_base_status (sample_world sample_resource) (JStr ''documentation-index'')
      (JStr ''default_docs'') (new_rag_client ''http://rag'') sample_client [''x failed''] 9 []) ((), [])) = [body]"
    and look: "\<forall>ty. case map_of (base_statuses [''x failed'']) ty of
        None \<Rightarrow> lookup_condition ty (resource_conditions body) = lookup_condition ty (resource_conditions sample_resource)
      | Some v \<Rightarrow> \<exists>c. lookup_condition ty (resource_conditions body) = Some c \<and> jget c ''status'' = Some (JStr v)"
    using base_status_written [OF sample_client_name stays sample_resource_wf status, of "[]" "JStr ''documentation-index''" "JStr ''default_docs''" "new_rag_client ''http://rag''" "[''x failed'']" 9 "()"]
    by auto
  note found = look [THEN spec, of "''AutoIndexerError''", unfolded error option.case]
  show ?thesis by (rule exI [of _ body], rule conjI [OF body found])
qed

end
