(* ===== verification/Protocol.thy ===== *)
theory Protocol
  imports HandlerBase
begin

section \<open>The order in which a job writes\<close>

text \<open>
  The abstract specification of the calls of a run, as a state machine. A job announces the
  indexing, indexes, reports what the handler found, states the conclusion, counts the run and
  signals it by an event, in this order; each of the writes to the API server may be missing, and
  the engine is written to only while indexing.
\<close>

named_theorems reads_intros

subsection \<open>Phases\<close>

datatype phase = Announcing | Indexing | Reporting | Concluding | Counting | Signalling | Finished

fun next_phase :: "phase \<Rightarrow> phase" where
  "next_phase Announcing = Indexing"
| "next_phase Indexing = Reporting"
| "next_phase Reporting = Concluding"
| "next_phase Concluding = Counting"
| "next_phase Counting = Signalling"
| "next_phase Signalling = Finished"
| "next_phase Finished = Finished"

text \<open>The calls that leave the phase as it is, and the write that ends it.\<close>

definition allowed :: "phase \<Rightarrow> call \<Rightarrow> bool" where
  "allowed p c \<longleftrightarrow> \<not> is_k8s_write c \<and> (p = Indexing \<or> \<not> is_rag_write c)"

fun ends_phase :: "phase \<Rightarrow> call \<Rightarrow> bool" where
  "ends_phase p (K8sPatchStatus path body) \<longleftrightarrow> p \<in> {Announcing, Reporting, Concluding, Counting}"
| "ends_phase p (K8sCreateEvent ns ev) \<longleftrightarrow> p = Signalling"
| "ends_phase p c \<longleftrightarrow> False"

inductive phases :: "phase \<Rightarrow> trace \<Rightarrow> phase \<Rightarrow> bool" where
  stay: "phases p [] p"
| work: "allowed p c \<Longrightarrow> phases p u q \<Longrightarrow> phases p (c # u) q"
| finish: "ends_phase p c \<Longrightarrow> phases (next_phase p) u q \<Longrightarrow> phases p (c # u) q"
| skip: "phases (next_phase p) u q \<Longrightarrow> phases p u q"

inductive_cases phases_ConsE: "phases p (c # u) q"

lemma phases_append: "phases p u q \<Longrightarrow> phases q v r \<Longrightarrow> phases p (u @ v) r"
  by (induction rule: phases.induct) (auto intro: phases.intros)

lemma phases_allowed: "list_all (allowed p) u \<Longrightarrow> phases p u p"
  by (induction u) (auto intro: phases.intros)

lemma phases_next: "phases p [] (next_phase p)"
  by (rule skip, rule stay)

subsection \<open>What the phases allow\<close>

text \<open>The patches that may still come.\<close>

fun patches_left :: "phase \<Rightarrow> nat" where
  "patches_left Announcing = 4"
| "patches_left Indexing = 3"
| "patches_left Reporting = 3"
| "patches_left Concluding = 2"
| "patches_left Counting = 1"
| "patches_left p = 0"

lemma patches_left_next: "patches_left (next_phase p) \<le> patches_left p"
  by (cases p) simp_all

lemma patched_Cons: "\<not> is_k8s_write c \<Longrightarrow> patched (c # u) = patched u \<and> created_events (c # u) = created_events u"
  by (cases c) simp_all

lemma phases_patches: "phases p u q \<Longrightarrow> length (patched u) \<le> patches_left p"
proof (induction rule: phases.induct)
  case (work p c u q)
  then show ?case by (simp add: allowed_def patched_Cons)
next
  case (finish p c u q)
  then show ?case by (cases c; cases p) auto
next
  case (skip p u q)
  then show ?case using patches_left_next [of p] by linarith
qed simp

lemma phases_events:
  "phases p u q \<Longrightarrow> length (created_events u) \<le> (if p = Finished then 0 else 1)"
proof (induction rule: phases.induct)
  case (work p c u q)
  then show ?case by (simp add: allowed_def patched_Cons)
next
  case (finish p c u q)
  then show ?case by (cases c; cases p) auto
next
  case (skip p u q)
  then show ?case by (cases p) auto
qed simp

text \<open>A write to the engine comes before every write to the API server but the first patch, and
  nothing is written after an event.\<close>

lemma phases_engine:
  "phases p u q \<Longrightarrow> p \<notin> {Announcing, Indexing} \<Longrightarrow> list_all (\<lambda>c. \<not> is_rag_write c) u"
proof (induction rule: phases.induct)
  case (work p c u q)
  then show ?case by (auto simp: allowed_def)
next
  case (finish p c u q)
  then show ?case by (cases c; cases p) auto
next
  case (skip p u q)
  then show ?case by (cases p) auto
qed simp

lemma phases_before_engine:
  "phases p u q \<Longrightarrow> u = v @ c # w \<Longrightarrow> is_rag_write c \<Longrightarrow>
    created_events v = [] \<and> length (patched v) \<le> (if p = Announcing then 1 else 0)"
proof (induction arbitrary: v rule: phases.induct)
  case (stay p)
  then show ?case by simp
next
  case (work p d u q)
  then show ?case by (cases v) (auto simp: allowed_def patched_Cons)
next
  case (finish p d u q)
  show ?case
  proof (cases v)
    case Nil
    with finish show ?thesis by (cases d) auto
  next
    case (Cons d' v')
    with finish have v': "u = v' @ c # w" "d' = d" by simp_all
    show ?thesis
    proof (cases "p = Announcing")
      case True
      with finish v' Cons show ?thesis by (cases d) auto
    next
      case False
      with finish.hyps have "next_phase p \<notin> {Announcing, Indexing}" by (cases d; cases p) auto
      from phases_engine [OF finish.hyps(2) this] v'(1) finish.prems(2) show ?thesis by simp
    qed
  qed
next
  case (skip p u q)
  then show ?case by (cases p) (auto dest: skip.IH)
qed

lemma phases_finished: "phases p u q \<Longrightarrow> p = Finished \<Longrightarrow> list_all quiet u"
proof (induction rule: phases.induct)
  case (finish p c u q)
  then show ?case by (cases c) auto
qed (auto simp: allowed_def)

lemma phases_after_event:
  "phases p u q \<Longrightarrow> u = v @ K8sCreateEvent ns ev # w \<Longrightarrow> list_all quiet w"
proof (induction arbitrary: v rule: phases.induct)
  case (stay p)
  then show ?case by simp
next
  case (work p d u q)
  then show ?case by (cases v) (auto simp: allowed_def)
next
  case (finish p d u q)
  then show ?case by (cases v) (auto dest: phases_finished)
next
  case (skip p u q)
  then show ?case by auto
qed

subsection \<open>Computations that follow the phases\<close>

definition follows :: "phase \<Rightarrow> ('s, 'a) py \<Rightarrow> phase \<Rightarrow> bool" where
  "follows p m q \<longleftrightarrow> (\<forall>\<sigma>. \<exists>u. snd (snd (m \<sigma>)) = snd \<sigma> @ u \<and> phases p u q)"

lemma followsD: "follows p m q \<Longrightarrow> phases p (new_calls m \<sigma>) q"
  unfolding follows_def new_calls_def by (metis append_eq_conv_conj)

lemma follows_emits: "emits (allowed p) m \<Longrightarrow> follows p m p"
  unfolding emits_def follows_def by (metis phases_allowed)

lemma follows_next: "follows p m q \<Longrightarrow> follows p m (next_phase q)"
  unfolding follows_def by (metis phases_append phases_next append_Nil2)

lemma follows_bind:
  assumes "follows p m q" and "never_raises m" and "\<And>x. follows q (f x) r"
  shows "follows p (py_bind m f) r"
  unfolding follows_def
proof
  fix \<sigma>
  obtain x \<sigma>' where m: "m \<sigma> = (Inr x, \<sigma>')" using never_raisesD [OF assms(2)] by blast
  obtain u where u: "snd \<sigma>' = snd \<sigma> @ u" "phases p u q" using assms(1) m unfolding follows_def by (metis snd_conv)
  obtain v where v: "snd (snd (f x \<sigma>')) = snd \<sigma>' @ v" "phases q v r" using assms(3) unfolding follows_def by blast
  show "\<exists>w. snd (snd (py_bind m f \<sigma>)) = snd \<sigma> @ w \<and> phases p w r"
    using u v phases_append [OF u(2) v(2)] by (intro exI [of _ "u @ v"]) (simp add: py_bind_def m)
qed

lemma py_try_total: "never_raises m \<Longrightarrow> py_try m h = m"
  by (rule ext) (metis never_raisesD py_try_Inr)

subsection \<open>Reads and then at most one write\<close>

definition reads_then :: "(call \<Rightarrow> bool) \<Rightarrow> ('s, 'a) py \<Rightarrow> bool" where
  "reads_then P m \<longleftrightarrow>
     (\<forall>\<sigma>. \<exists>u v. snd (snd (m \<sigma>)) = snd \<sigma> @ u @ v \<and> list_all quiet u \<and> (v = [] \<or> (\<exists>c. v = [c] \<and> P c)))"

definition silent :: "('s, 'a) py \<Rightarrow> bool" where
  "silent m \<longleftrightarrow> emits (\<lambda>_. False) m"

lemma silent_basic [reads_intros]:
  "silent (py_return x)" "silent (py_raise e)" "silent (py_lift r)" "silent (py_self f)"
  by (simp_all add: silent_def emits_return emits_raise emits_lift emits_self)

lemma silentD: "silent m \<Longrightarrow> snd (snd (m \<sigma>)) = snd \<sigma>"
  unfolding silent_def emits_def by (metis list_all_iff append_Nil2 ex_in_conv set_empty)

lemma reads_then_quiet: "emits quiet m \<Longrightarrow> reads_then P m"
  unfolding emits_def reads_then_def by (metis append_Nil2)

lemma reads_then_silent [reads_intros]: "silent m \<Longrightarrow> reads_then P m"
  by (rule reads_then_quiet) (auto simp: silent_def elim: emits_mono)

lemma reads_then_call [reads_intros]: "P c \<Longrightarrow> reads_then P (py_call c resp)"
  unfolding reads_then_def by (intro allI exI [of _ "[]"] exI [of _ "[c]"]) simp

lemma reads_then_bind:
  assumes "emits quiet m" and "\<And>x. reads_then P (f x)"
  shows "reads_then P (py_bind m f)"
  unfolding reads_then_def
proof
  fix \<sigma>
  obtain r \<sigma>' where m: "m \<sigma> = (r, \<sigma>')" by (cases "m \<sigma>")
  from assms(1) m obtain u where u: "snd \<sigma>' = snd \<sigma> @ u" "list_all quiet u" unfolding emits_def by (metis snd_conv)
  show "\<exists>u v. snd (snd (py_bind m f \<sigma>)) = snd \<sigma> @ u @ v \<and> list_all quiet u \<and> (v = [] \<or> (\<exists>c. v = [c] \<and> P c))"
  proof (cases r)
    case (Inl e)
    with m u show ?thesis by (intro exI [of _ u] exI [of _ "[]"]) (simp add: py_bind_Inl)
  next
    case (Inr x)
    obtain u' v where v: "snd (snd (f x \<sigma>')) = snd \<sigma>' @ u' @ v" "list_all quiet u'" "v = [] \<or> (\<exists>c. v = [c] \<and> P c)"
      using assms(2) unfolding reads_then_def by blast
    show ?thesis
      by (rule exI [of _ "u @ u'"], rule exI [of _ v]) (use m u v Inr in \<open>simp add: py_bind_Inr\<close>)
  qed
qed

lemma reads_then_bind_silent:
  assumes "reads_then P m" and "\<And>x. silent (f x)"
  shows "reads_then P (py_bind m f)"
proof -
  have "snd (snd (py_bind m f \<sigma>)) = snd (snd (m \<sigma>))" for \<sigma>
  proof -
    obtain r \<sigma>' where "m \<sigma> = (r, \<sigma>')" by (metis prod.collapse)
    then show ?thesis using silentD [OF assms(2)] by (cases r) (simp_all add: py_bind_def)
  qed
  with assms(1) show ?thesis unfolding reads_then_def by simp
qed

lemma reads_then_try:
  assumes "reads_then P m" and "\<And>e. silent (h e)"
  shows "reads_then P (py_try m h)"
proof -
  have "snd (snd (py_try m h \<sigma>)) = snd (snd (m \<sigma>))" for \<sigma>
  proof -
    obtain r \<sigma>' where "m \<sigma> = (r, \<sigma>')" by (metis prod.collapse)
    then show ?thesis using silentD [OF assms(2)] by (cases r) (simp_all add: py_try_def)
  qed
  with assms(1) show ?thesis unfolding reads_then_def by simp
qed

lemma reads_then_on [reads_intros]: "reads_then P m \<Longrightarrow> reads_then P (py_on g u m)"
  unfolding reads_then_def py_on_def by (auto split: prod.splits) (metis snd_conv)

lemma reads_then_if [reads_intros]:
  "(b \<Longrightarrow> reads_then P m) \<Longrightarrow> (\<not> b \<Longrightarrow> reads_then P n) \<Longrightarrow> reads_then P (if b then m else n)"
  by simp

lemma reads_then_let [reads_intros]: "(\<And>x. x = a \<Longrightarrow> reads_then P (f x)) \<Longrightarrow> reads_then P (let x = a in f x)"
  by simp

text \<open>Such a computation ends a phase.\<close>

lemma follows_reads_then:
  assumes "reads_then (ends_phase p) m"
  shows "follows p m (next_phase p)"
  unfolding follows_def
proof
  fix \<sigma>
  obtain u v where u: "snd (snd (m \<sigma>)) = snd \<sigma> @ u @ v" "list_all quiet u" "v = [] \<or> (\<exists>c. v = [c] \<and> ends_phase p c)"
    using assms unfolding reads_then_def by blast
  have "phases p u p" using u(2) by (intro phases_allowed) (auto simp: allowed_def list_all_iff)
  moreover have "phases p v (next_phase p)"
    using u(3) by (auto intro: phases_next phases.finish phases.stay)
  ultimately show "\<exists>w. snd (snd (m \<sigma>)) = snd \<sigma> @ w \<and> phases p w (next_phase p)"
    using u(1) phases_append by blast
qed

subsection \<open>The client follows the phases\<close>

lemma get_autoindexer_quiet: "emits quiet (get_autoindexer E c)"
  by (rule get_autoindexer_emits) simp

lemma api_false_silent [reads_intros]: "silent (api_false e)"
  by (cases e) (simp_all add: api_false_def reads_intros)

lemma patch_reads [reads_intros]:
  "(\<And>p b. P (K8sPatchStatus p b)) \<Longrightarrow> reads_then P (py_seq (patch_status E c body) (py_return x))"
  unfolding patch_status_def by (intro reads_then_bind_silent reads_intros)

lemma update_autoindexer_status_reads [reads_intros]:
  assumes "\<And>p b. P (K8sPatchStatus p b)"
  shows "reads_then P (update_autoindexer_status E c upd)"
  unfolding update_autoindexer_status_def
  by (intro reads_then_if reads_then_try reads_then_bind [OF get_autoindexer_quiet] reads_then_bind [OF emits_lift]
      reads_intros assms)

lemma add_status_condition_reads [reads_intros]:
  assumes "\<And>p b. P (K8sPatchStatus p b)"
  shows "reads_then P (add_status_condition E c ty st r m)"
proof -
  have "emits quiet (create_condition E ty st r m ltt g)" for ltt g by (intro create_condition_emits) simp
  moreover have "emits quiet (now_iso E)" by (rule now_emits) simp
  ultimately show ?thesis
    unfolding add_status_condition_def
    by (intro reads_then_if reads_then_try reads_then_bind [OF get_autoindexer_quiet] reads_then_bind [OF emits_lift]
        reads_then_bind reads_intros assms)
qed

lemma update_indexing_completion_reads [reads_intros]:
  assumes "\<And>p b. P (K8sPatchStatus p b)"
  shows "reads_then P (update_indexing_completion E c ok d n h)"
proof -
  have "emits quiet (increment_counter E c f)" for f
    unfolding increment_counter_def by (intro emits_intros get_autoindexer_quiet)
  moreover have "emits quiet (now_iso E)" by (rule now_emits) simp
  ultimately show ?thesis
    unfolding update_indexing_completion_def Let_def by (intro reads_then_bind reads_intros assms)
qed

lemma create_event_reads [reads_intros]:
  assumes "\<And>n e. P (K8sCreateEvent n e)"
  shows "reads_then P (create_event E c r m ty)"
proof -
  have "emits quiet (now E)" by (rule now_emits) simp
  then show ?thesis
    unfolding create_event_def
    by (intro reads_then_if reads_then_try reads_then_bind [OF get_autoindexer_quiet] reads_then_bind [OF emits_lift]
        reads_then_bind reads_then_bind_silent reads_intros assms)
qed

lemma write_base_status_reads [reads_intros]:
  assumes "\<And>p b. P (K8sPatchStatus p b)"
  shows "reads_then P (write_base_status E i a rag k8s errors d extra)"
  unfolding write_base_status_def
  by (intro reads_then_bind reads_then_bind_silent create_base_emits reads_intros assms) simp_all

subsection \<open>The contract of a data source handler\<close>

text \<open>What a written status says: no condition other than those of the base class, no field other than
  those of the base status and the indexed commit, and nothing outside the status changes.\<close>

definition reported :: "k8s_client \<Rightarrow> string list \<Rightarrow> json \<Rightarrow> trace \<Rightarrow> bool" where
  "reported k8s errors crd u \<longleftrightarrow>
     (\<exists>body. sends_patch k8s body u \<and> wf_resource body \<and> jget body ''status'' \<noteq> None \<and>
        (\<exists>c. lookup_condition ''AutoIndexerError'' (resource_conditions body) = Some c \<and>
           jget c ''status'' = Some (JStr (error_status errors))) \<and>
        (\<exists>c. lookup_condition ''AutoIndexerIndexing'' (resource_conditions body) = Some c \<and>
           jget c ''status'' = Some (JStr ''False'')) \<and>
        (\<exists>c. lookup_condition ''AutoIndexerSucceeded'' (resource_conditions body) = Some c \<and>
           jget c ''status'' = Some (JStr ''True'')) \<and>
        (\<forall>k. k \<notin> base_fields \<union> {''lastIndexedCommit''} \<longrightarrow>
           jget (resource_status body) k = jget (resource_status crd) k) \<and>
        (\<forall>k. k \<noteq> ''status'' \<longrightarrow> jget body k = jget crd k))"

lemma write_base_status_reported:
  assumes "kc_name k8s \<noteq> ''''" and "resource_stays E k8s t crd"
    and "wf_resource crd" and "jget crd ''status'' \<noteq> None"
    and "distinct (map fst extra)" and "fst ` set extra \<subseteq> {''lastIndexedCommit''}"
  shows "reported k8s errors crd (new_calls (write_base_status E i a rag k8s errors d extra) (s, t))"
proof -
  have extra: "fst ` set extra \<inter> base_fields = {}" using assms(6) by (auto simp: base_fields_def)
  obtain body where look: "\<forall>ty. case map_of (base_statuses errors) ty of
        None \<Rightarrow> lookup_condition ty (resource_conditions body) = lookup_condition ty (resource_conditions crd)
      | Some v \<Rightarrow> \<exists>c. lookup_condition ty (resource_conditions body) = Some c \<and> jget c ''status'' = Some (JStr v)"
    and rest: "\<forall>k. k \<notin> base_fields \<longrightarrow> jget (resource_status body) k =
      (case map_of extra k of None \<Rightarrow> jget (resource_status crd) k | Some v \<Rightarrow> Some v)"
      "\<forall>k. k \<noteq> ''status'' \<longrightarrow> jget body k = jget crd k"
    and sends: "sends_patch k8s body (new_calls (write_base_status E i a rag k8s errors d extra) (s, t))"
    and wf: "wf_resource body" "jget body ''status'' \<noteq> None"
    using write_base_status_sends [OF assms(1-5) extra, of i a rag errors d s] by (elim exE conjE) (rule that)
  have err: "map_of (base_statuses errors) ''AutoIndexerError'' = Some (error_status errors)"
    and idx: "map_of (base_statuses errors) ''AutoIndexerIndexing'' = Some ''False''"
    and suc: "map_of (base_statuses errors) ''AutoIndexerSucceeded'' = Some ''True''"
    by (simp_all add: base_statuses_def)
  have "map_of extra k = None" if "k \<noteq> ''lastIndexedCommit''" for k
    using assms(6) that by (force simp: map_of_eq_None_iff)
  then have fields: "\<forall>k. k \<notin> base_fields \<union> {''lastIndexedCommit''} \<longrightarrow>
      jget (resource_status body) k = jget (resource_status crd) k"
    using rest(1) by simp
  show ?thesis
    unfolding reported_def
    by (rule exI [of _ body]) (intro conjI sends wf fields rest(2)
        look [THEN spec, of "''AutoIndexerError''", unfolded err option.case]
        look [THEN spec, of "''AutoIndexerIndexing''", unfolded idx option.case]
        look [THEN spec, of "''AutoIndexerSucceeded''", unfolded suc option.case])
qed

text \<open>A server that keeps the resource: it answers with \<open>crd\<close> until it is patched, and then with
  what was patched last, as nobody else writes the status.\<close>

definition keeps_resource :: "env \<Rightarrow> k8s_client \<Rightarrow> json \<Rightarrow> bool" where
  "keeps_resource E k8s crd \<longleftrightarrow>
     (\<forall>t. k8s_get E (K8sGet (object_path k8s)) t = Inr (last_patched crd t)) \<and>
     (\<forall>c t. k8s_patch E c t = Inr ())"

lemma keeps_resource_get:
  "keeps_resource E k8s crd \<Longrightarrow> k8s_get E (K8sGet (object_path k8s)) t = Inr (last_patched crd t)"
  by (simp add: keeps_resource_def)

lemma last_patched_reads: "list_all (\<lambda>c. \<not> is_k8s_write c) u \<Longrightarrow> last_patched crd (t @ u) = last_patched crd t"
  by (simp add: last_patched_append last_patched_patched no_write_no_patch)

lemma keeps_resource_stays: "keeps_resource E k8s crd \<Longrightarrow> resource_stays E k8s t (last_patched crd t)"
  unfolding resource_stays_def by (simp add: keeps_resource_get last_patched_reads)

lemma sends_patch_last: "sends_patch k8s body u \<Longrightarrow> last_patched crd (t @ u) = body"
  by (simp add: last_patched_append last_patched_patched sends_patchD)

text \<open>The interface the job uses: \<open>update_index\<close> and \<open>update_autoindexer_status\<close>. The errors the
  status reports are \<open>recorded\<close>, \<open>None\<close> when the status cannot be written; \<open>fresh\<close> holds of a
  handler that has just been made.\<close>

locale data_source =
  fixes upd :: "env \<Rightarrow> ('h, string list) py"
    and stat :: "env \<Rightarrow> ('h, unit) py"
    and client :: "'h \<Rightarrow> k8s_client"
    and fresh :: "'h \<Rightarrow> bool"
    and recorded :: "'h \<Rightarrow> string list option"
  assumes upd_total: "never_raises (upd E)"
    and upd_emits: "emits (\<lambda>c. \<not> is_k8s_write c) (upd E)"
    and upd_client: "keeps client (upd E)"
    and upd_recorded: "fresh h \<Longrightarrow> upd E (h, t) = (Inr [], h', t') \<Longrightarrow> recorded h' = Some []"
    and stat_reads: "(\<And>p b. P (K8sPatchStatus p b)) \<Longrightarrow> reads_then P (stat E)"
    and stat_sends: "recorded h = Some es \<Longrightarrow> kc_name (client h) \<noteq> '''' \<Longrightarrow>
      resource_stays E (client h) t crd \<Longrightarrow> wf_resource crd \<Longrightarrow> jget crd ''status'' \<noteq> None \<Longrightarrow>
      reported (client h) es crd (new_calls (stat E) (h, t))"
    and stat_skips: "recorded h = None \<Longrightarrow> list_all (\<lambda>c. \<not> is_k8s_write c) (new_calls (stat E) (h, t))"
begin

lemma stat_calls: "snd (snd (stat E \<sigma>)) = snd \<sigma> @ new_calls (stat E) \<sigma>"
proof -
  have "reads_then (\<lambda>_. True) (stat E)" by (rule stat_reads) simp
  then show ?thesis unfolding reads_then_def new_calls_def by (metis append_eq_conv_conj)
qed

text \<open>Indexing and then reporting: nothing but the handler's own fields changes, after a run without
  errors the resource says so, and a handler that has recorded its run has ended the indexing.\<close>

lemma session:
  assumes server: "keeps_resource E (client h) crd" and name: "kc_name (client h) \<noteq> ''''" and "fresh h"
    and wf: "wf_resource (last_patched crd t)" "jget (last_patched crd t) ''status'' \<noteq> None"
    and upd: "upd E (h, t) = (r, h1, t1)" and stat: "stat E (h1, t1) = (r2, h2, t2)"
  obtains es u where "r = Inr es" and "t2 = t @ u" and "created_events u = []"
    and "wf_resource (last_patched crd t2)" and "jget (last_patched crd t2) ''status'' \<noteq> None"
    and "\<forall>k. k \<notin> base_fields \<union> {''lastIndexedCommit''} \<longrightarrow>
      jget (resource_status (last_patched crd t2)) k = jget (resource_status (last_patched crd t)) k"
    and "\<forall>k. k \<noteq> ''status'' \<longrightarrow> jget (last_patched crd t2) k = jget (last_patched crd t) k"
    and "es = [] \<longrightarrow> (\<exists>c. lookup_condition ''AutoIndexerError'' (resource_conditions (last_patched crd t2)) = Some c \<and>
      jget c ''status'' = Some (JStr ''False''))"
    and "recorded h1 \<noteq> None \<longrightarrow>
      (\<exists>c. lookup_condition ''AutoIndexerIndexing'' (resource_conditions (last_patched crd t2)) = Some c \<and>
        jget c ''status'' = Some (JStr ''False'')) \<and>
      (\<exists>c. lookup_condition ''AutoIndexerSucceeded'' (resource_conditions (last_patched crd t2)) = Some c \<and>
        jget c ''status'' = Some (JStr ''True''))"
proof -
  obtain es where r: "r = Inr es" using upd never_raisesD [OF upd_total, of E "(h, t)"] by auto
  obtain u where u: "t1 = t @ u" "list_all (\<lambda>c. \<not> is_k8s_write c) u"
    using emitsD [OF upd_emits [of E], of "(h, t)"] upd by simp
  have c1: "client h1 = client h" using keepsD [OF upd_client upd] by simp
  have same: "last_patched crd t1 = last_patched crd t" unfolding u(1) by (rule last_patched_reads [OF u(2)])
  have t2: "t2 = t1 @ new_calls (stat E) (h1, t1)" using stat_calls [of E "(h1, t1)"] stat by simp
  then have t2u: "t2 = t @ u @ new_calls (stat E) (h1, t1)" using u(1) by simp
  have ev: "created_events u = []" using no_write_no_patch [OF u(2)] by simp
  show ?thesis
  proof (cases "recorded h1")
    case None
    note quiet = stat_skips [OF None, of E t1]
    have still: "last_patched crd t2 = last_patched crd t"
      unfolding t2 last_patched_reads [OF quiet] by (rule same)
    have "es \<noteq> []" using upd_recorded [OF assms(3), of E t h1 t1] upd r None by auto
    moreover have "created_events (new_calls (stat E) (h1, t1)) = []" using no_write_no_patch [OF quiet] by simp
    ultimately show ?thesis
      by (intro that [OF r t2u]) (use wf ev None in \<open>simp_all add: still\<close>)
  next
    case (Some es')
    have "reported (client h1) es' (last_patched crd t1) (new_calls (stat E) (h1, t1))"
      using stat_sends [OF Some, of E t1 "last_patched crd t1"] keeps_resource_stays [OF server, of t1] name wf
      by (simp add: c1 same)
    then obtain body where body: "sends_patch (client h1) body (new_calls (stat E) (h1, t1))"
      "wf_resource body" "jget body ''status'' \<noteq> None"
      "\<exists>c. lookup_condition ''AutoIndexerError'' (resource_conditions body) = Some c \<and>
         jget c ''status'' = Some (JStr (error_status es'))"
      "\<exists>c. lookup_condition ''AutoIndexerIndexing'' (resource_conditions body) = Some c \<and>
         jget c ''status'' = Some (JStr ''False'')"
      "\<exists>c. lookup_condition ''AutoIndexerSucceeded'' (resource_conditions body) = Some c \<and>
         jget c ''status'' = Some (JStr ''True'')"
      "\<forall>k. k \<notin> base_fields \<union> {''lastIndexedCommit''} \<longrightarrow>
         jget (resource_status body) k = jget (resource_status (last_patched crd t1)) k"
      "\<forall>k. k \<noteq> ''status'' \<longrightarrow> jget body k = jget (last_patched crd t1) k"
      unfolding reported_def by blast
    have now: "last_patched crd t2 = body" unfolding t2 by (rule sends_patch_last [OF body(1)])
    have "es = [] \<longrightarrow> es' = []" using upd_recorded [OF assms(3), of E t h1 t1] upd r Some by auto
    then have "es = [] \<longrightarrow> (\<exists>c. lookup_condition ''AutoIndexerError'' (resource_conditions body) = Some c \<and>
      jget c ''status'' = Some (JStr ''False''))"
      using body(4) by (auto simp: error_status_def)
    moreover have "created_events (new_calls (stat E) (h1, t1)) = []" using sends_patchD [OF body(1)] by simp
    ultimately show ?thesis
      by (intro that [OF r t2u]) (use body ev Some in \<open>simp_all add: now same\<close>)
  qed
qed

end

end
