(* ===== verification/Batching.thy ===== *)
theory Batching
  imports World
begin

section \<open>Loops that send in batches\<close>

text \<open>
  The handlers collect documents in a loop and send them whenever a batch is full. The locale
  \<open>batching\<close> is the contract between one iteration and the loop, whatever it collects
  (\<open>pend\<close> reads what is pending from the local variables) and whatever kind of call sends it
  (\<open>sent\<close> reads the batches from a history). \<open>fixed\<close> is the part of the object no iteration
  changes, and \<open>made\<close> says what an iteration may make of its item.
\<close>

locale batching =
  fixes step :: "'x \<Rightarrow> 'a \<Rightarrow> ('s, 'a) py" and size :: nat and sent :: "trace \<Rightarrow> 'd list list"
    and pend :: "'a \<Rightarrow> 'd list" and fixed :: "'s \<Rightarrow> 'f" and made :: "'f \<Rightarrow> 'x \<Rightarrow> 'd list \<Rightarrow> bool"
  assumes sent_Nil: "sent [] = []"
    and sent_append: "sent (t @ u) = sent t @ sent u"
    and step_batches: "length (pend a) < size \<Longrightarrow> step x a (s, t) = (r, s', t') \<Longrightarrow>
      \<exists>u. t' = t @ u \<and> fixed s' = fixed s \<and> list_all (\<lambda>b. length b = size) (sent u) \<and>
        (\<forall>a'. r = Inr a' \<longrightarrow> length (pend a') < size \<and>
          (\<exists>new. made (fixed s) x new \<and> concat (sent u) @ pend a' = pend a @ new)) \<and>
        (isl r \<longrightarrow> (\<exists>new. (new = [] \<or> made (fixed s) x new) \<and> prefix (concat (sent u)) (pend a @ new)))"
begin

text \<open>The loop sends full batches only. When it ends normally the batches and what is still
  pending are exactly what the items made, in order; when an iteration raises, the batches are an
  initial part of what the first items made.\<close>

lemma loop_batches:
  assumes "length (pend a) < size" and "py_for step xs a (s, t) = (r, s', t')"
  shows "\<exists>u. t' = t @ u \<and> fixed s' = fixed s \<and> list_all (\<lambda>b. length b = size) (sent u) \<and>
    (\<forall>a'. r = Inr a' \<longrightarrow> length (pend a') < size \<and>
      (\<exists>news. list_all2 (made (fixed s)) xs news \<and> concat (sent u) @ pend a' = pend a @ concat news)) \<and>
    (isl r \<longrightarrow> (\<exists>k news. list_all2 (made (fixed s)) (take k xs) news \<and>
      prefix (concat (sent u)) (pend a @ concat news)))"
  using assms
proof (induction xs arbitrary: a s t)
  case Nil
  then show ?case by (auto simp: sent_Nil)
next
  case (Cons x xs)
  obtain r1 s1 t1 where s1: "step x a (s, t) = (r1, s1, t1)" by (metis prod.collapse)
  from step_batches [OF Cons.prems(1) s1] obtain u1 where u1: "t1 = t @ u1" "fixed s1 = fixed s"
    "list_all (\<lambda>b. length b = size) (sent u1)"
    "\<forall>a'. r1 = Inr a' \<longrightarrow> length (pend a') < size \<and>
      (\<exists>new. made (fixed s) x new \<and> concat (sent u1) @ pend a' = pend a @ new)"
    "isl r1 \<longrightarrow> (\<exists>new. (new = [] \<or> made (fixed s) x new) \<and> prefix (concat (sent u1)) (pend a @ new))" by blast
  show ?case
  proof (cases r1)
    case (Inl e)
    with Cons.prems(2) s1 have r: "r = Inl e" "s' = s1" "t' = t1" by (simp_all add: py_bind_def)
    from u1(5) Inl obtain new where new: "new = [] \<or> made (fixed s) x new" "prefix (concat (sent u1)) (pend a @ new)"
      by auto
    from new(1) have "\<exists>k news. list_all2 (made (fixed s)) (take k (x # xs)) news \<and> concat news = new"
    proof
      assume "new = []"
      then show ?thesis by (intro exI [of _ 0] exI [of _ "[]"]) simp
    next
      assume "made (fixed s) x new"
      then show ?thesis by (intro exI [of _ 1] exI [of _ "[new]"]) simp
    qed
    with new(2) have "\<exists>k news. list_all2 (made (fixed s)) (take k (x # xs)) news \<and>
        prefix (concat (sent u1)) (pend a @ concat news)" by blast
    with u1(1-3) r show ?thesis by (intro exI [of _ u1]) simp
  next
    case (Inr a1)
    with Cons.prems(2) s1 have rest: "py_for step xs a1 (s1, t1) = (r, s', t')" by (simp add: py_bind_def)
    from u1(4) Inr obtain new where new: "length (pend a1) < size" "made (fixed s) x new"
      "concat (sent u1) @ pend a1 = pend a @ new" by blast
    from Cons.IH [OF new(1) rest] obtain u2 where u2: "t' = t1 @ u2" "fixed s' = fixed s1"
      "list_all (\<lambda>b. length b = size) (sent u2)"
      "\<forall>a'. r = Inr a' \<longrightarrow> length (pend a') < size \<and>
        (\<exists>news. list_all2 (made (fixed s1)) xs news \<and> concat (sent u2) @ pend a' = pend a1 @ concat news)"
      "isl r \<longrightarrow> (\<exists>k news. list_all2 (made (fixed s1)) (take k xs) news \<and>
        prefix (concat (sent u2)) (pend a1 @ concat news))" by blast
    have ok: "length (pend a') < size \<and>
        (\<exists>news. list_all2 (made (fixed s)) (x # xs) news \<and> concat (sent (u1 @ u2)) @ pend a' = pend a @ concat news)"
      if "r = Inr a'" for a'
    proof -
      from u2(4) that obtain news where news: "length (pend a') < size" "list_all2 (made (fixed s)) xs news"
        "concat (sent u2) @ pend a' = pend a1 @ concat news" using u1(2) by auto
      have "concat (sent (u1 @ u2)) @ pend a' = pend a @ concat (new # news)"
        using news(3) new(3) by (simp add: sent_append)
      moreover have "list_all2 (made (fixed s)) (x # xs) (new # news)" using new(2) news(2) by simp
      ultimately show ?thesis using news(1) by blast
    qed
    have failed: "\<exists>k news. list_all2 (made (fixed s)) (take k (x # xs)) news \<and>
        prefix (concat (sent (u1 @ u2))) (pend a @ concat news)" if "isl r"
    proof -
      from u2(5) that obtain k news where news: "list_all2 (made (fixed s)) (take k xs) news"
        "prefix (concat (sent u2)) (pend a1 @ concat news)" using u1(2) by auto
      from news(2) have "prefix (concat (sent u1) @ concat (sent u2)) (concat (sent u1) @ pend a1 @ concat news)"
        by simp
      then have "prefix (concat (sent (u1 @ u2))) (pend a @ concat (new # news))"
        using new(3) by (metis append.assoc concat.simps(2) concat_append sent_append)
      moreover have "list_all2 (made (fixed s)) (take (Suc k) (x # xs)) (new # news)" using new(2) news(1) by simp
      ultimately show ?thesis by blast
    qed
    have "list_all (\<lambda>b. length b = size) (sent (u1 @ u2))"
      using u1(3) u2(3) by (simp add: sent_append)
    with ok failed show ?thesis using u1(1,2) u2(1,2) by (intro exI [of _ "u1 @ u2"]) auto
  qed
qed

text \<open>With the rest sent in a last batch when there is one, every batch has between 1 and \<open>size\<close>
  elements.\<close>

lemma final_batches:
  assumes "list_all (\<lambda>b. length b = size) bs" and "length p < size"
  shows "list_all (\<lambda>b. b \<noteq> [] \<and> length b \<le> size) (bs @ (if p = [] then [] else [p])) \<and>
    concat (bs @ (if p = [] then [] else [p])) = concat bs @ p"
  using assms by (auto simp: list_all_iff)

end

text \<open>The batches sent for updates, and the identifiers sent for deletion.\<close>

fun updated_batches :: "trace \<Rightarrow> document list list" where
  "updated_batches [] = []"
| "updated_batches (RagUpdate u i ds # t) = ds # updated_batches t"
| "updated_batches (_ # t) = updated_batches t"

fun deleted_ids :: "trace \<Rightarrow> string list list" where
  "deleted_ids [] = []"
| "deleted_ids (RagDelete u i ids # t) = ids # deleted_ids t"
| "deleted_ids (_ # t) = deleted_ids t"

lemma updated_batches_append [simp]: "updated_batches (t @ u) = updated_batches t @ updated_batches u"
  by (induction t rule: updated_batches.induct) auto

lemma deleted_ids_append [simp]: "deleted_ids (t @ u) = deleted_ids t @ deleted_ids u"
  by (induction t rule: deleted_ids.induct) auto

lemma no_write_no_update: "list_all (\<lambda>c. \<not> is_rag_write c) t \<Longrightarrow> updated_batches t = [] \<and> deleted_ids t = []"
proof (induction t)
  case (Cons c t)
  then show ?case by (cases c) auto
qed simp

end
