(* ===== verification/PyUrl.thy ===== *)
theory PyUrl
  imports PyVal
begin

section \<open>URLs and numbers in text\<close>

text \<open>
  \<open>urllib.parse.urlparse\<close>, restricted to the components the code reads (scheme, network location
  and path), and \<open>int()\<close> on a string. The contents of an IPv6 literal in brackets and the
  Unicode normalisation of a host name are not checked.
\<close>

subsection \<open>Characters\<close>

definition is_alpha :: "char \<Rightarrow> bool" where
  "is_alpha c \<longleftrightarrow> (65 \<le> code c \<and> code c \<le> 90) \<or> (97 \<le> code c \<and> code c \<le> 122)"

definition is_digit :: "char \<Rightarrow> bool" where
  "is_digit c \<longleftrightarrow> 48 \<le> code c \<and> code c \<le> 57"

definition is_scheme_char :: "char \<Rightarrow> bool" where
  "is_scheme_char c \<longleftrightarrow> is_alpha c \<or> is_digit c \<or> c \<in> set ''+-.''"

subsection \<open>urlparse\<close>

record parsed_url =
  pu_scheme :: string
  pu_netloc :: string
  pu_path :: string

text \<open>\<open>s.partition(c)\<close>: what comes before the first \<open>c\<close>, and what comes after it.\<close>

definition before_char :: "char \<Rightarrow> string \<Rightarrow> string" where
  "before_char c s = takeWhile (\<lambda>x. x \<noteq> c) s"

definition after_char :: "char \<Rightarrow> string \<Rightarrow> string" where
  "after_char c s = drop 1 (dropWhile (\<lambda>x. x \<noteq> c) s)"

text \<open>Leading control characters and spaces are dropped, tabs and newlines removed everywhere.\<close>

definition clean_url :: "string \<Rightarrow> string" where
  "clean_url url = filter (\<lambda>c. code c \<notin> {9, 10, 13}) (dropWhile (\<lambda>c. code c \<le> 32) url)"

definition split_scheme :: "string \<Rightarrow> string \<times> string" where
  "split_scheme url =
     (let s = before_char (CHR '':'') url
      in if CHR '':'' \<in> set url \<and> s \<noteq> [] \<and> is_alpha (hd s) \<and> list_all is_scheme_char s
         then (py_lower s, after_char (CHR '':'') url) else ('''', url))"

definition split_netloc :: "string \<Rightarrow> exn + (string \<times> string)" where
  "split_netloc url =
     (if prefix ''//'' url then
        (let rest = drop 2 url; netloc = takeWhile (\<lambda>c. c \<notin> set ''/?#'') rest
         in if (CHR ''['' \<in> set netloc) \<noteq> (CHR '']'' \<in> set netloc) then Inl (ValueError ''Invalid IPv6 URL'')
            else Inr (netloc, drop (length netloc) rest))
      else Inr ('''', url))"

definition uses_params :: "string list" where
  "uses_params = ['''', ''ftp'', ''hdl'', ''prospero'', ''http'', ''https'', ''shttp'', ''rtsp'', ''rtsps'',
     ''rtspu'', ''sip'', ''sips'', ''mms'', ''sftp'', ''tel'']"

text \<open>The parameters after a semicolon in the last segment are not part of the path.\<close>

definition drop_params :: "string \<Rightarrow> string" where
  "drop_params path =
     (let lst = rev (takeWhile (\<lambda>c. c \<noteq> CHR ''/'') (rev path))
      in take (length path - length lst) path @ before_char (CHR '';'') lst)"

definition urlparse :: "string \<Rightarrow> exn + parsed_url" where
  "urlparse url0 =
     (let (scheme, url1) = split_scheme (clean_url url0)
      in sum_bind (split_netloc url1) (\<lambda>(netloc, url2).
           let path = before_char (CHR ''?'') (before_char (CHR ''#'') url2)
           in Inr \<lparr>pu_scheme = scheme, pu_netloc = netloc,
                pu_path = (if scheme \<in> set uses_params then drop_params path else path)\<rparr>))"

text \<open>The text of a URL taken from the configuration: a false value is read as an empty URL, any
  other value that is not a string has no \<open>decode\<close>.\<close>

fun url_text :: "json \<Rightarrow> exn + string" where
  "url_text (JStr s) = Inr s"
| "url_text x = (if truthy x then Inl (no_attribute x ''decode'') else Inr '''')"

subsection \<open>int()\<close>

text \<open>Digits with single underscores between them.\<close>

fun digits_value :: "nat \<Rightarrow> string \<Rightarrow> nat option" where
  "digits_value n [] = Some n"
| "digits_value n (c # s) =
     (if is_digit c then digits_value (10 * n + (code c - 48)) s
      else if c = CHR ''_'' then (case s of d # s' \<Rightarrow> if is_digit d then digits_value (10 * n + (code d - 48)) s' else None | [] \<Rightarrow> None)
      else None)"

definition unsigned_value :: "string \<Rightarrow> nat option" where
  "unsigned_value s = (case s of [] \<Rightarrow> None | c # s' \<Rightarrow> if is_digit c then digits_value 0 s else None)"

definition py_int :: "string \<Rightarrow> exn + int" where
  "py_int s =
     (let b = py_strip s;
          r = (case b of c # b' \<Rightarrow>
                 if c = CHR ''-'' then map_option (\<lambda>n. - int n) (unsigned_value b')
                 else if c = CHR ''+'' then map_option int (unsigned_value b')
                 else map_option int (unsigned_value b)
               | [] \<Rightarrow> None)
      in case r of Some i \<Rightarrow> Inr i
         | None \<Rightarrow> Inl (ValueError (''invalid literal for int() with base 10: '' @ py_repr s)))"

text \<open>A JSON value where a number is compared with an \<open>int\<close> by the operator \<open>op\<close>.\<close>

fun need_int :: "json \<Rightarrow> exn + int" where
  "need_int (JInt i) = Inr i"
| "need_int (JBool b) = Inr (if b then 1 else 0)"
| "need_int x = Inl (TypeError (py_repr ''>'' @ '' not supported between instances of '' @ py_repr ''int'' @ '' and '' @ py_repr (type_name x)))"

subsection \<open>Samples\<close>

lemma urlparse_samples:
  "urlparse ''https://raw.example.com/docs/a%20b/guide.md?raw=1#top'' =
     Inr \<lparr>pu_scheme = ''https'', pu_netloc = ''raw.example.com'', pu_path = ''/docs/a%20b/guide.md''\<rparr>"
  "urlparse ''HTTP://h/x.tar;v=1'' = Inr \<lparr>pu_scheme = ''http'', pu_netloc = ''h'', pu_path = ''/x.tar''\<rparr>"
  "urlparse ''docs/guide.md'' = Inr \<lparr>pu_scheme = '''', pu_netloc = '''', pu_path = ''docs/guide.md''\<rparr>"
  "urlparse ''http://[::1/x'' = Inl (ValueError ''Invalid IPv6 URL'')"
  by code_simp+

lemma py_int_samples:
  "py_int '' 1_024 '' = Inr 1024" "py_int ''-7'' = Inr (- 7)"
  "\<not> isl (py_int ''+3'')" "isl (py_int ''12a'')" "isl (py_int '''')"
  by code_simp+

end
