(* ===== verification/ContentHandler.thy ===== *)
theory ContentHandler
  imports World
begin

section \<open>Content handlers\<close>

text \<open>
  \<open>jobs/autoindexer/content_handler/\<close>: \<open>text_handler.py\<close> decodes text, \<open>pdf_handler.py\<close> extracts the
  text and the tables of a PDF file, \<open>factory.py\<close> picks the handler for a content. pdfplumber
  and chardet are parameters (\<open>pdf_open\<close>, \<open>chardet_detect\<close>); the codecs the code names are
  modelled, any other codec of Python's registry is the parameter \<open>codec_other\<close>.
\<close>

subsection \<open>Codecs\<close>

definition decode_error :: "string \<Rightarrow> exn" where
  "decode_error enc = UnicodeDecodeError (py_repr enc @ '' codec can't decode bytes'')"

definition utf8_decode :: "bytes \<Rightarrow> exn + string" where
  "utf8_decode raw = (if utf8_valid raw then Inr raw else Inl (decode_error ''utf-8''))"

definition bom :: bytes where
  "bom = [CHR 0xEF, CHR 0xBB, CHR 0xBF]"

definition utf8_sig_decode :: "bytes \<Rightarrow> exn + string" where
  "utf8_sig_decode raw = utf8_decode (if prefix bom raw then drop 3 raw else raw)"

definition latin1_decode :: "bytes \<Rightarrow> string" where
  "latin1_decode raw = concat (map (\<lambda>c. utf8_encode (code c)) raw)"

text \<open>Windows-1252: the bytes \<open>0x80\<close> to \<open>0x9f\<close> have code points of their own, five of them none.\<close>

definition cp1252_high :: "nat option list" where
  "cp1252_high =
     [Some 0x20AC, None, Some 0x201A, Some 0x0192, Some 0x201E, Some 0x2026, Some 0x2020, Some 0x2021,
      Some 0x02C6, Some 0x2030, Some 0x0160, Some 0x2039, Some 0x0152, None, Some 0x017D, None,
      None, Some 0x2018, Some 0x2019, Some 0x201C, Some 0x201D, Some 0x2022, Some 0x2013, Some 0x2014,
      Some 0x02DC, Some 0x2122, Some 0x0161, Some 0x203A, Some 0x0153, None, Some 0x017E, Some 0x0178]"

definition cp1252_point :: "char \<Rightarrow> nat option" where
  "cp1252_point c =
     (if 128 \<le> code c \<and> code c < 160 then cp1252_high ! (code c - 128) else Some (code c))"

definition cp1252_decode :: "bytes \<Rightarrow> exn + string" where
  "cp1252_decode raw =
     (if list_all (\<lambda>c. cp1252_point c \<noteq> None) raw
      then Inr (concat (map (\<lambda>c. utf8_encode (the (cp1252_point c))) raw))
      else Inl (decode_error ''charmap''))"

text \<open>\<open>raw.decode('utf-8', errors='replace')\<close>: each maximal ill-formed part becomes \<open>U+FFFD\<close>.\<close>

definition replacement :: string where
  "replacement = [CHR 0xEF, CHR 0xBF, CHR 0xBD]"

definition second_ok :: "char \<Rightarrow> char \<Rightarrow> bool" where
  "second_ok a b \<longleftrightarrow> cont b \<and> (code a = 224 \<longrightarrow> 160 \<le> code b) \<and> (code a = 237 \<longrightarrow> code b \<le> 159) \<and>
     (code a = 240 \<longrightarrow> 144 \<le> code b) \<and> (code a = 244 \<longrightarrow> code b \<le> 143)"

fun utf8_replace :: "bytes \<Rightarrow> string" where
  "utf8_replace [] = []"
| "utf8_replace (a # s) =
     (if code a < 128 then a # utf8_replace s
      else if 194 \<le> code a \<and> code a \<le> 223
        then (case s of b # r \<Rightarrow> if cont b then a # b # utf8_replace r else replacement @ utf8_replace s
              | [] \<Rightarrow> replacement)
      else if 224 \<le> code a \<and> code a \<le> 239
        then (case s of
            b # c # r \<Rightarrow> if \<not> second_ok a b then replacement @ utf8_replace s
              else if cont c then a # b # c # utf8_replace r
              else replacement @ utf8_replace (c # r)
          | [b] \<Rightarrow> if second_ok a b then replacement else replacement @ utf8_replace [b]
          | [] \<Rightarrow> replacement)
      else if 240 \<le> code a \<and> code a \<le> 244
        then (case s of
            b # c # d # r \<Rightarrow> if \<not> second_ok a b then replacement @ utf8_replace s
              else if \<not> cont c then replacement @ utf8_replace (c # d # r)
              else if cont d then a # b # c # d # utf8_replace r
              else replacement @ utf8_replace (d # r)
          | [b, c] \<Rightarrow> if \<not> second_ok a b then replacement @ utf8_replace s
              else if cont c then replacement else replacement @ utf8_replace [c]
          | [b] \<Rightarrow> if second_ok a b then replacement else replacement @ utf8_replace [b]
          | [] \<Rightarrow> replacement)
      else replacement @ utf8_replace s)"

text \<open>\<open>raw.decode(enc)\<close>.\<close>

definition py_decode :: "env \<Rightarrow> string \<Rightarrow> bytes \<Rightarrow> exn + string" where
  "py_decode E enc raw =
     (if enc = ''utf-8'' then utf8_decode raw
      else if enc = ''utf-8-sig'' then utf8_sig_decode raw
      else if enc = ''latin1'' \<or> enc = ''iso-8859-1'' then Inr (latin1_decode raw)
      else if enc = ''cp1252'' then cp1252_decode raw
      else codec_other E enc raw)"

subsection \<open>TextContentHandler\<close>

definition text_content_types :: "string list" where
  "text_content_types =
     [''text/'', ''application/json'', ''application/xml'', ''application/yaml'',
      ''application/javascript'', ''application/x-yaml'', ''application/toml'', ''text/csv'']"

text \<open>The literal \<open>0.7\<close> is this double.\<close>

definition confidence_threshold :: rat where
  "confidence_threshold = 3152519739159347 / 4503599627370496"

definition text_can_handle :: "env \<Rightarrow> bytes \<Rightarrow> string \<Rightarrow> string \<Rightarrow> exn + bool" where
  "text_can_handle E raw_content content_type file_extension =
     (if list_ex (\<lambda>t. sublist t (py_lower content_type)) text_content_types then Inr True
      else
        (let sample = take 1024 raw_content
         in if CHR 0x00 \<in> set sample then Inr False
            else if utf8_valid sample then Inr True
            else (case chardet_detect E sample of
                Inl (ImportError m) \<Rightarrow> Inr False
              | Inl e \<Rightarrow> Inl e
              | Inr None \<Rightarrow> Inr False
              | Inr (Some d) \<Rightarrow> Inr (confidence_threshold < dt_confidence d))))"

definition header_encoding :: "string \<Rightarrow> string" where
  "header_encoding content_type =
     (if sublist ''charset='' content_type
      then py_strip (hd (py_split (py_split content_type ''charset='' ! 1) '';'')) else '''')"

definition common_encodings :: "string list" where
  "common_encodings = [''utf-8'', ''utf-8-sig'', ''latin1'', ''cp1252'', ''iso-8859-1'']"

definition encodings_to_try :: "env \<Rightarrow> bytes \<Rightarrow> string \<Rightarrow> string list" where
  "encodings_to_try E raw_content content_type =
     (let encoding = header_encoding content_type;
          encs = (if encoding \<noteq> '''' then [encoding] else []) @ common_encodings
      in case chardet_detect E raw_content of
           Inr (Some d) \<Rightarrow>
             (case dt_encoding d of
                Some enc \<Rightarrow>
                  if enc \<noteq> '''' \<and> confidence_threshold < dt_confidence d \<and> enc \<notin> set encs
                  then take 1 encs @ [enc] @ drop 1 encs else encs
              | None \<Rightarrow> encs)
         | _ \<Rightarrow> encs)"

fun first_decoding :: "env \<Rightarrow> bytes \<Rightarrow> string list \<Rightarrow> string option" where
  "first_decoding E raw [] = None"
| "first_decoding E raw (enc # encs) =
     (case py_decode E enc raw of Inr s \<Rightarrow> Some s | Inl e \<Rightarrow> first_decoding E raw encs)"

definition text_extract_text :: "env \<Rightarrow> bytes \<Rightarrow> string \<Rightarrow> string \<Rightarrow> exn + string" where
  "text_extract_text E raw_content content_type file_extension =
     (if raw_content = [] then Inr ''''
      else case first_decoding E raw_content (encodings_to_try E raw_content content_type) of
          Some s \<Rightarrow> Inr s
        | None \<Rightarrow> Inr (utf8_replace raw_content))"

subsection \<open>PDFContentHandler\<close>

definition pdf_can_handle :: "env \<Rightarrow> bytes \<Rightarrow> string \<Rightarrow> string \<Rightarrow> exn + bool" where
  "pdf_can_handle E raw_content content_type file_extension =
     (if file_extension \<noteq> '''' \<and> py_lower file_extension \<noteq> ''.pdf'' then Inr False
      else if sublist ''application/pdf'' (py_lower content_type) then Inr True
      else if prefix ''%PDF'' raw_content then Inr True
      else (case pdf_open E raw_content of
          Inr pages \<Rightarrow> Inr (pages \<noteq> [])
        | Inl e \<Rightarrow> Inr False))"

definition cell_truthy :: "string option \<Rightarrow> bool" where
  "cell_truthy c = (c \<noteq> None \<and> c \<noteq> Some '''')"

definition cell_text :: "string option \<Rightarrow> string" where
  "cell_text c = (case c of None \<Rightarrow> '''' | Some s \<Rightarrow> py_strip s)"

definition nl :: string where "nl = [CHR 0x0A]"

definition table_to_text :: "string option list list \<Rightarrow> string" where
  "table_to_text table =
     (let rows = filter (\<lambda>row. row \<noteq> [] \<and> list_ex cell_truthy row) table
      in if rows = [] then ''''
         else py_join nl (map (\<lambda>row. py_join '' | '' (map cell_text row)) rows))"

definition page_text_part :: "nat \<Rightarrow> string option \<Rightarrow> string list" where
  "page_text_part page_num txt =
     (case txt of
        None \<Rightarrow> []
      | Some s \<Rightarrow> if py_strip s \<noteq> '''' then [''--- Page '' @ nat_str page_num @ '' ---'' @ nl @ py_strip s] else [])"

definition table_part :: "nat \<Rightarrow> nat \<Rightarrow> string option list list \<Rightarrow> string list" where
  "table_part page_num table_num table =
     (let table_text = table_to_text table
      in if py_strip table_text \<noteq> ''''
         then [''--- Page '' @ nat_str page_num @ '' Table '' @ nat_str table_num @ '' ---'' @ nl @ py_strip table_text]
         else [])"

text \<open>A page whose text cannot be read is skipped; one whose tables cannot be read keeps its
  text.\<close>

definition page_parts :: "nat \<Rightarrow> pdf_page \<Rightarrow> string list" where
  "page_parts page_num page =
     (case pg_text page of
        Inl e \<Rightarrow> []
      | Inr txt \<Rightarrow> page_text_part page_num txt @
          (case pg_tables page of
             Inl e \<Rightarrow> []
           | Inr tables \<Rightarrow> concat (map (\<lambda>(n, t). table_part page_num n t) (enumerate 1 tables))))"

definition pdf_extract_text :: "env \<Rightarrow> bytes \<Rightarrow> string \<Rightarrow> string \<Rightarrow> exn + string" where
  "pdf_extract_text E raw_content content_type file_extension =
     (let extracted_text =
        (case pdf_open E raw_content of
           Inl e \<Rightarrow> ''''
         | Inr pages \<Rightarrow> py_join (nl @ nl) (concat (map (\<lambda>(n, p). page_parts n p) (enumerate 1 pages))))
      in if py_strip extracted_text = ''''
         then Inl (ContentHandlingError ''Unable to extract text from PDF'')
         else Inr extracted_text)"

subsection \<open>ContentHandlerFactory\<close>

datatype handler_class = PDFContentHandler | TextContentHandler

definition pdf_get_priority :: nat where
  [simp]: "pdf_get_priority = 10"

definition text_get_priority :: nat where
  [simp]: "text_get_priority = 1"

fun get_priority :: "handler_class \<Rightarrow> nat" where
  "get_priority PDFContentHandler = pdf_get_priority"
| "get_priority TextContentHandler = text_get_priority"

fun can_handle :: "env \<Rightarrow> handler_class \<Rightarrow> bytes \<Rightarrow> string \<Rightarrow> string \<Rightarrow> exn + bool" where
  "can_handle E PDFContentHandler = pdf_can_handle E"
| "can_handle E TextContentHandler = text_can_handle E"

fun handler_extract_text :: "env \<Rightarrow> handler_class \<Rightarrow> bytes \<Rightarrow> string \<Rightarrow> string \<Rightarrow> exn + string" where
  "handler_extract_text E PDFContentHandler = pdf_extract_text E"
| "handler_extract_text E TextContentHandler = text_extract_text E"

text \<open>\<open>sort(key=priority, reverse=True)\<close> keeps the order of handlers of equal priority.\<close>

definition initialize_handlers :: "handler_class list \<Rightarrow> handler_class list" where
  "initialize_handlers classes = rev (sort_key get_priority (rev classes))"

definition handlers :: "handler_class list" where
  "handlers = initialize_handlers [PDFContentHandler, TextContentHandler]"

fun get_handler ::
  "env \<Rightarrow> handler_class list \<Rightarrow> bytes \<Rightarrow> string \<Rightarrow> string \<Rightarrow> exn + handler_class" where
  "get_handler E [] raw ct ext = Inl (ContentHandlingError ''No suitable content handler found'')"
| "get_handler E (h # hs) raw ct ext =
     (case can_handle E h raw ct ext of
        Inr True \<Rightarrow> Inr h
      | _ \<Rightarrow> get_handler E hs raw ct ext)"

definition extract_text :: "env \<Rightarrow> bytes \<Rightarrow> string \<Rightarrow> string \<Rightarrow> exn + string" where
  "extract_text E raw_content content_type file_extension =
     sum_bind (get_handler E handlers raw_content content_type file_extension)
       (\<lambda>h. handler_extract_text E h raw_content content_type file_extension)"

fun class_name :: "handler_class \<Rightarrow> string" where
  "class_name PDFContentHandler = ''PDFContentHandler''"
| "class_name TextContentHandler = ''TextContentHandler''"

definition get_available_handlers :: "handler_class list \<Rightarrow> string list" where
  "get_available_handlers hs = map class_name hs"

subsection \<open>Decoding\<close>

lemma utf8_sig_dead: "utf8_decode raw = Inl e \<Longrightarrow> utf8_sig_decode raw = Inl e"
proof -
  assume err: "utf8_decode raw = Inl e"
  show ?thesis
  proof (cases "prefix bom raw")
    case True
    then obtain r where "raw = bom @ r" by (auto simp: prefix_def)
    with err show ?thesis by (auto simp: utf8_sig_decode_def utf8_decode_def bom_def split: if_splits)
  next
    case False
    with err show ?thesis by (simp add: utf8_sig_decode_def)
  qed
qed

lemma first_decoding_append:
  "first_decoding E raw (xs @ ys) =
    (case first_decoding E raw xs of Some s \<Rightarrow> Some s | None \<Rightarrow> first_decoding E raw ys)"
  by (induction xs) (auto split: sum.splits)

lemma py_decode_latin1 [simp]: "py_decode E ''latin1'' raw = Inr (latin1_decode raw)"
  by (simp add: py_decode_def)

lemma first_decoding_latin1: "''latin1'' \<in> set encs \<Longrightarrow> first_decoding E raw encs \<noteq> None"
  by (induction encs) (auto split: sum.splits)

lemma latin1_always_tried: "''latin1'' \<in> set (encodings_to_try E raw ct)"
  by (auto simp: encodings_to_try_def common_encodings_def Let_def split: sum.splits option.splits)

lemma first_decoding_two:
  "utf8_decode raw = Inl e \<Longrightarrow>
    first_decoding E raw (''utf-8'' # g # T) =
      (case py_decode E g raw of Inr s \<Rightarrow> Some s | Inl _ \<Rightarrow> first_decoding E raw T)"
  by (simp add: py_decode_def [of E "''utf-8''"])

text \<open>What chardet contributes: the decoding by its guess, where it is confident, the guess is not
  one of the encodings tried anyway, and the codec accepts the bytes.\<close>

definition confident_guess :: "env \<Rightarrow> bytes \<Rightarrow> string option" where
  "confident_guess E raw =
     (case chardet_detect E raw of
        Inr (Some d) \<Rightarrow>
          (case dt_encoding d of
             Some enc \<Rightarrow>
               if enc \<noteq> '''' \<and> confidence_threshold < dt_confidence d \<and> enc \<notin> set common_encodings
               then (case py_decode E enc raw of Inr s \<Rightarrow> Some s | Inl e \<Rightarrow> None) else None
           | None \<Rightarrow> None)
      | _ \<Rightarrow> None)"

lemma common_tail:
  "utf8_decode raw = Inl e \<Longrightarrow>
    first_decoding E raw [''utf-8-sig'', ''latin1'', ''cp1252'', ''iso-8859-1''] = Some (latin1_decode raw)"
  by (simp add: py_decode_def utf8_sig_dead)

lemma common_tried:
  "first_decoding E raw common_encodings = Some (if utf8_valid raw then raw else latin1_decode raw)"
proof (cases "utf8_valid raw")
  case True
  then show ?thesis by (simp add: common_encodings_def py_decode_def utf8_decode_def)
next
  case False
  then have err: "utf8_decode raw = Inl (decode_error ''utf-8'')" by (simp add: utf8_decode_def)
  show ?thesis using common_tail [OF err] err False by (simp add: common_encodings_def py_decode_def)
qed

text \<open>The decoding by the charset that the content type declares, if it declares one that the bytes decode by.\<close>

definition declared_decoding :: "env \<Rightarrow> bytes \<Rightarrow> string \<Rightarrow> string option" where
  "declared_decoding E raw ct =
     (if header_encoding ct = '''' then None
      else case py_decode E (header_encoding ct) raw of Inr s \<Rightarrow> Some s | Inl e \<Rightarrow> None)"

lemma undeclared_order:
  assumes "header_encoding ct = ''''"
  shows "first_decoding E raw (encodings_to_try E raw ct) =
     Some (if utf8_valid raw then raw
           else case confident_guess E raw of Some s \<Rightarrow> s | None \<Rightarrow> latin1_decode raw)"
proof (cases "utf8_valid raw")
  case True
  then show ?thesis
    using assms
    by (auto simp: encodings_to_try_def Let_def common_encodings_def py_decode_def utf8_decode_def
        split: sum.splits option.splits)
next
  case False
  then have err: "utf8_decode raw = Inl (decode_error ''utf-8'')" by (simp add: utf8_decode_def)
  have guess: "first_decoding E raw [''utf-8'', g, ''utf-8-sig'', ''latin1'', ''cp1252'', ''iso-8859-1'']
      = (case py_decode E g raw of Inr s \<Rightarrow> Some s | Inl _ \<Rightarrow> Some (latin1_decode raw))" for g
    by (simp only: first_decoding_two [OF err] common_tail [OF err])
  show ?thesis
    using assms common_tried [of E raw] guess False
    by (auto simp: encodings_to_try_def Let_def confident_guess_def common_encodings_def
        simp del: first_decoding.simps split: sum.splits option.splits)
qed

lemma declared_order:
  assumes "header_encoding ct \<noteq> ''''"
  shows "first_decoding E raw (encodings_to_try E raw ct) =
     Some (case declared_decoding E raw ct of
         Some s \<Rightarrow> s
       | None \<Rightarrow> (case confident_guess E raw of
           Some s \<Rightarrow> s
         | None \<Rightarrow> if utf8_valid raw then raw else latin1_decode raw))"
proof -
  let ?h = "header_encoding ct"
  let ?first = "\<lambda>g. case py_decode E g raw of Inr s \<Rightarrow> Some s | Inl _ \<Rightarrow> first_decoding E raw common_encodings"
  have plain: "first_decoding E raw (?h # common_encodings) = ?first ?h" by simp
  have both: "first_decoding E raw (?h # g # common_encodings) =
      (case py_decode E ?h raw of Inr s \<Rightarrow> Some s | Inl _ \<Rightarrow> ?first g)" for g
    by (simp split: sum.split)
  show ?thesis
    using assms plain both
    by (auto simp: encodings_to_try_def Let_def confident_guess_def declared_decoding_def common_tried
        simp del: first_decoding.simps split: sum.splits option.splits)
qed

subsection \<open>Extraction from PDF files\<close>



lemma page_parts_start: "p \<in> set (page_parts n pg) \<Longrightarrow> prefix ''---'' p"
  by (auto simp: page_parts_def page_text_part_def table_part_def Let_def
      split: sum.splits option.splits if_splits)

lemma pdf_extract_text_parts:
  "pdf_extract_text E raw ct ext =
     (case pdf_open E raw of
        Inl e \<Rightarrow> Inl (ContentHandlingError ''Unable to extract text from PDF'')
      | Inr pages \<Rightarrow>
          (let parts = concat (map (\<lambda>(n, p). page_parts n p) (enumerate 1 pages))
           in if parts = [] then Inl (ContentHandlingError ''Unable to extract text from PDF'')
              else Inr (py_join (nl @ nl) parts)))"
proof (cases "pdf_open E raw")
  case (Inl e)
  then show ?thesis by (simp add: pdf_extract_text_def py_strip_def)
next
  case (Inr pages)
  define parts where "parts = concat (map (\<lambda>(n, p). page_parts n p) (enumerate 1 pages))"
  have "py_strip (py_join (nl @ nl) parts) \<noteq> ''''" if "parts \<noteq> []"
  proof -
    from that obtain p ps where ps: "parts = p # ps" by (cases parts) auto
    then have "p \<in> set parts" by simp
    then have "prefix ''---'' p" unfolding parts_def by (auto dest!: page_parts_start)
    then have "CHR ''-'' \<in> set p" by (auto simp: prefix_def)
    then have "CHR ''-'' \<in> set (py_join (nl @ nl) parts)" using ps by (cases ps) auto
    moreover have "\<not> is_space CHR ''-''" "code CHR ''-'' < 128" by code_simp+
    ultimately show ?thesis by (rule py_strip_nonblank)
  qed
  note nonblank = this
  show ?thesis
  proof (cases "parts = []")
    case True
    then show ?thesis
      unfolding pdf_extract_text_def Inr sum.case Let_def parts_def [symmetric]
      by (simp add: py_strip_def)
  next
    case False
    with nonblank [OF False] show ?thesis
      unfolding pdf_extract_text_def Inr sum.case Let_def parts_def [symmetric] by simp
  qed
qed

text \<open>The parts by their places: the number of the page, and \<open>0\<close> for its text or the number of a table.\<close>

definition body_at :: "pdf_page \<Rightarrow> nat \<Rightarrow> string" where
  "body_at page k =
     (case (pg_text page, pg_tables page) of
        (Inr txt, tables) \<Rightarrow>
          if k = 0 then (case txt of None \<Rightarrow> '''' | Some s \<Rightarrow> py_strip s)
          else (case tables of
              Inl e \<Rightarrow> ''''
            | Inr ts \<Rightarrow> if k \<le> length ts then py_strip (table_to_text (ts ! (k - 1))) else '''')
      | _ \<Rightarrow> '''')"

definition part_at :: "pdf_page list \<Rightarrow> nat \<times> nat \<Rightarrow> string option" where
  "part_at pages place = (case place of (n, k) \<Rightarrow>
     if n = 0 \<or> length pages < n \<or> body_at (pages ! (n - 1)) k = '''' then None
     else Some (''--- Page '' @ nat_str n @ (if k = 0 then '''' else '' Table '' @ nat_str k) @ '' ---'' @ [CHR 0x0A] @
       body_at (pages ! (n - 1)) k))"

definition place_before :: "nat \<times> nat \<Rightarrow> nat \<times> nat \<Rightarrow> bool" where
  "place_before p q \<longleftrightarrow> fst p < fst q \<or> fst p = fst q \<and> snd p < snd q"

definition last_place :: "pdf_page \<Rightarrow> nat" where
  "last_place page = (case pg_tables page of Inl e \<Rightarrow> 0 | Inr ts \<Rightarrow> length ts)"

definition places_on :: "pdf_page list \<Rightarrow> nat \<Rightarrow> (nat \<times> nat) list" where
  "places_on pages n = filter (\<lambda>p. part_at pages p \<noteq> None) (map (Pair n) [0..<Suc (last_place (pages ! (n - 1)))])"

definition places_of :: "pdf_page list \<Rightarrow> (nat \<times> nat) list" where
  "places_of pages = concat (map (places_on pages) [1..<Suc (length pages)])"

lemma places_on_sorted: "sorted_wrt place_before (places_on pages n)"
  unfolding places_on_def
  by (intro sorted_wrt_filter) (simp add: sorted_wrt_map place_before_def sorted_wrt_upt del: upt_Suc)

lemma places_on_page: "p \<in> set (places_on pages n) \<Longrightarrow> fst p = n"
  by (auto simp: places_on_def simp del: upt_Suc)

lemma places_sorted: "sorted_wrt place_before (places_of pages)"
proof -
  have "sorted_wrt place_before (concat (map (places_on pages) ns))" if "sorted_wrt (<) ns" for ns
    using that
  proof (induction ns)
    case (Cons n ns)
    then show ?case
      by (auto simp: sorted_wrt_append places_on_sorted) (auto simp: place_before_def dest!: places_on_page)
  qed simp
  then show ?thesis unfolding places_of_def by (simp del: upt_Suc)
qed

lemma body_beyond: "last_place page < k \<Longrightarrow> body_at page k = ''''"
  by (auto simp: body_at_def last_place_def split: sum.splits option.splits)

lemma places_set: "set (places_of pages) = {p. part_at pages p \<noteq> None}"
proof -
  have "(n, k) \<in> set (places_of pages) \<longleftrightarrow> part_at pages (n, k) \<noteq> None" for n k
  proof
    assume part: "part_at pages (n, k) \<noteq> None"
    then have n: "1 \<le> n" "n \<le> length pages" and body: "body_at (pages ! (n - 1)) k \<noteq> ''''"
      by (auto simp: part_at_def split: if_splits)
    from body have "k \<le> last_place (pages ! (n - 1))" by (metis body_beyond not_less)
    with part have "(n, k) \<in> set (places_on pages n)" by (simp add: places_on_def del: upt_Suc)
    with n show "(n, k) \<in> set (places_of pages)" by (auto simp: places_of_def simp del: upt_Suc)
  qed (auto simp: places_of_def places_on_def simp del: upt_Suc)
  then show ?thesis by auto
qed

lemma page_parts_at:
  assumes "1 \<le> n" and "n \<le> length pages"
  shows "page_parts n (pages ! (n - 1)) = map (\<lambda>p. the (part_at pages p)) (places_on pages n)"
proof -
  let ?page = "pages ! (n - 1)"
  let ?part = "\<lambda>k. if body_at ?page k = '''' then [] else [the (part_at pages (n, k))]"
  have "map (\<lambda>p. the (part_at pages p)) (filter (\<lambda>p. part_at pages p \<noteq> None) (map (Pair n) ks)) = concat (map ?part ks)" for ks
    using assms by (induction ks) (auto simp: part_at_def)
  then have places: "map (\<lambda>p. the (part_at pages p)) (places_on pages n) = concat (map ?part [0..<Suc (last_place ?page)])"
    unfolding places_on_def .
  have upt: "[0..<Suc m] = 0 # map Suc [0..<m]" for m by (simp add: map_Suc_upt upt_conv_Cons del: upt_Suc)
  show ?thesis
  proof (cases "pg_text ?page")
    case (Inl e)
    then show ?thesis unfolding places by (simp add: page_parts_def body_at_def)
  next
    case (Inr found)
    have txt_part: "page_text_part n found = ?part 0"
      using assms Inr by (auto simp: page_text_part_def part_at_def body_at_def nl_def split: option.splits)
    have tables: "concat (map (\<lambda>(i, t). table_part n i t) (enumerate 1 ts)) = concat (map (\<lambda>i. ?part (Suc i)) [0..<length ts])"
      if ts: "pg_tables ?page = Inr ts" for ts
    proof -
      have "enumerate 1 ts = map (\<lambda>i. (Suc i, ts ! i)) [0..<length ts]"
        by (rule nth_equalityI) (simp_all add: nth_enumerate_eq)
      moreover have "table_part n (Suc i) (ts ! i) = ?part (Suc i)" if "i < length ts" for i
        using assms Inr that ts
        by (simp add: table_part_def part_at_def body_at_def nl_def Let_def)
      ultimately show ?thesis by (auto simp: o_def intro!: arg_cong [of _ _ concat])
    qed
    show ?thesis
    proof (cases "pg_tables ?page")
      case (Inl e)
      with Inr show ?thesis unfolding places by (simp add: page_parts_def txt_part last_place_def)
    next
      case ts: (Inr ts)
      with Inr show ?thesis
        unfolding places upt by (simp add: page_parts_def txt_part tables [OF ts] last_place_def o_def del: One_nat_def)
    qed
  qed
qed

lemma page_parts_places:
  "concat (map (\<lambda>(n, p). page_parts n p) (enumerate 1 pages)) = map (\<lambda>p. the (part_at pages p)) (places_of pages)"
proof -
  have "enumerate 1 pages = map (\<lambda>n. (n, pages ! (n - 1))) [1..<Suc (length pages)]"
    by (rule nth_equalityI) (simp_all add: nth_enumerate_eq del: upt_Suc)
  then have "concat (map (\<lambda>(n, p). page_parts n p) (enumerate 1 pages)) =
      concat (map (\<lambda>n. map (\<lambda>p. the (part_at pages p)) (places_on pages n)) [1..<Suc (length pages)])"
    by (auto simp: o_def page_parts_at simp del: upt_Suc One_nat_def intro!: arg_cong [of _ _ concat])
  then show ?thesis by (simp add: places_of_def map_concat o_def del: upt_Suc)
qed

subsection \<open>Choosing a handler\<close>

lemma handlers_eq: "handlers = [PDFContentHandler, TextContentHandler]"
  by code_simp

lemma initialize_handlers_sorted:
  "sorted_wrt (\<lambda>h k. get_priority k \<le> get_priority h) (initialize_handlers hs)"
proof -
  have "sorted_wrt (\<lambda>h k. get_priority h \<le> get_priority k) (sort_key get_priority (rev hs))"
    using sorted_sort_key [of get_priority "rev hs"] by (simp add: sorted_map)
  then show ?thesis by (simp add: initialize_handlers_def sorted_wrt_rev)
qed

lemma initialize_handlers_set: "set (initialize_handlers hs) = set hs"
  by (simp add: initialize_handlers_def)
subsection \<open>The contract of a content handler\<close>

text \<open>\<open>BaseContentHandler\<close> promises that \<open>extract_text\<close> raises nothing but
  \<open>ContentHandlingError\<close>. Whoever calls a handler through \<open>get_handler\<close> relies on it.\<close>

locale content_handler =
  fixes extraction :: "bytes \<Rightarrow> string \<Rightarrow> string \<Rightarrow> exn + string"
  assumes extract_raises: "extraction raw ct ext = Inl e \<Longrightarrow> \<exists>m. e = ContentHandlingError m"
begin

lemma extract_cases:
  "(\<exists>s. extraction raw ct ext = Inr s) \<or> (\<exists>m. extraction raw ct ext = Inl (ContentHandlingError m))"
  using extract_raises by (cases "extraction raw ct ext") auto

lemma extract_after_choice:
  assumes "sum_bind choice (\<lambda>h. extraction raw ct ext) = Inl e"
    and "\<And>e. choice = Inl e \<Longrightarrow> \<exists>m. e = ContentHandlingError m"
  shows "\<exists>m. e = ContentHandlingError m"
  using assms extract_raises by (cases choice) auto

end

lemma text_extract_text_total: "\<exists>s. text_extract_text E raw ct ext = Inr s"
  by (simp add: text_extract_text_def split: option.split)

interpretation text_handler: content_handler "text_extract_text E" for E
  by unfold_locales (metis text_extract_text_total sum.distinct(1))

interpretation pdf_handler: content_handler "pdf_extract_text E" for E
  by unfold_locales (auto simp: pdf_extract_text_def Let_def split: if_splits)

interpretation any_handler: content_handler "handler_extract_text E h" for E h
  by (cases h) (simp_all add: text_handler.content_handler_axioms pdf_handler.content_handler_axioms)

lemma get_handler_raises: "get_handler E hs raw ct ext = Inl e \<Longrightarrow> \<exists>m. e = ContentHandlingError m"
  by (induction hs) (auto split: sum.splits bool.splits)

lemma get_handler_Inr: "get_handler E hs raw ct ext = Inr h \<Longrightarrow> h \<in> set hs \<and> can_handle E h raw ct ext = Inr True"
  by (induction hs) (auto split: sum.splits bool.splits)

subsection \<open>Properties\<close>

text \<open>C35: The order in which encodings are tried. \<open>TextContentHandler.extract_text\<close> never fails. The charset
  that the content type declares comes first, when the bytes decode by it. Without a declared charset, well-formed
  UTF-8 is returned as it is (a byte order mark included), otherwise chardet's guess where it is confident and
  decodes, otherwise Latin-1; after a declared charset that fails, chardet's guess comes before UTF-8. The encodings
  \<open>utf-8-sig\<close>, \<open>cp1252\<close> and \<open>iso-8859-1\<close> of the list and the decoding with replacement are never reached.\<close>

theorem text_decoding_order:
  "text_extract_text E raw ct ext = Inr
     (if raw = [] then ''''
      else case declared_decoding E raw ct of
          Some s \<Rightarrow> s
        | None \<Rightarrow>
            if utf8_valid raw \<and> (header_encoding ct = '''' \<or> confident_guess E raw = None) then raw
            else case confident_guess E raw of Some s \<Rightarrow> s | None \<Rightarrow> latin1_decode raw)"
proof (cases "header_encoding ct = ''''")
  case True
  then show ?thesis by (simp add: text_extract_text_def undeclared_order declared_decoding_def)
next
  case False
  then show ?thesis by (simp add: text_extract_text_def declared_order split: option.split)
qed

text \<open>A byte order mark stays in the text, although \<open>utf-8-sig\<close> is among the encodings.\<close>

lemma byte_order_mark_kept:
  assumes "header_encoding ct = ''''" and "utf8_valid s"
  shows "text_extract_text E (bom @ s) ct ext = Inr (bom @ s)"
proof -
  have "utf8_valid (bom @ s)" using assms(2) by (simp add: bom_def)
  with undeclared_order [OF assms(1)] show ?thesis by (simp add: text_extract_text_def)
qed

text \<open>C37: The parts of a PDF. When the file opens, the text is made of one part for the text of each page and for each
  of its tables, in the order of the pages and with the text of a page before its tables: the parts are exactly those
  with content that can be read, under a heading with their numbers and without white space around them, and they are
  separated by blank lines. When there is none, or the file does not open, \<open>ContentHandlingError\<close> is raised.\<close>

theorem pdf_extraction:
  "case pdf_open E raw of
     Inl e \<Rightarrow> pdf_extract_text E raw ct ext = Inl (ContentHandlingError ''Unable to extract text from PDF'')
   | Inr pages \<Rightarrow> (\<exists>places. sorted_wrt place_before places \<and> set places = {p. part_at pages p \<noteq> None} \<and>
       pdf_extract_text E raw ct ext =
         (if places = [] then Inl (ContentHandlingError ''Unable to extract text from PDF'')
          else Inr (py_join (nl @ nl) (map (\<lambda>p. the (part_at pages p)) places))))"
proof (cases "pdf_open E raw")
  case (Inr pages)
  have "pdf_extract_text E raw ct ext =
      (if places_of pages = [] then Inl (ContentHandlingError ''Unable to extract text from PDF'')
       else Inr (py_join (nl @ nl) (map (\<lambda>p. the (part_at pages p)) (places_of pages))))"
    by (simp only: pdf_extract_text_parts Inr Let_def page_parts_places sum.case list.map_disc_iff)
  with Inr show ?thesis by (simp only: sum.case, intro exI [of _ "places_of pages"] conjI places_sorted places_set refl)
qed (simp add: pdf_extract_text_parts)

text \<open>C38: Selection of the handler. The factory uses the PDF handler where it accepts the
  content, otherwise the text handler where it accepts, and otherwise raises
  \<open>ContentHandlingError\<close>; a handler whose check raises counts as not accepting.\<close>

theorem factory_selection:
  "extract_text E raw ct ext =
     (if pdf_can_handle E raw ct ext = Inr True then pdf_extract_text E raw ct ext
      else if text_can_handle E raw ct ext = Inr True then text_extract_text E raw ct ext
      else Inl (ContentHandlingError ''No suitable content handler found''))"
  by (auto simp: extract_text_def handlers_eq split: sum.splits bool.splits)

text \<open>C39: Errors of the factory. \<open>ContentHandlerFactory.extract_text\<close> raises nothing but
  \<open>ContentHandlingError\<close>, whatever pdfplumber and chardet do.\<close>

theorem factory_errors:
  assumes "extract_text E raw ct ext = Inl e"
  shows "\<exists>m. e = ContentHandlingError m"
proof (cases "get_handler E handlers raw ct ext")
  case (Inl e')
  with assms get_handler_raises [OF Inl] show ?thesis by (simp add: extract_text_def)
next
  case (Inr h)
  with assms show ?thesis by (auto simp: extract_text_def dest: any_handler.extract_raises)
qed

text \<open>C40: Binary content is refused. Content with a NUL byte in its first 1024 bytes, a content type
  that names no text type, and a non-empty extension other than \<open>.pdf\<close> has no handler: the text
  handler is not the fallback for every content that the comments in \<open>factory.py\<close> and
  \<open>text_handler.py\<close> call it.\<close>

theorem binary_content_refused:
  assumes "CHR 0x00 \<in> set (take 1024 raw)"
    and "\<not> list_ex (\<lambda>t. sublist t (py_lower ct)) text_content_types"
    and "ext \<noteq> ''''" and "py_lower ext \<noteq> ''.pdf''"
  shows "extract_text E raw ct ext = Inl (ContentHandlingError ''No suitable content handler found'')"
  using assms by (simp add: factory_selection pdf_can_handle_def text_can_handle_def Let_def)

theorem binary_content_refused_witness:
  "extract_text (sample_world JNull) [CHR 0x00] ''application/zip'' ''.zip''
     = Inl (ContentHandlingError ''No suitable content handler found'')"
proof -
  have "CHR 0x00 \<in> set (take 1024 [CHR 0x00])" by simp
  moreover have "\<not> list_ex (\<lambda>t. sublist t (py_lower ''application/zip'')) text_content_types"
    by code_simp
  moreover have "''.zip'' \<noteq> ''''" by simp
  moreover have "py_lower ''.zip'' \<noteq> ''.pdf''" by code_simp
  ultimately show ?thesis by (rule binary_content_refused)
qed

theorem factory_errors_witness:
  "\<exists>e m. extract_text (sample_world JNull) [CHR 0x00] ''application/zip'' ''.zip'' = Inl e \<and>
     e = ContentHandlingError m"
proof -
  have "get_handler (sample_world JNull) handlers [CHR 0x00] ''application/zip'' ''.zip'' =
      Inl (ContentHandlingError ''No suitable content handler found'')"
    by code_simp
  then have failed: "extract_text (sample_world JNull) [CHR 0x00] ''application/zip'' ''.zip'' =
      Inl (ContentHandlingError ''No suitable content handler found'')"
    by (simp add: extract_text_def)
  from factory_errors [OF this] failed show ?thesis by blast
qed

end
