(* ===== verification/Credentials.thy ===== *)
theory Credentials
  imports World
begin

section \<open>Configuration and credential providers\<close>

text \<open>
  \<open>jobs/autoindexer/config.py\<close>: the environment variables read at import, and
  \<open>jobs/autoindexer/credential_provider/\<close>: \<open>SecretCredentialProvider\<close> and
  \<open>AzureWorkloadIdentityProvider\<close>. The Azure identity library is a service.
\<close>

subsection \<open>config.py\<close>

definition get_required_env_var :: "env \<Rightarrow> string \<Rightarrow> exn + string" where
  "get_required_env_var E var_name =
     (case getenv E var_name of
        Some value \<Rightarrow> if value \<noteq> '''' then Inr value
          else Inl (OtherException (''Required environment variable '' @ [squote] @ var_name @ [squote] @ '' is not set.''))
      | None \<Rightarrow> Inl (OtherException (''Required environment variable '' @ [squote] @ var_name @ [squote] @ '' is not set.'')))"

record job_config =
  NAMESPACE :: string
  AUTOINDEXER_NAME :: string
  ACCESS_SECRET :: "string option"

definition read_config :: "env \<Rightarrow> exn + job_config" where
  "read_config E =
     sum_bind (get_required_env_var E ''NAMESPACE'') (\<lambda>ns.
     sum_bind (get_required_env_var E ''AUTOINDEXER_NAME'') (\<lambda>name.
       Inr \<lparr>NAMESPACE = ns, AUTOINDEXER_NAME = name, ACCESS_SECRET = getenv E ''ACCESS_SECRET''\<rparr>))"

subsection \<open>Providers\<close>

text \<open>\<open>az_credential\<close>: whether \<open>self.credential\<close> has been created.\<close>

record azure_provider =
  az_client_id :: json
  az_tenant_id :: json
  az_token_file_path :: json
  az_token_scopes :: "string list"
  az_credential :: bool

datatype credential_provider =
    SecretCredentialProvider string
  | AzureWorkloadIdentityProvider azure_provider

definition env_json :: "env \<Rightarrow> string \<Rightarrow> json" where
  "env_json E k = (case getenv E k of None \<Rightarrow> JNull | Some v \<Rightarrow> JStr v)"

definition py_or :: "json \<Rightarrow> json \<Rightarrow> json" where
  "py_or x y = (if truthy x then x else y)"

definition new_azure_provider :: "env \<Rightarrow> json \<Rightarrow> json \<Rightarrow> json \<Rightarrow> azure_provider" where
  "new_azure_provider E client_id tenant_id token_file_path =
     \<lparr>az_client_id = py_or client_id (env_json E ''AZURE_CLIENT_ID''),
      az_tenant_id = py_or tenant_id (env_json E ''AZURE_TENANT_ID''),
      az_token_file_path = py_or token_file_path (env_json E ''AZURE_FEDERATED_TOKEN_FILE''),
      az_token_scopes = py_split (case getenv E ''AZURE_TOKEN_SCOPE'' of None \<Rightarrow> '''' | Some v \<Rightarrow> v) '','',
      az_credential = False\<rparr>"

text \<open>\<open>AzureWorkloadIdentityProvider.get_token\<close>, on the provider: the credential is created once.\<close>

definition azure_get_token :: "env \<Rightarrow> (azure_provider, string) py" where
  "azure_get_token E =
     py_try
       (py_bind (py_self (\<lambda>p. p)) (\<lambda>p.
        py_seq
          (if az_credential p then py_return ()
           else py_seq
             (py_call (AzureCredential (az_client_id p) (az_tenant_id p) (az_token_file_path p)) (azure_new E))
             (py_set (\<lambda>p. p\<lparr>az_credential := True\<rparr>)))
          (py_call (AzureGetToken (az_token_scopes p)) (azure_token E))))
       (\<lambda>e. case e of
          ClientAuthenticationError m \<Rightarrow> py_raise (OtherException (''Failed to authenticate with Azure: '' @ m))
        | _ \<Rightarrow> py_raise (OtherException (''Failed to retrieve Azure AD token: '' @ exn_str e)))"

fun set_azure :: "azure_provider \<Rightarrow> credential_provider \<Rightarrow> credential_provider" where
  "set_azure p c = AzureWorkloadIdentityProvider p"

text \<open>\<open>get_token\<close> of the abstract class, on the provider object.\<close>

definition get_token :: "env \<Rightarrow> (credential_provider, string) py" where
  "get_token E =
     py_bind (py_self (\<lambda>p. p)) (\<lambda>provider. case provider of
        SecretCredentialProvider token \<Rightarrow> py_return token
      | AzureWorkloadIdentityProvider p \<Rightarrow> py_on (\<lambda>_. p) set_azure (azure_get_token E))"

subsection \<open>Facts\<close>

fun is_azure :: "call \<Rightarrow> bool" where
  "is_azure (AzureCredential a b c) = True"
| "is_azure (AzureGetToken scopes) = True"
| "is_azure _ = False"

lemma azure_get_token_emits: "emits is_azure (azure_get_token E)"
  unfolding azure_get_token_def
  by (intro emits_intros) (auto intro!: emits_intros split: exn.splits)

lemma get_token_emits [emits_intros]: "(\<And>c. is_azure c \<Longrightarrow> P c) \<Longrightarrow> emits P (get_token E)"
proof -
  assume P: "\<And>c. is_azure c \<Longrightarrow> P c"
  have azure: "emits P (py_on (\<lambda>_. p) set_azure (azure_get_token E))" for p :: azure_provider
    by (intro emits_on emits_mono [OF azure_get_token_emits] P)
  then show ?thesis
    unfolding get_token_def by (intro emits_intros) (auto intro: emits_intros split: credential_provider.split)
qed

subsection \<open>Properties\<close>

text \<open>C34: Azure tokens. The credential is created by the first call only: a call creates it when that has
  not been done, asks for a token when there is a credential, and makes no other
  call; the provider remembers that the creation succeeded.\<close>

theorem azure_credential_once:
  "new_calls (azure_get_token E) (p, t) =
    (let create = AzureCredential (az_client_id p) (az_tenant_id p) (az_token_file_path p)
     in if az_credential p then [AzureGetToken (az_token_scopes p)]
        else if isl (azure_new E create t) then [create] else [create, AzureGetToken (az_token_scopes p)]) \<and>
   az_credential (fst (snd (azure_get_token E (p, t)))) =
    (az_credential p \<or>
      \<not> isl (azure_new E (AzureCredential (az_client_id p) (az_tenant_id p) (az_token_file_path p)) t))"
  (is "?calls \<and> ?remembered")
proof -
  let ?c = "AzureCredential (az_client_id p) (az_tenant_id p) (az_token_file_path p)"
  let ?handler = "\<lambda>e. case e of
          ClientAuthenticationError m \<Rightarrow> py_raise (OtherException (''Failed to authenticate with Azure: '' @ m))
        | _ \<Rightarrow> py_raise (OtherException (''Failed to retrieve Azure AD token: '' @ exn_str e))"
  have handler: "\<exists>e'. (?handler e :: (azure_provider, string) py) = py_raise e'" for e
    by (cases e) auto
  have tried: "\<exists>r. py_try m ?handler \<sigma> = (r, snd (m \<sigma>))" for m :: "(azure_provider, string) py" and \<sigma>
  proof -
    obtain r \<sigma>' where m: "m \<sigma> = (r, \<sigma>')" by (cases "m \<sigma>")
    show ?thesis
    proof (cases r)
      case (Inl e)
      with handler [of e] m show ?thesis by (auto simp: py_try_def)
    next
      case (Inr x)
      with m show ?thesis by (simp add: py_try_def)
    qed
  qed
  show ?thesis
  proof -
    let ?body = "py_bind (py_self (\<lambda>p. p)) (\<lambda>p.
        py_seq
          (if az_credential p then py_return ()
           else py_seq
             (py_call (AzureCredential (az_client_id p) (az_tenant_id p) (az_token_file_path p)) (azure_new E))
             (py_set (\<lambda>p. p\<lparr>az_credential := True\<rparr>)))
          (py_call (AzureGetToken (az_token_scopes p)) (azure_token E)))"
    obtain r where run: "azure_get_token E (p, t) = (r, snd (?body (p, t)))"
      using tried [of ?body "(p, t)"] unfolding azure_get_token_def by blast
    show ?thesis
      unfolding new_calls_def run
      by (cases "az_credential p"; cases "azure_new E ?c t") (simp_all add: py_bind_def Let_def)
  qed
qed

definition sample_azure :: azure_provider where
  "sample_azure = new_azure_provider (sample_world JNull) (JStr ''client'') (JStr ''tenant'') (JStr ''/token'')"

theorem azure_credential_once_witness:
  "new_calls (azure_get_token (sample_world JNull)) (sample_azure, []) =
    [AzureCredential (JStr ''client'') (JStr ''tenant'') (JStr ''/token''), AzureGetToken ['''']]"
proof -
  have p: "az_client_id sample_azure = JStr ''client''" "az_tenant_id sample_azure = JStr ''tenant''"
    "az_token_file_path sample_azure = JStr ''/token''" "az_token_scopes sample_azure = ['''']"
    "\<not> az_credential sample_azure"
    by (simp_all add: sample_azure_def new_azure_provider_def sample_world_def py_or_def py_split_def)
  show ?thesis
    using azure_credential_once [of "sample_world JNull" sample_azure "[]"] p
    by (simp add: sample_world_def)
qed

text \<open>The token scopes are the parts of the environment variable: joined with commas they give it back.\<close>

theorem azure_scopes_roundtrip:
  "py_join '','' (az_token_scopes (new_azure_provider E client_id tenant_id token_file_path)) =
    (case getenv E ''AZURE_TOKEN_SCOPE'' of None \<Rightarrow> '''' | Some v \<Rightarrow> v)"
  by (simp add: new_azure_provider_def py_join_split)

end
