(* ===== verification/StaticHandler.thy ===== *)
theory StaticHandler
  imports Protocol Batching PyUrl ContentHandler Credentials
begin

section \<open>The static data source handler\<close>

text \<open>
  \<open>jobs/autoindexer/data_source_handler/static_handler.py\<close>: \<open>StaticDataSourceHandler\<close> downloads
  the configured URLs and indexes their text in batches of ten. The attributes \<open>errors\<close> and
  \<open>total_time\<close> do not exist before \<open>update_index\<close> sets them: \<open>None\<close> is the missing attribute.
\<close>

subsection \<open>The object\<close>

record static_handler =
  sh_index_name :: json
  sh_config :: json
  sh_credentials :: "credential_provider option"
  sh_rag_client :: rag_client
  sh_autoindexer_client :: k8s_client
  sh_autoindexer_name :: json
  sh_errors :: "string list option"
  sh_total_time :: "int option"

definition new_static_handler ::
  "json \<Rightarrow> json \<Rightarrow> rag_client \<Rightarrow> k8s_client \<Rightarrow> credential_provider option \<Rightarrow> exn + static_handler" where
  "new_static_handler index_name config rag k8s credentials =
     sum_bind (py_get config ''autoindexer_name'' JNull) (\<lambda>name.
       if \<not> truthy name
       then Inl (DataSourceError (''Static data source configuration missing '' @ py_repr ''autoindexer_name'' @ '' value''))
       else Inr \<lparr>sh_index_name = index_name, sh_config = config, sh_credentials = credentials,
              sh_rag_client = rag, sh_autoindexer_client = k8s, sh_autoindexer_name = name,
              sh_errors = None, sh_total_time = None\<rparr>)"

definition missing_attribute :: "string \<Rightarrow> exn" where
  "missing_attribute a =
     AttributeError (py_repr ''StaticDataSourceHandler'' @ '' object has no attribute '' @ py_repr a)"

definition static_errors :: "static_handler \<Rightarrow> exn + string list" where
  "static_errors h = (case sh_errors h of None \<Rightarrow> Inl (missing_attribute ''errors'') | Some es \<Rightarrow> Inr es)"

definition static_append_error :: "string \<Rightarrow> (static_handler, unit) py" where
  "static_append_error m =
     py_bind (py_bind (py_self static_errors) py_lift) (\<lambda>es.
       py_set (\<lambda>h. h\<lparr>sh_errors := Some (es @ [m])\<rparr>))"

subsection \<open>Downloading\<close>

definition request_headers :: "(string \<times> string) list" where
  "request_headers =
     [(''User-Agent'', ''KAITO-AutoIndexer/1.0''),
      (''Accept'', ''text/plain, text/markdown, text/x-markdown, application/json, text/html, */*''),
      (''Accept-Encoding'', ''gzip, deflate, br''),
      (''Cache-Control'', ''no-cache'')]"

text \<open>The loop over \<open>iter_content\<close>: the size is checked before a chunk is kept.\<close>

fun collect_chunks :: "json \<Rightarrow> int \<Rightarrow> bytes list \<Rightarrow> (exn + bytes) list \<Rightarrow> exn + bytes list" where
  "collect_chunks max_size total_size content_chunks [] = Inr content_chunks"
| "collect_chunks max_size total_size content_chunks (Inl e # chunks) = Inl e"
| "collect_chunks max_size total_size content_chunks (Inr chunk # chunks) =
     (if chunk = [] then collect_chunks max_size total_size content_chunks chunks
      else sum_bind (need_int max_size) (\<lambda>m.
        if total_size + int (length chunk) > m
        then Inl (DataSourceError (''File too large: exceeds limit of '' @ py_format max_size @ '' bytes''))
        else collect_chunks max_size (total_size + int (length chunk)) (content_chunks @ [chunk]) chunks))"

text \<open>The body of the \<open>with\<close> block: the response becomes text or an exception.\<close>

definition check_length :: "json \<Rightarrow> http_response \<Rightarrow> exn + unit" where
  "check_length max_size response =
     (case hr_content_length response of
        None \<Rightarrow> Inr ()
      | Some len \<Rightarrow>
          if len = '''' then Inr ()
          else sum_bind (py_int len) (\<lambda>n. sum_bind (need_int max_size) (\<lambda>m.
            if n > m then Inl (DataSourceError (''File too large: '' @ len @ '' bytes exceeds limit of '' @
                py_format max_size @ '' bytes''))
            else Inr ())))"

definition read_response :: "env \<Rightarrow> json \<Rightarrow> string \<Rightarrow> http_response \<Rightarrow> exn + string" where
  "read_response E max_size path response =
     (case hr_raise_for_status response of
        Some e \<Rightarrow> Inl e
      | None \<Rightarrow>
          sum_bind (check_length max_size response) (\<lambda>_.
          let content_type = py_lower (case hr_content_type response of None \<Rightarrow> '''' | Some ct \<Rightarrow> ct)
          in sum_bind (collect_chunks max_size 0 [] (hr_chunks response)) (\<lambda>content_chunks.
               extract_text E (concat content_chunks) content_type (py_lower (snd (splitext path))))))"

definition set_credentials :: "credential_provider \<Rightarrow> static_handler \<Rightarrow> static_handler" where
  "set_credentials c h = h\<lparr>sh_credentials := Some c\<rparr>"

definition static_headers :: "env \<Rightarrow> (static_handler, (string \<times> string) list) py" where
  "static_headers E =
     py_bind (py_self sh_credentials) (\<lambda>credentials.
       case credentials of
         None \<Rightarrow> py_return request_headers
       | Some c \<Rightarrow> py_bind (py_on (\<lambda>_. c) set_credentials (get_token E)) (\<lambda>token.
           py_return (request_headers @ [(''Authorization'', ''Bearer '' @ token)])))"

definition fetch_content_from_url :: "env \<Rightarrow> json \<Rightarrow> (static_handler, string) py" where
  "fetch_content_from_url E url =
     py_try
       (py_bind (py_lift (sum_bind (url_text url) urlparse)) (\<lambda>parsed_url.
        if pu_scheme parsed_url = '''' \<or> pu_netloc parsed_url = ''''
        then py_raise (DataSourceError (''Invalid URL format: '' @ py_format url))
        else
          py_bind (static_headers E) (\<lambda>headers.
          py_bind (py_self sh_config) (\<lambda>config.
          py_bind (py_lift (py_get config ''timeout'' (JInt 60))) (\<lambda>timeout.
          py_bind (py_lift (py_get config ''max_file_size'' (JInt (100 * 1024 * 1024)))) (\<lambda>max_size.
          py_bind (py_call (HttpGet (py_format url) headers timeout) (http_get E)) (\<lambda>response.
            py_lift (read_response E max_size (pu_path parsed_url) response))))))))
       (\<lambda>e. case e of
          RequestException m \<Rightarrow> py_raise (DataSourceError (''HTTP error fetching '' @ py_format url @ '': '' @ m))
        | _ \<Rightarrow> py_raise (DataSourceError (''Error fetching content from '' @ py_format url @ '': '' @ exn_str e)))"

subsection \<open>Indexing\<close>

text \<open>The document made from the content of a URL; \<open>ext\<close> is the extension of its path.\<close>

definition url_document :: "json \<Rightarrow> json \<Rightarrow> string \<Rightarrow> string \<Rightarrow> string \<Rightarrow> document" where
  "url_document autoindexer_name url content timestamp ext =
     (let language = get_file_extension_language ext
      in \<lparr>doc_text = content,
          doc_metadata =
            [(''autoindexer'', autoindexer_name), (''source_type'', JStr ''url''), (''source_url'', url),
             (''timestamp'', JStr timestamp)] @
            (if language \<noteq> '''' then [(''language'', JStr language), (''split_type'', JStr ''code'')] else []),
          doc_id = None\<rparr>)"

definition url_extension :: "json \<Rightarrow> exn + string" where
  "url_extension url =
     sum_bind (sum_bind (url_text url) urlparse) (\<lambda>u. Inr (snd (splitext (pu_path u))))"

text \<open>What the loop does with the content of one URL, before its exception handler.\<close>

definition static_add_url :: "env \<Rightarrow> json \<Rightarrow> document list \<Rightarrow> (static_handler, document list) py" where
  "static_add_url E url documents =
     py_bind (fetch_content_from_url E url) (\<lambda>content.
       if content = '''' then py_return documents
       else
         py_bind (py_self (\<lambda>h. h)) (\<lambda>h.
         py_bind (now_iso E) (\<lambda>timestamp.
         py_bind (py_lift (url_extension url)) (\<lambda>ext.
         (let documents' = documents @ [url_document (sh_autoindexer_name h) url content timestamp ext]
          in if length documents' \<ge> 10
             then py_seq (index_documents E (sh_rag_client h) (sh_index_name h) documents') (py_return [])
             else py_return documents')))))"

definition url_error :: "json \<Rightarrow> string \<Rightarrow> string" where
  "url_error url m = ''Failed to fetch content from '' @ py_format url @ '': '' @ m"

definition static_step :: "env \<Rightarrow> json \<Rightarrow> document list \<Rightarrow> (static_handler, document list) py" where
  "static_step E url documents =
     py_try (static_add_url E url documents)
       (\<lambda>e. let m = url_error url (exn_str e)
            in py_seq (static_append_error m) (py_raise (DataSourceError m)))"

text \<open>The \<open>try\<close> block of \<open>update_index\<close>: \<open>Some\<close> is the early return.\<close>

definition static_index_urls :: "env \<Rightarrow> (static_handler, string list option) py" where
  "static_index_urls E =
     py_bind (py_self sh_config) (\<lambda>config.
     py_bind (py_lift (py_in ''urls'' config)) (\<lambda>present.
       if \<not> present then py_return (Some [''No documents fetched from static data source''])
       else
         py_bind (py_lift (py_item config ''urls'')) (\<lambda>urls.
         py_bind (py_lift (case urls of JStr u \<Rightarrow> Inr [urls] | _ \<Rightarrow> py_iter urls)) (\<lambda>url_list.
         py_bind (py_for (static_step E) url_list []) (\<lambda>documents.
         py_bind (py_self (\<lambda>h. h)) (\<lambda>h.
           if documents \<noteq> []
           then py_seq (index_documents E (sh_rag_client h) (sh_index_name h) documents) (py_return None)
           else py_return None))))))"

definition static_update_index :: "env \<Rightarrow> (static_handler, string list) py" where
  "static_update_index E =
     py_seq (py_set (\<lambda>h. h\<lparr>sh_errors := Some []\<rparr>))
     (py_bind (now E) (\<lambda>start_time.
      py_bind
        (py_try (static_index_urls E)
          (\<lambda>e. case e of
             DataSourceError m \<Rightarrow> py_seq (static_append_error (''Data source error: '' @ m)) (py_return None)
           | _ \<Rightarrow> py_seq (static_append_error (''Unexpected error during indexing: '' @ exn_str e)) (py_return None)))
        (\<lambda>early. case early of
           Some errors \<Rightarrow> py_return errors
         | None \<Rightarrow>
             py_bind (now E) (\<lambda>end_time.
             py_seq (py_set (\<lambda>h. h\<lparr>sh_total_time := Some (end_time - start_time)\<rparr>))
               (py_bind (py_self static_errors) py_lift)))))"

subsection \<open>Status\<close>

definition static_update_autoindexer_status :: "env \<Rightarrow> (static_handler, unit) py" where
  "static_update_autoindexer_status E =
     py_bind (py_self (\<lambda>h. h)) (\<lambda>h.
     py_bind (py_lift (static_errors h)) (\<lambda>errors.
     py_bind (py_lift (case sh_total_time h of None \<Rightarrow> Inl (missing_attribute ''total_time'') | Some t \<Rightarrow> Inr t)) (\<lambda>total_time.
       write_base_status E (sh_index_name h) (sh_autoindexer_name h) (sh_rag_client h) (sh_autoindexer_client h)
         errors (if total_time \<noteq> 0 then td_seconds total_time else 0) [])))"

subsection \<open>Facts about one URL\<close>

text \<open>The part of the object that indexing does not change.\<close>

definition static_fixed :: "static_handler \<Rightarrow> static_handler" where
  "static_fixed h = h\<lparr>sh_errors := None, sh_total_time := None, sh_credentials := None\<rparr>"

lemma static_fixed_simps [simp]:
  "static_fixed (h\<lparr>sh_errors := x\<rparr>) = static_fixed h"
  "static_fixed (h\<lparr>sh_total_time := y\<rparr>) = static_fixed h"
  "static_fixed (set_credentials c h) = static_fixed h"
  "sh_autoindexer_name (static_fixed h) = sh_autoindexer_name h"
  "sh_config (static_fixed h) = sh_config h"
  "sh_index_name (static_fixed h) = sh_index_name h"
  "sh_rag_client (static_fixed h) = sh_rag_client h"
  by (simp_all add: static_fixed_def set_credentials_def)

lemma static_append_error_emits [emits_intros]: "emits P (static_append_error m)"
  unfolding static_append_error_def by (intro emits_intros)

lemma static_append_error_keeps [frame_intros]: "keeps static_fixed (static_append_error m)"
  unfolding static_append_error_def by (intro frame_intros) simp

lemma fetch_emits:
  assumes "\<And>c. is_azure c \<Longrightarrow> P c" "\<And>u hs tm. P (HttpGet u hs tm)"
  shows "emits P (fetch_content_from_url E url)"
  unfolding fetch_content_from_url_def static_headers_def
  by (intro emits_intros assms) (auto intro!: emits_intros split: exn.splits)

lemma fetch_keeps [frame_intros]: "keeps static_fixed (fetch_content_from_url E url)"
  unfolding fetch_content_from_url_def static_headers_def
  by (intro frame_intros) (auto intro!: frame_intros split: exn.splits)

lemma is_azure_quiet: "is_azure c \<Longrightarrow> quiet c"
  by (cases c) simp_all

lemma fetch_run:
  obtains r h' u where "fetch_content_from_url E url (h, t) = (r, h', t @ u)"
    and "list_all quiet u" and "static_fixed h' = static_fixed h"
proof -
  obtain r h' t' where run: "fetch_content_from_url E url (h, t) = (r, h', t')" by (metis prod.collapse)
  have "emits quiet (fetch_content_from_url E url)"
    by (rule fetch_emits) (simp_all add: is_azure_quiet)
  from emitsD [OF this, of "(h, t)"] run obtain u where "t' = t @ u" "list_all quiet u" by auto
  moreover have "static_fixed h' = static_fixed h" using keepsD [OF fetch_keeps run] by simp
  ultimately show ?thesis using run that by blast
qed

text \<open>What the loop may make of a URL: nothing from an empty text, or the document of its text.\<close>

definition static_made :: "env \<Rightarrow> static_handler \<Rightarrow> json \<Rightarrow> document list \<Rightarrow> bool" where
  "static_made E h0 url new \<longleftrightarrow>
     (\<exists>h t content. static_fixed h = h0 \<and> fst (fetch_content_from_url E url (h, t)) = Inr content \<and>
        (if content = '''' then new = []
         else \<exists>timestamp ext. url_extension url = Inr ext \<and>
                new = [url_document (sh_autoindexer_name h0) url content timestamp ext]))"

lemma static_add_url_run:
  assumes "length docs < 10" and "static_add_url E url docs (h, t) = (r, h', t')"
  shows "\<exists>u. t' = t @ u \<and> static_fixed h' = static_fixed h \<and> list_all (\<lambda>b. length b = 10) (indexed_batches u) \<and>
    (\<forall>docs'. r = Inr docs' \<longrightarrow> length docs' < 10 \<and>
      (\<exists>new. static_made E (static_fixed h) url new \<and> concat (indexed_batches u) @ docs' = docs @ new)) \<and>
    (isl r \<longrightarrow> (\<exists>new. (new = [] \<or> static_made E (static_fixed h) url new) \<and>
      prefix (concat (indexed_batches u)) (docs @ new)))"
proof -
  obtain rf hf u where f: "fetch_content_from_url E url (h, t) = (rf, hf, t @ u)"
    "list_all quiet u" "static_fixed hf = static_fixed h" by (rule fetch_run)
  have nw: "indexed_batches u = []" using f(2) by (intro no_index_no_batches) (simp add: list_all_iff)
  have made: "static_made E (static_fixed h) url new"
    if "rf = Inr content" "if content = '''' then new = [] else \<exists>timestamp ext. url_extension url = Inr ext \<and>
        new = [url_document (sh_autoindexer_name h) url content timestamp ext]" for content new
    unfolding static_made_def using that f(1)
    by (intro exI [of _ h] exI [of _ t] exI [of _ content]) simp
  consider (failed) e where "rf = Inl e" | (empty) "rf = Inr ''''"
    | (ext) content e where "rf = Inr content" "content \<noteq> ''''" "url_extension url = Inl e"
    | (doc) content ext where "rf = Inr content" "content \<noteq> ''''" "url_extension url = Inr ext"
    by (cases rf; cases "url_extension url") auto
  then show ?thesis
  proof cases
    case failed
    with assms(2) f nw show ?thesis by (auto simp: static_add_url_def py_bind_def)
  next
    case empty
    with assms f nw made [OF empty, of "[]"] show ?thesis by (auto simp: static_add_url_def py_bind_def)
  next
    case ext
    with assms(2) f nw show ?thesis by (auto simp: static_add_url_def py_bind_def)
  next
    case doc
    define d where "d = url_document (sh_autoindexer_name hf) url content
      (iso_utc (clock_now E ClockNow (t @ u))) ext"
    have an: "sh_autoindexer_name hf = sh_autoindexer_name h"
      using arg_cong [OF f(3), of sh_autoindexer_name] by simp
    have m: "static_made E (static_fixed h) url [d]"
      using made [OF doc(1), of "[d]"] doc(2,3) by (auto simp: d_def an)
    show ?thesis
    proof (cases "length docs = 9")
      case True
      with assms f nw doc m show ?thesis
        by (cases "rag_write E (RagIndex (rc_base_url (sh_rag_client hf)) (sh_index_name hf) (docs @ [d])) (t @ u @ [ClockNow])")
          (auto simp: static_add_url_def py_bind_def index_documents_def Let_def d_def [symmetric])
    next
      case False
      with assms f nw doc m show ?thesis
        by (auto simp: static_add_url_def py_bind_def Let_def d_def [symmetric])
    qed
  qed
qed

lemma static_step_run:
  assumes "length docs < 10" and "static_step E url docs (h, t) = (r, h', t')"
  shows "\<exists>u. t' = t @ u \<and> static_fixed h' = static_fixed h \<and> list_all (\<lambda>b. length b = 10) (indexed_batches u) \<and>
    (\<forall>docs'. r = Inr docs' \<longrightarrow> length docs' < 10 \<and>
      (\<exists>new. static_made E (static_fixed h) url new \<and> concat (indexed_batches u) @ docs' = docs @ new)) \<and>
    (isl r \<longrightarrow> (\<exists>new. (new = [] \<or> static_made E (static_fixed h) url new) \<and>
      prefix (concat (indexed_batches u)) (docs @ new)))"
proof -
  obtain r1 h1 t1 where s: "static_add_url E url docs (h, t) = (r1, h1, t1)" by (metis prod.collapse)
  show ?thesis
  proof (cases r1)
    case (Inr docs1)
    with s assms(2) have "r = Inr docs1" "h' = h1" "t' = t1" by (simp_all add: static_step_def py_try_def)
    with static_add_url_run [OF assms(1) s] Inr show ?thesis by simp
  next
    case (Inl e)
    with s assms(2) have "isl r" "t' = t1" "static_fixed h' = static_fixed h1"
      by (auto simp: static_step_def static_append_error_def static_errors_def py_try_def py_bind_def Let_def
        split: option.splits)
    with static_add_url_run [OF assms(1) s] Inl show ?thesis by auto
  qed
qed

interpretation static_batches: batching "static_step E" 10 indexed_batches "\<lambda>docs. docs" static_fixed "static_made E" for E
  by unfold_locales (use static_step_run in auto)

subsection \<open>The whole run\<close>

lemma static_add_url_keeps_errors: "keeps sh_errors (static_add_url E url docs)"
proof -
  have fetch: "keeps sh_errors (fetch_content_from_url E url)"
    unfolding fetch_content_from_url_def static_headers_def
    by (intro frame_intros) (auto intro!: frame_intros simp: set_credentials_def split: exn.splits)
  show ?thesis unfolding static_add_url_def by (intro frame_intros fetch)
qed

lemma static_append_error_run:
  "sh_errors h = Some es \<Longrightarrow> static_append_error m (h, t) = (Inr (), h\<lparr>sh_errors := Some (es @ [m])\<rparr>, t)"
  by (simp add: static_append_error_def static_errors_def py_bind_def)

lemma static_step_errors:
  assumes "sh_errors h = Some es" and "static_step E url docs (h, t) = (r, h', t')"
  shows "(\<exists>docs'. r = Inr docs' \<and> sh_errors h' = Some es) \<or>
    (\<exists>m. r = Inl (DataSourceError (url_error url m)) \<and> sh_errors h' = Some (es @ [url_error url m]))"
proof -
  obtain r1 h1 t1 where s: "static_add_url E url docs (h, t) = (r1, h1, t1)" by (metis prod.collapse)
  have e1: "sh_errors h1 = Some es" using keepsD [OF static_add_url_keeps_errors s] assms(1) by simp
  show ?thesis
  proof (cases r1)
    case (Inr docs1)
    with assms(2) s have "r = Inr docs1" "h' = h1" by (simp_all add: static_step_def py_try_def)
    with e1 show ?thesis by simp
  next
    case (Inl e)
    let ?m = "url_error url (exn_str e)"
    have "static_step E url docs (h, t) = (Inl (DataSourceError ?m), h1\<lparr>sh_errors := Some (es @ [?m])\<rparr>, t1)"
      using s Inl
      by (simp add: static_step_def py_try_def py_bind_def Let_def static_append_error_run [OF e1])
    with assms(2) have "r = Inl (DataSourceError ?m)" "sh_errors h' = Some (es @ [?m])" by auto
    then show ?thesis by blast
  qed
qed

lemma static_loop_errors:
  assumes "sh_errors h = Some es" and "py_for (static_step E) urls docs (h, t) = (r, h', t')"
  shows "(\<exists>docs'. r = Inr docs' \<and> sh_errors h' = Some es) \<or>
    (\<exists>url\<in>set urls. \<exists>m. r = Inl (DataSourceError (url_error url m)) \<and> sh_errors h' = Some (es @ [url_error url m]))"
  using assms
proof (induction urls arbitrary: docs h t)
  case Nil
  then show ?case by auto
next
  case (Cons url urls)
  obtain r1 h1 t1 where s: "static_step E url docs (h, t) = (r1, h1, t1)" by (metis prod.collapse)
  from static_step_errors [OF Cons.prems(1) s]
  consider docs1 where "r1 = Inr docs1" "sh_errors h1 = Some es"
    | m where "r1 = Inl (DataSourceError (url_error url m))" "sh_errors h1 = Some (es @ [url_error url m])" by blast
  then show ?case
  proof cases
    case 1
    with Cons.prems(2) s have "py_for (static_step E) urls docs1 (h1, t1) = (r, h', t')"
      by (simp add: py_bind_def)
    from Cons.IH [OF 1(2) this] show ?thesis by auto
  next
    case 2
    with Cons.prems(2) s show ?thesis by (auto simp: py_bind_def)
  qed
qed

text \<open>The run of the block that indexes a list of URLs: the loop and the last batch.\<close>

lemma static_index_urls_run:
  assumes "jget (sh_config h) ''urls'' = Some (JList urls)" and "sh_errors h = Some []"
    and "static_index_urls E (h, t) = (r, h', t')"
  obtains u where "t' = t @ u" and "static_fixed h' = static_fixed h"
    and "list_all (\<lambda>b. b \<noteq> [] \<and> length b \<le> 10) (indexed_batches u)"
    and "\<exists>k news. list_all2 (static_made E (static_fixed h)) (take k urls) news \<and>
      prefix (concat (indexed_batches u)) (concat news)"
    and "(r = Inr None \<and> sh_errors h' = Some [] \<and>
        (\<exists>news. list_all2 (static_made E (static_fixed h)) urls news \<and> concat (indexed_batches u) = concat news)) \<or>
      (\<exists>url\<in>set urls. \<exists>m. r = Inl (DataSourceError (url_error url m)) \<and> sh_errors h' = Some [url_error url m]) \<or>
      (\<exists>e. r = Inl e \<and> sh_errors h' = Some [])"
proof -
  obtain kvs where cfg: "sh_config h = JDict kvs" using assms(1) by (cases "sh_config h") auto
  obtain r1 h1 t1 where loop: "py_for (static_step E) urls [] (h, t) = (r1, h1, t1)" by (metis prod.collapse)
  from static_batches.loop_batches [OF _ loop] obtain u where u: "t1 = t @ u" "static_fixed h1 = static_fixed h"
    "list_all (\<lambda>b. length b = 10) (indexed_batches u)"
    "\<forall>docs'. r1 = Inr docs' \<longrightarrow> length docs' < 10 \<and>
      (\<exists>news. list_all2 (static_made E (static_fixed h)) urls news \<and> concat (indexed_batches u) @ docs' = [] @ concat news)"
    "isl r1 \<longrightarrow> (\<exists>k news. list_all2 (static_made E (static_fixed h)) (take k urls) news \<and>
      prefix (concat (indexed_batches u)) ([] @ concat news))"
    by auto
  have small: "list_all (\<lambda>b. b \<noteq> [] \<and> length b \<le> 10) (indexed_batches u)"
    using u(3) by (auto simp: list_all_iff)
  have run: "static_index_urls E (h, t) =
      (case r1 of Inl e \<Rightarrow> (Inl e, h1, t1) | Inr docs \<Rightarrow>
         if docs = [] then (Inr None, h1, t1)
         else py_seq (index_documents E (sh_rag_client h1) (sh_index_name h1) docs) (py_return None) (h1, t1))"
    using assms(1) by (auto simp: static_index_urls_def py_bind_def cfg loop split: sum.splits)
  from static_loop_errors [OF assms(2) loop]
  consider docs where "r1 = Inr docs" "sh_errors h1 = Some []"
    | url m where "url \<in> set urls" "r1 = Inl (DataSourceError (url_error url m))" "sh_errors h1 = Some [url_error url m]"
    by auto
  then show ?thesis
  proof cases
    case 2
    then show ?thesis using run assms(3) u small by (intro that [of u]) auto
  next
    case 1
    from u(4) 1 obtain news where news: "length docs < 10" "list_all2 (static_made E (static_fixed h)) urls news"
      "concat (indexed_batches u) @ docs = concat news" by auto
    have part: "\<exists>k news. list_all2 (static_made E (static_fixed h)) (take k urls) news \<and> prefix ds (concat news)"
      if "prefix ds (concat news)" for ds
      using that news(2) by (intro exI [of _ "length urls"] exI [of _ news]) simp
    show ?thesis
    proof (cases "docs = []")
      case True
      then show ?thesis using run assms(3) u(1,2) small news 1 part by (intro that [of u]) auto
    next
      case False
      let ?c = "RagIndex (rc_base_url (sh_rag_client h1)) (sh_index_name h1) docs"
      have "list_all (\<lambda>b. b \<noteq> [] \<and> length b \<le> 10) (indexed_batches (u @ [?c]))"
        "concat (indexed_batches (u @ [?c])) = concat news"
        using small False news by simp_all
      moreover have "t' = t @ u @ [?c]" "h' = h1" "r = Inr None \<or> isl r"
        using run assms(3) False 1 u(1)
        by (cases "rag_write E ?c t1"; simp add: py_bind_def index_documents_def)+
      ultimately show ?thesis using u(2) news 1 part by (intro that [of "u @ [?c]"]) (auto simp: isl_def)
    qed
  qed
qed

subsection \<open>Properties\<close>

lemma static_update_index_run:
  assumes "jget (sh_config h) ''urls'' = Some (JList urls)"
    and "static_update_index E (h, t) = (r, h', t')"
  obtains u errs where "t' = t @ u" and "r = Inr errs" and "sh_errors h' = Some errs" and "sh_total_time h' \<noteq> None"
    and "static_fixed h' = static_fixed h"
    and "list_all (\<lambda>b. b \<noteq> [] \<and> length b \<le> 10) (indexed_batches u)"
    and "\<exists>k news. list_all2 (static_made E (static_fixed h)) (take k urls) news \<and>
      prefix (concat (indexed_batches u)) (concat news)"
    and "(errs = [] \<and> (\<exists>news. list_all2 (static_made E (static_fixed h)) urls news \<and> concat (indexed_batches u) = concat news)) \<or>
      (\<exists>url\<in>set urls. \<exists>m. errs = [url_error url m, ''Data source error: '' @ url_error url m]) \<or>
      (\<exists>m. errs = [m])"
proof -
  let ?h0 = "h\<lparr>sh_errors := Some []\<rparr>"
  have cfg: "jget (sh_config ?h0) ''urls'' = Some (JList urls)" "sh_errors ?h0 = Some []" using assms(1) by simp_all
  obtain r1 h1 t1 where blk: "static_index_urls E (?h0, t @ [ClockNow]) = (r1, h1, t1)" by (metis prod.collapse)
  obtain u where u: "t1 = (t @ [ClockNow]) @ u" "static_fixed h1 = static_fixed ?h0"
    "list_all (\<lambda>b. b \<noteq> [] \<and> length b \<le> 10) (indexed_batches u)"
    "\<exists>k news. list_all2 (static_made E (static_fixed ?h0)) (take k urls) news \<and>
      prefix (concat (indexed_batches u)) (concat news)"
    "(r1 = Inr None \<and> sh_errors h1 = Some [] \<and>
        (\<exists>news. list_all2 (static_made E (static_fixed ?h0)) urls news \<and> concat (indexed_batches u) = concat news)) \<or>
      (\<exists>url\<in>set urls. \<exists>m. r1 = Inl (DataSourceError (url_error url m)) \<and> sh_errors h1 = Some [url_error url m]) \<or>
      (\<exists>e. r1 = Inl e \<and> sh_errors h1 = Some [])"
    by (rule static_index_urls_run [OF cfg blk])
  let ?tt = "Some (clock_now E ClockNow t1 - clock_now E ClockNow t)"
  have run: "static_update_index E (h, t) =
      (case r1 of
         Inl e \<Rightarrow> (case sh_errors h1 of
             Some es \<Rightarrow> (Inr (es @ [case e of DataSourceError m \<Rightarrow> ''Data source error: '' @ m | _ \<Rightarrow> ''Unexpected error during indexing: '' @ exn_str e]),
               h1\<lparr>sh_errors := Some (es @ [case e of DataSourceError m \<Rightarrow> ''Data source error: '' @ m | _ \<Rightarrow> ''Unexpected error during indexing: '' @ exn_str e]),
                  sh_total_time := ?tt\<rparr>, t1 @ [ClockNow])
           | None \<Rightarrow> undefined)
       | Inr None \<Rightarrow> (static_errors h1, h1\<lparr>sh_total_time := ?tt\<rparr>, t1 @ [ClockNow])
       | Inr (Some es) \<Rightarrow> (Inr es, h1, t1))" if "sh_errors h1 \<noteq> None"
    using that blk
    by (cases r1; cases "projl r1")
      (auto simp: static_update_index_def now_def py_bind_def py_try_def static_append_error_run static_errors_def
        split: option.splits)
  let ?v = "ClockNow # u @ [ClockNow]"
  have tr: "t1 @ [ClockNow] = t @ ?v" "indexed_batches ?v = indexed_batches u" using u(1) by simp_all
  from u(5) consider (ok) news where "r1 = Inr None" "sh_errors h1 = Some []"
      "list_all2 (static_made E (static_fixed h)) urls news" "concat (indexed_batches u) = concat news"
    | (url) url m where "url \<in> set urls" "r1 = Inl (DataSourceError (url_error url m))" "sh_errors h1 = Some [url_error url m]"
    | (other) e where "r1 = Inl e" "sh_errors h1 = Some []" by auto
  then show ?thesis
  proof cases
    case ok
    with run assms(2) tr have "r = Inr []" "h' = h1\<lparr>sh_total_time := ?tt\<rparr>" "t' = t @ ?v"
      by (auto simp: static_errors_def)
    with ok u(1-4) tr show ?thesis by (intro that [of ?v "[]"]) auto
  next
    case url
    let ?es = "[url_error url m, ''Data source error: '' @ url_error url m]"
    from url run assms(2) tr have "r = Inr ?es" "h' = h1\<lparr>sh_errors := Some ?es, sh_total_time := ?tt\<rparr>" "t' = t @ ?v"
      by auto
    with url u(1-4) tr show ?thesis by (intro that [of ?v ?es]) auto
  next
    case other
    let ?es = "[case e of DataSourceError m \<Rightarrow> ''Data source error: '' @ m | _ \<Rightarrow> ''Unexpected error during indexing: '' @ exn_str e]"
    from other run assms(2) tr have "r = Inr ?es" "h' = h1\<lparr>sh_errors := Some ?es, sh_total_time := ?tt\<rparr>" "t' = t @ ?v"
      by auto
    with other u(1-4) tr show ?thesis by (intro that [of ?v ?es]) auto
  qed
qed

subsection \<open>Stated properties\<close>

lemma collect_chunks_kept:
  "collect_chunks mx n acc chunks = Inr cs \<Longrightarrow>
    (\<forall>c\<in>set chunks. \<not> isl c) \<and> concat cs = concat acc @ concat (map projr chunks) \<and>
    (\<forall>m. need_int mx = Inr m \<longrightarrow> n \<le> m \<longrightarrow> n + int (length (concat (map projr chunks))) \<le> m)"
proof (induction mx n acc chunks rule: collect_chunks.induct)
  case (3 mx n acc chunk chunks)
  show ?case
  proof (cases "chunk = []")
    case True
    with 3 show ?thesis by simp
  next
    case False
    with "3.prems" obtain m where m: "need_int mx = Inr m" "n + int (length chunk) \<le> m"
      "collect_chunks mx (n + int (length chunk)) (acc @ [chunk]) chunks = Inr cs"
      by (auto simp: sum_bind_Inr_iff split: if_splits)
    have "\<not> n + int (length chunk) > m" using m(2) by simp
    from "3.IH"(2) [OF False this m(3)] m(1,2) show ?thesis by auto
  qed
qed auto

definition max_file_size :: "static_handler \<Rightarrow> json" where
  "max_file_size h = (case jget (sh_config h) ''max_file_size'' of None \<Rightarrow> JInt (100 * 1024 * 1024) | Some v \<Rightarrow> v)"

text \<open>C20: Downloads are whole and bounded. When the content of a URL is fetched, the URL has a scheme
  and a host, one request was made for it and answered without an HTTP error, the text is what
  the content handlers extract from all chunks of the answer in order, and those together are
  not larger than the limit.\<close>

theorem fetch_whole_and_bounded:
  assumes "fetch_content_from_url E url (h, t) = (Inr content, h', t')"
    and "need_int (max_file_size h) = Inr limit" and "0 \<le> limit"
  shows "\<exists>p headers timeout u response raw.
    sum_bind (url_text url) urlparse = Inr p \<and> pu_scheme p \<noteq> '''' \<and> pu_netloc p \<noteq> '''' \<and>
    t' = u @ [HttpGet (py_format url) headers timeout] \<and>
    http_get E (HttpGet (py_format url) headers timeout) u = Inr response \<and>
    hr_raise_for_status response = None \<and>
    (\<forall>c\<in>set (hr_chunks response). \<not> isl c) \<and> raw = concat (map projr (hr_chunks response)) \<and>
    int (length raw) \<le> limit \<and>
    extract_text E raw (py_lower (case hr_content_type response of None \<Rightarrow> '''' | Some ct \<Rightarrow> ct))
      (py_lower (snd (splitext (pu_path p)))) = Inr content"
proof -
  obtain p where p: "sum_bind (url_text url) urlparse = Inr p" "pu_scheme p \<noteq> ''''" "pu_netloc p \<noteq> ''''"
    using assms(1)
    by (auto simp: fetch_content_from_url_def py_try_def py_bind_def split: sum.splits if_splits exn.splits)
  obtain r1 h1 u where hd: "static_headers E (h, t) = (r1, h1, u)" by (metis prod.collapse)
  have "keeps sh_config (static_headers E)"
    unfolding static_headers_def by (intro frame_intros) (simp add: set_credentials_def)
  then have cfg: "sh_config h1 = sh_config h"
    using keepsD [of sh_config "static_headers E" "(h, t)"] hd by simp
  obtain headers timeout mx response where g: "r1 = Inr headers"
    "py_get (sh_config h) ''timeout'' (JInt 60) = Inr timeout"
    "py_get (sh_config h) ''max_file_size'' (JInt (100 * 1024 * 1024)) = Inr mx"
    "http_get E (HttpGet (py_format url) headers timeout) u = Inr response"
    "read_response E mx (pu_path p) response = Inr content" "t' = u @ [HttpGet (py_format url) headers timeout]"
    using assms(1) p hd cfg
    by (auto simp: fetch_content_from_url_def py_try_def py_bind_def split: sum.splits exn.splits)
  from g(3) have "is_dict (sh_config h)" using py_get_Inr is_dict_iff by blast
  with g(3) have mx: "mx = max_file_size h" by (auto simp: max_file_size_def split: option.splits)
  obtain cs where r: "hr_raise_for_status response = None" "collect_chunks mx 0 [] (hr_chunks response) = Inr cs"
    "extract_text E (concat cs) (py_lower (case hr_content_type response of None \<Rightarrow> '''' | Some ct \<Rightarrow> ct))
      (py_lower (snd (splitext (pu_path p)))) = Inr content"
    using g(5) by (auto simp: read_response_def sum_bind_Inr_iff Let_def split: option.splits)
  from collect_chunks_kept [OF r(2)] assms(2,3) mx
  have "\<forall>c\<in>set (hr_chunks response). \<not> isl c" "concat cs = concat (map projr (hr_chunks response))"
    "int (length (concat cs)) \<le> limit" by auto
  with p g(4,6) r(1,3) show ?thesis by (metis (no_types, lifting))
qed

definition sample_static :: static_handler where
  "sample_static = \<lparr>sh_index_name = JStr ''documentation-index'',
     sh_config = JDict [(''autoindexer_name'', JStr ''default_docs''),
       (''urls'', JList [JStr ''https://example.com/a.txt'', JStr ''https://example.com/b.py''])],
     sh_credentials = Some (SecretCredentialProvider ''s3cret''), sh_rag_client = new_rag_client ''http://rag'',
     sh_autoindexer_client = sample_client, sh_autoindexer_name = JStr ''default_docs'',
     sh_errors = None, sh_total_time = None\<rparr>"

definition sample_headers :: "(string \<times> string) list" where
  "sample_headers = request_headers @ [(''Authorization'', ''Bearer s3cret'')]"

lemma sample_fetch:
  "fetch_content_from_url (sample_world crd) (JStr ''https://example.com/a.txt'') (sample_static\<lparr>sh_errors := es\<rparr>, t) =
    (Inr ''hello'', sample_static\<lparr>sh_errors := es\<rparr>, t @ [HttpGet ''https://example.com/a.txt'' sample_headers (JInt 60)])"
  by code_simp

lemma sample_fetch2:
  "fetch_content_from_url (sample_world crd) (JStr ''https://example.com/b.py'') (sample_static\<lparr>sh_errors := es\<rparr>, t) =
    (Inr ''hello'', sample_static\<lparr>sh_errors := es\<rparr>, t @ [HttpGet ''https://example.com/b.py'' sample_headers (JInt 60)])"
  by code_simp

lemma sample_ext:
  "url_extension (JStr ''https://example.com/a.txt'') = Inr ''.txt''"
  "url_extension (JStr ''https://example.com/b.py'') = Inr ''.py''"
  by code_simp+

lemma sample_static_attributes:
  "sh_config sample_static = JDict [(''autoindexer_name'', JStr ''default_docs''),
     (''urls'', JList [JStr ''https://example.com/a.txt'', JStr ''https://example.com/b.py''])]"
  "sh_autoindexer_name sample_static = JStr ''default_docs''"
  by (simp_all add: sample_static_def)

theorem fetch_whole_and_bounded_witness:
  "\<exists>p headers timeout u response raw.
    sum_bind (url_text (JStr ''https://example.com/a.txt'')) urlparse = Inr p \<and>
    http_get (sample_world sample_resource) (HttpGet ''https://example.com/a.txt'' headers timeout) u = Inr response \<and>
    raw = concat (map projr (hr_chunks response)) \<and> int (length raw) \<le> 104857600"
proof -
  have limit: "need_int (max_file_size sample_static) = Inr 104857600" "0 \<le> (104857600::int)"
    by (simp_all add: max_file_size_def sample_static_def)
  have fetch: "fetch_content_from_url (sample_world sample_resource) (JStr ''https://example.com/a.txt'') (sample_static, []) =
      (Inr ''hello'', sample_static, [HttpGet ''https://example.com/a.txt'' sample_headers (JInt 60)])"
    using sample_fetch [of sample_resource None "[]"] by (simp add: sample_static_def)
  from fetch_whole_and_bounded [OF fetch limit] show ?thesis
    unfolding py_format.simps by (elim exE conjE) (intro exI conjI, assumption+)
qed

text \<open>C14: A run over a list of URLs. It never raises, and the errors it returns are those the status
  will show. Every batch sent to the RAG engine has one to ten documents. When there are no
  errors, the documents sent are exactly those made from the URLs, each once and in the order of
  the configuration, a URL with an empty text giving none; in any case they are an initial part
  of the documents made from the first URLs.\<close>

theorem static_index_urls_in_batches:
  assumes "jget (sh_config h) ''urls'' = Some (JList urls)"
  shows "\<exists>errs h' u. static_update_index E (h, t) = (Inr errs, h', t @ u) \<and>
    sh_errors h' = Some errs \<and> sh_total_time h' \<noteq> None \<and>
    list_all (\<lambda>b. b \<noteq> [] \<and> length b \<le> 10) (indexed_batches u) \<and>
    (errs = [] \<longrightarrow> (\<exists>news. list_all2 (static_made E (static_fixed h)) urls news \<and>
      concat (indexed_batches u) = concat news)) \<and>
    (\<exists>k news. list_all2 (static_made E (static_fixed h)) (take k urls) news \<and>
      prefix (concat (indexed_batches u)) (concat news))"
proof -
  obtain r h' t' where run: "static_update_index E (h, t) = (r, h', t')" by (metis prod.collapse)
  show ?thesis
    by (rule static_update_index_run [OF assms run]) (use run in auto)
qed

lemma sample_static_urls:
  "jget (sh_config sample_static) ''urls'' = Some (JList [JStr ''https://example.com/a.txt'', JStr ''https://example.com/b.py''])"
  by (simp add: sample_static_def)

lemma sample_static_run:
  "fst (static_update_index (sample_world sample_resource) (sample_static, [])) = Inr []"
  by (simp add: static_update_index_def static_index_urls_def static_step_def static_add_url_def static_errors_def
      now_def index_documents_def py_try_def py_bind_def Let_def sample_static_attributes sample_fetch sample_fetch2 sample_ext
      sample_world_def [THEN arg_cong, of rag_write])

theorem static_index_urls_in_batches_witness:
  "\<exists>h' u news. static_update_index (sample_world sample_resource) (sample_static, []) = (Inr [], h', u) \<and>
    list_all2 (static_made (sample_world sample_resource) (static_fixed sample_static))
      [JStr ''https://example.com/a.txt'', JStr ''https://example.com/b.py''] news \<and>
    concat (indexed_batches u) = concat news"
proof -
  obtain errs h' u where run: "static_update_index (sample_world sample_resource) (sample_static, []) = (Inr errs, h', [] @ u)"
    and news: "errs = [] \<longrightarrow> (\<exists>news. list_all2 (static_made (sample_world sample_resource) (static_fixed sample_static))
      [JStr ''https://example.com/a.txt'', JStr ''https://example.com/b.py''] news \<and> concat (indexed_batches u) = concat news)"
    using static_index_urls_in_batches [OF sample_static_urls, of "sample_world sample_resource" "[]"] by blast
  have "errs = []" using sample_static_run run by simp
  with run news show ?thesis by auto
qed

text \<open>What a run over a list of URLs comes to, without its exception handlers: the first URL that fails and its
  exception, or the documents that are left for the last batch.\<close>

fun static_progress :: "env \<Rightarrow> json list \<Rightarrow> document list \<Rightarrow> static_handler \<times> trace \<Rightarrow>
    (json \<times> exn) + (document list \<times> static_handler \<times> trace)" where
  "static_progress E [] docs \<sigma> = Inr (docs, \<sigma>)"
| "static_progress E (url # urls) docs \<sigma> =
     (case static_add_url E url docs \<sigma> of
        (Inl e, \<sigma>') \<Rightarrow> Inl (url, e)
      | (Inr docs', \<sigma>') \<Rightarrow> static_progress E urls docs' \<sigma>')"

definition batch_failure :: "exn \<Rightarrow> string" where
  "batch_failure e = (case e of
     DataSourceError m \<Rightarrow> ''Data source error: '' @ m
   | _ \<Rightarrow> ''Unexpected error during indexing: '' @ exn_str e)"

definition static_failures :: "env \<Rightarrow> json list \<Rightarrow> static_handler \<times> trace \<Rightarrow> string list" where
  "static_failures E urls \<sigma> =
     (case static_progress E urls [] \<sigma> of
        Inl (url, e) \<Rightarrow> [url_error url (exn_str e), ''Data source error: '' @ url_error url (exn_str e)]
      | Inr (docs, h, t) \<Rightarrow>
          if docs = [] then []
          else (case rag_write E (RagIndex (rc_base_url (sh_rag_client h)) (sh_index_name h) docs) t of
              Inr _ \<Rightarrow> []
            | Inl e \<Rightarrow> [batch_failure e]))"

lemma static_loop_progress:
  assumes "sh_errors h = Some es"
  shows "case static_progress E urls docs (h, t) of
      Inr (docs', h', t') \<Rightarrow> py_for (static_step E) urls docs (h, t) = (Inr docs', h', t') \<and> sh_errors h' = Some es
    | Inl (url, e) \<Rightarrow> \<exists>h' t'. py_for (static_step E) urls docs (h, t) = (Inl (DataSourceError (url_error url (exn_str e))), h', t') \<and>
        sh_errors h' = Some (es @ [url_error url (exn_str e)])"
  using assms
proof (induction urls arbitrary: docs h t)
  case (Cons url urls)
  obtain r h1 t1 where one: "static_add_url E url docs (h, t) = (r, h1, t1)" by (metis prod.collapse)
  have errors: "sh_errors h1 = Some es" using keepsD [OF static_add_url_keeps_errors one] Cons.prems by simp
  show ?case
  proof (cases r)
    case (Inl e)
    with one show ?thesis
      by (simp add: static_step_def py_try_def py_bind_def Let_def static_append_error_run [OF errors])
  next
    case (Inr docs1)
    with one Cons.IH [OF errors, of docs1 t1] show ?thesis
      by (simp add: static_step_def py_try_def py_bind_def split: sum.splits prod.splits)
  qed
qed simp

lemma static_update_index_failures:
  assumes "jget (sh_config h) ''urls'' = Some (JList urls)"
  shows "fst (static_update_index E (h, t)) = Inr (static_failures E urls (h\<lparr>sh_errors := Some []\<rparr>, t @ [ClockNow]))"
proof -
  let ?h0 = "h\<lparr>sh_errors := Some []\<rparr>"
  obtain kvs where cfg: "sh_config h = JDict kvs" using assms by (cases "sh_config h") auto
  have loop: "case static_progress E urls [] (?h0, t @ [ClockNow]) of
      Inr (docs', h', t') \<Rightarrow> py_for (static_step E) urls [] (?h0, t @ [ClockNow]) = (Inr docs', h', t') \<and> sh_errors h' = Some []
    | Inl (url, e) \<Rightarrow> \<exists>h' t'. py_for (static_step E) urls [] (?h0, t @ [ClockNow]) =
          (Inl (DataSourceError (url_error url (exn_str e))), h', t') \<and> sh_errors h' = Some ([] @ [url_error url (exn_str e)])"
    by (rule static_loop_progress) simp
  note defs = static_update_index_def static_index_urls_def now_def py_bind_def py_try_def static_failures_def
  show ?thesis
  proof (cases "static_progress E urls [] (?h0, t @ [ClockNow])")
    case (Inl p)
    obtain url e where p: "p = (url, e)" by (cases p)
    from loop obtain h1 t1 where run: "py_for (static_step E) urls [] (?h0, t @ [ClockNow]) =
        (Inl (DataSourceError (url_error url (exn_str e))), h1, t1)" and es: "sh_errors h1 = Some [url_error url (exn_str e)]"
      unfolding Inl p by auto
    show ?thesis
      using assms by (simp add: defs cfg run static_append_error_run [OF es] static_errors_def Inl p)
  next
    case (Inr p)
    obtain docs h1 t1 where p: "p = (docs, h1, t1)" by (cases p)
    have run: "py_for (static_step E) urls [] (?h0, t @ [ClockNow]) = (Inr docs, h1, t1)" and es: "sh_errors h1 = Some []"
      using loop unfolding Inr p by auto
    let ?c = "RagIndex (rc_base_url (sh_rag_client h1)) (sh_index_name h1) docs"
    show ?thesis
    proof (cases "docs = [] \<or> (\<exists>x. rag_write E ?c t1 = Inr x)")
      case True
      then show ?thesis
        using assms by (auto simp: defs cfg run index_documents_def static_errors_def Inr p es)
    next
      case False
      then obtain e where e: "docs \<noteq> []" "rag_write E ?c t1 = Inl e" by (cases "rag_write E ?c t1") auto
      then show ?thesis
        using assms
        by (cases e; simp add: defs cfg run index_documents_def static_append_error_run [OF es] static_errors_def Inr p batch_failure_def)
    qed
  qed
qed

text \<open>C30: The errors of a run over a list of URLs, exactly. The URLs are taken in turn. The first that fails ends the run: the errors
  are then its failure, and the same again as an error of the data source. When none fails, there are no
  errors, unless the engine refuses the last batch, which is one error.\<close>

theorem static_errors_of_run:
  assumes "jget (sh_config h) ''urls'' = Some (JList urls)"
  shows "fst (static_update_index E (h, t)) = Inr (static_failures E urls (h\<lparr>sh_errors := Some []\<rparr>, t @ [ClockNow]))"
  using assms by (rule static_update_index_failures)

definition offline_world :: env where
  "offline_world = (sample_world sample_resource)\<lparr>http_get := \<lambda>c t. Inl (RequestException ''connection refused'')\<rparr>"

lemma offline_run:
  "fst (static_update_index offline_world (sample_static, [])) =
    Inr [''Failed to fetch content from https://example.com/a.txt: HTTP error fetching https://example.com/a.txt: connection refused'',
      ''Data source error: Failed to fetch content from https://example.com/a.txt: HTTP error fetching https://example.com/a.txt: connection refused'']"
  by code_simp

theorem static_errors_of_run_witness:
  "static_failures offline_world [JStr ''https://example.com/a.txt'', JStr ''https://example.com/b.py'']
      (sample_static\<lparr>sh_errors := Some []\<rparr>, [ClockNow]) =
    [''Failed to fetch content from https://example.com/a.txt: HTTP error fetching https://example.com/a.txt: connection refused'',
     ''Data source error: Failed to fetch content from https://example.com/a.txt: HTTP error fetching https://example.com/a.txt: connection refused'']"
  using static_errors_of_run [OF sample_static_urls, of offline_world "[]"] unfolding offline_run by simp

text \<open>A configuration without \<open>urls\<close>, which no job of \<open>main.py\<close> gives a handler. The run returns an error, but neither records it nor sets
  the duration, so the status update that follows raises \<open>AttributeError\<close> without having made a
  call: the failure is not written to the resource by the handler.\<close>

theorem static_without_urls:
  assumes "is_dict (sh_config h)" and "jget (sh_config h) ''urls'' = None" and "sh_total_time h = None"
  shows "\<exists>h'. static_update_index E (h, t) =
      (Inr [''No documents fetched from static data source''], h', t @ [ClockNow]) \<and>
    sh_errors h' = Some [] \<and>
    static_update_autoindexer_status E (h', t') = (Inl (missing_attribute ''total_time''), h', t')"
  using assms
  by (simp add: static_update_index_def static_index_urls_def static_update_autoindexer_status_def
      static_errors_def now_def py_bind_def py_try_def)

definition sample_static_empty :: static_handler where
  "sample_static_empty = sample_static\<lparr>sh_config := JDict [(''autoindexer_name'', JStr ''default_docs'')]\<rparr>"

theorem static_without_urls_witness:
  "\<exists>h'. static_update_index (sample_world sample_resource) (sample_static_empty, []) =
      (Inr [''No documents fetched from static data source''], h', [ClockNow]) \<and>
    isl (fst (static_update_autoindexer_status (sample_world sample_resource) (h', [ClockNow])))"
proof -
  have cfg: "is_dict (sh_config sample_static_empty)" "jget (sh_config sample_static_empty) ''urls'' = None"
    "sh_total_time sample_static_empty = None"
    by (simp_all add: sample_static_empty_def sample_static_def)
  from static_without_urls [OF cfg, of "sample_world sample_resource" "[]" "[ClockNow]"] show ?thesis by auto
qed

subsection \<open>The handler as a data source\<close>

lemma static_fixed_client: "sh_autoindexer_client (static_fixed h) = sh_autoindexer_client h"
  by (simp add: static_fixed_def)

lemma static_update_index_keeps: "keeps static_fixed (static_update_index E)"
proof -
  have handler: "keeps static_fixed (case e of
             DataSourceError m \<Rightarrow> py_seq (static_append_error (''Data source error: '' @ m)) (py_return None)
           | _ \<Rightarrow> py_seq (static_append_error (''Unexpected error during indexing: '' @ exn_str e)) (py_return None))" for e
    by (cases e) (simp_all add: keeps_bind static_append_error_keeps keeps_basic)
  have step: "keeps static_fixed (static_step E url docs)" for url docs
    unfolding static_step_def static_add_url_def by (intro frame_intros)
  have urls: "keeps static_fixed (static_index_urls E)"
    unfolding static_index_urls_def by (intro frame_intros step)
  show ?thesis
    unfolding static_update_index_def by (intro frame_intros urls handler) simp_all
qed

lemma static_update_index_emits: "emits (\<lambda>c. \<not> is_k8s_write c) (static_update_index E)"
proof -
  have fetch: "emits (\<lambda>c. \<not> is_k8s_write c) (fetch_content_from_url E url)" for url
    by (rule fetch_emits) (auto simp: is_azure_quiet)
  have handler: "emits (\<lambda>c. \<not> is_k8s_write c) (case e of
             DataSourceError m \<Rightarrow> py_seq (static_append_error (''Data source error: '' @ m)) (py_return None)
           | _ \<Rightarrow> py_seq (static_append_error (''Unexpected error during indexing: '' @ exn_str e)) (py_return None))" for e
    by (cases e) (simp_all add: emits_bind static_append_error_emits emits_return)
  have step: "emits (\<lambda>c. \<not> is_k8s_write c) (static_step E url docs)" for url docs
    unfolding static_step_def static_add_url_def
    by (intro emits_intros static_append_error_emits fetch now_emits rag_client_emits) simp_all
  have urls: "emits (\<lambda>c. \<not> is_k8s_write c) (static_index_urls E)"
    unfolding static_index_urls_def by (intro emits_intros step rag_client_emits) simp_all
  show ?thesis
    unfolding static_update_index_def by (intro emits_intros urls handler now_emits) simp_all
qed

text \<open>Once \<open>errors\<close> is set it stays set.\<close>

abbreviation has_errors :: "static_handler \<Rightarrow> bool" where
  "has_errors h \<equiv> sh_errors h \<noteq> None"

lemma static_append_error_has_errors: "keeps has_errors (static_append_error m)"
  unfolding keeps_def static_append_error_def static_errors_def
  by (auto simp: py_bind_def split: option.split)

lemma static_index_urls_has_errors: "keeps has_errors (static_index_urls E)"
proof -
  have step: "keeps has_errors (static_step E url docs)" for url docs
    unfolding static_step_def
    by (intro keeps_try keeps_let keeps_bind static_append_error_has_errors keeps_basic)
      (use static_add_url_keeps_errors [of E url docs] in \<open>simp add: keeps_def\<close>)
  show ?thesis unfolding static_index_urls_def by (intro frame_intros step)
qed

lemma static_early_return:
  "static_index_urls E (h, t) = (Inr (Some es), h', t') \<Longrightarrow> es \<noteq> []"
  unfolding static_index_urls_def
  by (auto simp: py_bind_def split: prod.splits sum.splits if_splits)

text \<open>With \<open>urls\<close> in the configuration the run does not return early.\<close>

lemma static_no_early_return:
  "jget (sh_config h) ''urls'' \<noteq> None \<Longrightarrow> static_index_urls E (h, t) \<noteq> (Inr (Some es), h', t')"
  unfolding static_index_urls_def
  by (cases "sh_config h") (auto simp: py_bind_def split: prod.splits sum.splits if_splits)

lemma static_update_index_result:
  obtains es h' t' where "static_update_index E (h, t) = (Inr es, h', t')"
    and "es = [] \<longrightarrow> sh_errors h' = Some [] \<and> sh_total_time h' \<noteq> None"
    and "jget (sh_config h) ''urls'' \<noteq> None \<longrightarrow> sh_errors h' \<noteq> None \<and> sh_total_time h' \<noteq> None"
proof -
  let ?h0 = "h\<lparr>sh_errors := Some []\<rparr>"
  obtain r1 h1 t1 where urls: "static_index_urls E (?h0, t @ [ClockNow]) = (r1, h1, t1)" by (metis prod.collapse)
  obtain es1 where es1: "sh_errors h1 = Some es1" using keepsD [OF static_index_urls_has_errors urls] by auto
  show ?thesis
  proof (cases r1)
    case (Inr early)
    show ?thesis
    proof (cases early)
      case None
      then show ?thesis
        using urls Inr es1
        by (intro that [of es1 "h1\<lparr>sh_total_time := Some (clock_now E ClockNow t1 - clock_now E ClockNow t)\<rparr>" "t1 @ [ClockNow]"])
          (simp_all add: static_update_index_def py_bind_def py_try_def now_def static_errors_def)
    next
      case (Some es)
      then show ?thesis
        using urls Inr static_early_return [of E ?h0 "t @ [ClockNow]" es h1 t1]
          static_no_early_return [of ?h0 E "t @ [ClockNow]" es h1 t1]
        by (intro that [of es h1 t1]) (auto simp: static_update_index_def py_bind_def py_try_def now_def)
    qed
  next
    case (Inl e)
    obtain m where m: "(case e of
             DataSourceError m \<Rightarrow> py_seq (static_append_error (''Data source error: '' @ m)) (py_return None)
           | _ \<Rightarrow> py_seq (static_append_error (''Unexpected error during indexing: '' @ exn_str e)) (py_return None)) =
        (py_seq (static_append_error m) (py_return None) :: (static_handler, string list option) py)"
      by (cases e) (simp_all del: append_Cons)
    show ?thesis
      using urls Inl es1
      by (intro that [of "es1 @ [m]" "h1\<lparr>sh_errors := Some (es1 @ [m]),
            sh_total_time := Some (clock_now E ClockNow t1 - clock_now E ClockNow t)\<rparr>" "t1 @ [ClockNow]"])
        (simp_all add: static_update_index_def py_bind_def py_try_def now_def static_errors_def m static_append_error_run)
  qed
qed

definition static_recorded :: "static_handler \<Rightarrow> string list option" where
  "static_recorded h = (if sh_total_time h = None then None else sh_errors h)"

lemma static_urls_recorded:
  assumes "jget (sh_config h) ''urls'' \<noteq> None" and "static_update_index E (h, t) = (r, h', t')"
  shows "static_recorded h' \<noteq> None"
  using static_update_index_result [of E h t] assms by (auto simp: static_recorded_def)

interpretation static_source: data_source static_update_index static_update_autoindexer_status
  sh_autoindexer_client "\<lambda>h. True" static_recorded
proof
  fix E :: env and h h' :: static_handler and t t' :: trace and es :: "string list" and crd :: json
  show "never_raises (static_update_index E)"
    unfolding never_raises_def by (metis static_update_index_result fst_conv sum.disc(2) prod.collapse)
  show "emits (\<lambda>c. \<not> is_k8s_write c) (static_update_index E)" by (rule static_update_index_emits)
  have "keeps static_fixed (static_update_index E)" by (rule static_update_index_keeps)
  then show "keeps sh_autoindexer_client (static_update_index E)"
    unfolding keeps_def by (metis static_fixed_client)
  show "static_recorded h' = Some []" if "static_update_index E (h, t) = (Inr [], h', t')"
    using static_update_index_result [of E h t] that by (auto simp: static_recorded_def)
  show "reads_then P (static_update_autoindexer_status E)" if "\<And>p b. P (K8sPatchStatus p b)" for P
    unfolding static_update_autoindexer_status_def
    by (intro reads_then_bind emits_self emits_lift write_base_status_reads that)
  show "reported (sh_autoindexer_client h) es crd (new_calls (static_update_autoindexer_status E) (h, t))"
    if h: "static_recorded h = Some es" "kc_name (sh_autoindexer_client h) \<noteq> ''''"
      "resource_stays E (sh_autoindexer_client h) t crd" "wf_resource crd" "jget crd ''status'' \<noteq> None"
  proof -
    obtain tt where tt: "sh_total_time h = Some tt" "sh_errors h = Some es"
      using h(1) by (cases "sh_total_time h") (simp_all add: static_recorded_def)
    have run: "static_update_autoindexer_status E (h, t) =
        write_base_status E (sh_index_name h) (sh_autoindexer_name h) (sh_rag_client h) (sh_autoindexer_client h)
          es (if tt \<noteq> 0 then td_seconds tt else 0) [] (h, t)"
      using tt by (simp add: static_update_autoindexer_status_def static_errors_def py_bind_def)
    show ?thesis
      unfolding new_calls_def run
      by (rule write_base_status_reported [OF h(2-5), unfolded new_calls_def]) simp_all
  qed
  show "list_all (\<lambda>c. \<not> is_k8s_write c) (new_calls (static_update_autoindexer_status E) (h, t))"
    if "static_recorded h = None"
    using that by (cases "sh_errors h")
      (simp_all add: static_recorded_def static_update_autoindexer_status_def static_errors_def py_bind_def new_calls_def
        split: if_splits)
qed

end
