(* ===== verification/GitHandler.thy ===== *)
theory GitHandler
  imports Protocol Batching ContentHandler Credentials
begin

section \<open>The git data source handler\<close>

text \<open>
  \<open>jobs/autoindexer/data_source_handler/git_handler.py\<close>: \<open>GitDataSourceHandler\<close> clones a repository
  into a temporary directory and indexes either all files or those that changed since the commit
  indexed last. Git, the file system and the path matcher are parameters; \<open>relpath\<close> is used on
  paths below the working directory.
\<close>

subsection \<open>The object\<close>

text \<open>A matcher is given by its patterns; \<open>gh_repo\<close> says whether \<open>self.repo\<close> is set.\<close>

record git_handler =
  gh_index_name :: json
  gh_config :: json
  gh_credentials :: "credential_provider option"
  gh_rag_client :: rag_client
  gh_autoindexer_client :: k8s_client
  gh_autoindexer_name :: json
  gh_repository :: json
  gh_branch :: json
  gh_commit :: json
  gh_paths :: json
  gh_exclude_paths :: json
  gh_exclude_matcher :: "json option"
  gh_include_matcher :: "json option"
  gh_last_indexed_commit :: json
  gh_conditions :: json
  gh_work_dir :: "string option"
  gh_repo :: bool
  gh_errors :: "string list"
  gh_total_time :: "int option"
  gh_current_commit_hash :: "string option"

definition missing_value :: "string \<Rightarrow> string \<Rightarrow> exn" where
  "missing_value source key =
     DataSourceError (source @ '' data source configuration missing '' @ py_repr key @ '' value'')"

definition new_git_handler ::
  "json \<Rightarrow> json \<Rightarrow> rag_client \<Rightarrow> k8s_client \<Rightarrow> credential_provider option \<Rightarrow> exn + git_handler" where
  "new_git_handler index_name config rag k8s credentials =
     sum_bind (py_get config ''autoindexer_name'' JNull) (\<lambda>name.
     if \<not> truthy name then Inl (missing_value ''Git'' ''autoindexer_name'')
     else sum_bind (py_get config ''repository'' JNull) (\<lambda>repository.
     if \<not> truthy repository then Inl (missing_value ''Git'' ''repository'')
     else sum_bind (py_get config ''branch'' (JStr ''main'')) (\<lambda>branch.
     sum_bind (py_get config ''commit'' JNull) (\<lambda>commit.
     sum_bind (py_get config ''paths'' (JList [])) (\<lambda>paths.
     sum_bind (py_get config ''excludePaths'' (JList [])) (\<lambda>exclude_paths.
     sum_bind (py_get config ''lastIndexedCommit'' (JStr '''')) (\<lambda>last_indexed_commit.
     sum_bind (py_get config ''conditions'' (JList [])) (\<lambda>conditions.
       Inr \<lparr>gh_index_name = index_name, gh_config = config, gh_credentials = credentials,
            gh_rag_client = rag, gh_autoindexer_client = k8s, gh_autoindexer_name = name,
            gh_repository = repository, gh_branch = branch, gh_commit = commit, gh_paths = paths,
            gh_exclude_paths = exclude_paths,
            gh_exclude_matcher = (if truthy exclude_paths then Some exclude_paths else None),
            gh_include_matcher = (if truthy paths then Some paths else None),
            gh_last_indexed_commit = last_indexed_commit, gh_conditions = conditions,
            gh_work_dir = None, gh_repo = False, gh_errors = [], gh_total_time = None,
            gh_current_commit_hash = None\<rparr>))))))))"

definition git_append_error :: "string \<Rightarrow> (git_handler, unit) py" where
  "git_append_error m = py_set (\<lambda>h. h\<lparr>gh_errors := gh_errors h @ [m]\<rparr>)"

definition set_git_credentials :: "credential_provider \<Rightarrow> git_handler \<Rightarrow> git_handler" where
  "set_git_credentials c h = h\<lparr>gh_credentials := Some c\<rparr>"

text \<open>\<open>self.repo.head.commit.hexsha\<close>.\<close>

definition git_head_commit :: "env \<Rightarrow> (git_handler, string) py" where
  "git_head_commit E = py_call GitHeadCommit (git_head E)"

subsection \<open>Setting up the repository\<close>

text \<open>The URL to clone: the token goes into an HTTPS URL.\<close>

definition git_clone_url :: "env \<Rightarrow> (git_handler, string) py" where
  "git_clone_url E =
     py_bind (py_self (\<lambda>h. h)) (\<lambda>h.
     (case gh_credentials h of
        None \<Rightarrow> py_return (py_format (gh_repository h))
      | Some c \<Rightarrow>
          py_bind (py_lift (py_in ''https://'' (gh_repository h))) (\<lambda>https.
            if \<not> https then py_return (py_format (gh_repository h))
            else py_bind (py_on (\<lambda>_. c) set_git_credentials (get_token E)) (\<lambda>token.
              py_bind (py_lift (need_str (gh_repository h) ''replace'')) (\<lambda>url.
                py_return (py_replace url ''https://'' (''https://'' @ token @ ''@'')))))))"

definition git_checkout_branch :: "env \<Rightarrow> (git_handler, unit) py" where
  "git_checkout_branch E =
     py_bind (py_self gh_branch) (\<lambda>branch.
       if branch \<noteq> JStr ''main'' \<and> branch \<noteq> JStr ''master'' \<and> branch \<noteq> JStr ''HEAD''
       then py_try
         (py_seq (py_call (GitCheckout branch) (git_run E))
           (py_seq (py_call GitFetch (git_run E)) (py_call GitPull (git_run E))))
         (\<lambda>e. case e of GitCommandError m \<Rightarrow> py_return () | _ \<Rightarrow> py_raise e)
       else py_return ())"

definition git_checkout_commit :: "env \<Rightarrow> (git_handler, unit) py" where
  "git_checkout_commit E =
     py_bind (py_self gh_commit) (\<lambda>commit.
       if truthy commit
       then py_try (py_call (GitCheckout commit) (git_run E))
         (\<lambda>e. case e of
            GitCommandError m \<Rightarrow>
              py_raise (DataSourceError (''Failed to checkout commit '' @ py_format commit @ '': '' @ m))
          | _ \<Rightarrow> py_raise e)
       else py_return ())"

definition git_setup_repository :: "env \<Rightarrow> (git_handler, unit) py" where
  "git_setup_repository E =
     py_try
       (py_bind (git_clone_url E) (\<lambda>clone_url.
        py_bind (py_self gh_work_dir) (\<lambda>work_dir.
        py_seq (py_call (GitClone clone_url (case work_dir of None \<Rightarrow> '''' | Some d \<Rightarrow> d)) (git_run E))
        (py_seq (py_set (\<lambda>h. h\<lparr>gh_repo := True\<rparr>))
        (py_seq (git_checkout_branch E)
        (py_seq (git_checkout_commit E)
        (py_bind (git_head_commit E) (\<lambda>hexsha.
           py_set (\<lambda>h. h\<lparr>gh_current_commit_hash := Some hexsha\<rparr>)))))))))
       (\<lambda>e. py_bind (py_self gh_repository) (\<lambda>repository. case e of
          GitCommandError m \<Rightarrow>
            py_raise (DataSourceError (''Failed to clone repository '' @ py_format repository @ '': '' @ m))
        | _ \<Rightarrow> py_raise (DataSourceError (''Repository setup failed: '' @ exn_str e))))"

subsection \<open>Choosing and reading files\<close>

definition binary_extensions :: "string list" where
  "binary_extensions = [''.exe'', ''.so'', ''.dll'', ''.bin'', ''.obj'', ''.o'', ''.a'', ''.lib'', ''.dylib'']"

definition hidden_path :: "string \<Rightarrow> bool" where
  "hidden_path file_path \<longleftrightarrow> (\<exists>part\<in>set (py_split file_path ''/''). prefix ''.'' part)"

definition should_index_file :: "env \<Rightarrow> git_handler \<Rightarrow> string \<Rightarrow> bool" where
  "should_index_file E h file_path =
     (if hidden_path file_path then False
      else if py_lower (snd (splitext file_path)) \<in> set binary_extensions then False
      else if \<not> truthy (gh_paths h) \<and> \<not> truthy (gh_exclude_paths h) then True
      else if truthy (gh_exclude_paths h) \<and>
          (case gh_exclude_matcher h of None \<Rightarrow> False | Some ps \<Rightarrow> path_match E ps file_path) then False
      else (case gh_include_matcher h of
          None \<Rightarrow> True
        | Some ps \<Rightarrow> if truthy (gh_paths h) then path_match E ps file_path else True))"

definition files_of_walk :: "env \<Rightarrow> git_handler \<Rightarrow> string \<Rightarrow> (string \<times> string list) list \<Rightarrow> string list" where
  "files_of_walk E h work_dir walk =
     concat (map (\<lambda>(root, filenames).
       if sublist ''.git'' root then []
       else filter (should_index_file E h) (map (\<lambda>f. relpath (path_join root f) work_dir) filenames)) walk)"

definition get_repository_files :: "env \<Rightarrow> (git_handler, string list) py" where
  "get_repository_files E =
     py_bind (py_self (\<lambda>h. h)) (\<lambda>h.
       case gh_work_dir h of
         None \<Rightarrow> py_raise (TypeError ''expected str, bytes or os.PathLike object, not NoneType'')
       | Some work_dir \<Rightarrow>
           py_bind (py_call (OsWalk work_dir) (fs_walk E)) (\<lambda>walk.
             py_return (files_of_walk E h work_dir walk)))"

definition content_type_map :: "(string \<times> string) list" where
  "content_type_map =
     [(''.py'', ''text/x-python''), (''.go'', ''text/x-go''), (''.js'', ''application/javascript''),
      (''.ts'', ''application/typescript''), (''.java'', ''text/x-java''), (''.cpp'', ''text/x-c++''),
      (''.c'', ''text/x-c''), (''.h'', ''text/x-c''), (''.hpp'', ''text/x-c++''), (''.md'', ''text/markdown''),
      (''.txt'', ''text/plain''), (''.rst'', ''text/x-rst''), (''.yaml'', ''application/x-yaml''),
      (''.yml'', ''application/x-yaml''), (''.json'', ''application/json''), (''.toml'', ''application/toml''),
      (''.xml'', ''application/xml''), (''.html'', ''text/html''), (''.css'', ''text/css''),
      (''.sql'', ''application/sql''), (''.sh'', ''application/x-sh''), (''.bash'', ''application/x-sh'')]"

definition get_content_type :: "string \<Rightarrow> string" where
  "get_content_type file_path =
     (case map_of content_type_map (py_lower (snd (splitext file_path))) of
        None \<Rightarrow> ''text/plain'' | Some ct \<Rightarrow> ct)"

text \<open>\<open>None\<close> for a file that cannot be read or whose text cannot be extracted.\<close>

definition read_file_content :: "env \<Rightarrow> string \<Rightarrow> (git_handler, string option) py" where
  "read_file_content E file_path =
     py_try
       (py_bind (py_self gh_work_dir) (\<lambda>work_dir.
        py_bind (py_lift (case work_dir of
            None \<Rightarrow> Inl (TypeError ''expected str, bytes or os.PathLike object, not NoneType'')
          | Some d \<Rightarrow> Inr (path_join d file_path))) (\<lambda>full_path.
        py_bind (py_call (ReadFile full_path) (fs_read E)) (\<lambda>raw_content.
        py_bind (py_lift (extract_text E raw_content (get_content_type file_path) (py_lower (snd (splitext file_path)))))
          (\<lambda>content. py_return (Some content))))))
       (\<lambda>e. py_return None)"

subsection \<open>Documents\<close>

definition git_document :: "git_handler \<Rightarrow> string \<Rightarrow> string \<Rightarrow> string \<Rightarrow> string \<Rightarrow> json \<Rightarrow> document" where
  "git_document h file_path content change_type timestamp commit =
     (let language = get_file_extension_language (snd (splitext file_path))
      in \<lparr>doc_text = content,
          doc_metadata =
            [(''autoindexer'', gh_autoindexer_name h), (''source_type'', JStr ''git''),
             (''repository'', gh_repository h), (''branch'', gh_branch h), (''file_path'', JStr file_path),
             (''change_type'', JStr change_type), (''timestamp'', JStr timestamp), (''commit'', commit)] @
            (if language \<noteq> '''' then [(''language'', JStr language), (''split_type'', JStr ''code'')] else []),
          doc_id = None\<rparr>)"

definition create_document :: "env \<Rightarrow> string \<Rightarrow> string \<Rightarrow> string \<Rightarrow> (git_handler, document) py" where
  "create_document E file_path content change_type =
     py_bind (py_self (\<lambda>h. h)) (\<lambda>h.
     py_bind (now_iso E) (\<lambda>timestamp.
     py_bind (if gh_repo h then py_bind (git_head_commit E) (\<lambda>c. py_return (JStr c)) else py_return JNull) (\<lambda>commit.
       py_return (git_document h file_path content change_type timestamp commit))))"

definition index_documents_batch :: "env \<Rightarrow> document list \<Rightarrow> (git_handler, unit) py" where
  "index_documents_batch E documents =
     py_bind (py_self (\<lambda>h. h)) (\<lambda>h.
       py_try (index_documents E (gh_rag_client h) (gh_index_name h) documents)
         (\<lambda>e. git_append_error (''Failed to index document batch: '' @ exn_str e)))"

definition update_documents_batch :: "env \<Rightarrow> document list \<Rightarrow> (git_handler, unit) py" where
  "update_documents_batch E documents =
     py_bind (py_self (\<lambda>h. h)) (\<lambda>h.
       py_try (update_documents E (gh_rag_client h) (gh_index_name h) documents)
         (\<lambda>e. git_append_error (''Failed to update document batch: '' @ exn_str e)))"

text \<open>The method looked up is \<open>delete_document\<close>, which the client does not have.\<close>

definition delete_documents_batch :: "string option list \<Rightarrow> (git_handler, unit) py" where
  "delete_documents_batch document_ids =
     py_try
       (py_for (\<lambda>doc_id u. py_lift (rag_client_attribute ''delete_document'')) document_ids ())
       (\<lambda>e. git_append_error (''Failed to delete document batch: '' @ exn_str e))"

subsection \<open>Full indexing\<close>

text \<open>One iteration, with its exception handler; the count kept for the log is left out.\<close>

definition full_step :: "env \<Rightarrow> string \<Rightarrow> document list \<Rightarrow> (git_handler, document list) py" where
  "full_step E file_path documents =
     py_try
       (py_bind (read_file_content E file_path) (\<lambda>content. case content of
          None \<Rightarrow> py_return documents
        | Some text \<Rightarrow>
            if text = '''' then py_return documents
            else py_bind (create_document E file_path text ''full'') (\<lambda>doc.
              let documents' = documents @ [doc]
              in if length documents' \<ge> 10 then py_seq (index_documents_batch E documents') (py_return [])
                 else py_return documents')))
       (\<lambda>e. py_return documents)"

definition index_all_files :: "env \<Rightarrow> (git_handler, unit) py" where
  "index_all_files E =
     py_try
       (py_bind (get_repository_files E) (\<lambda>files.
        py_bind (py_for (full_step E) files []) (\<lambda>documents.
          if documents \<noteq> [] then index_documents_batch E documents else py_return ())))
       (\<lambda>e. py_raise (DataSourceError (''Failed to index all files: '' @ exn_str e)))"

subsection \<open>Incremental indexing\<close>

text \<open>The local variables of the loop: documents to create, documents to update, identifiers to delete.\<close>

type_synonym diff_acc = "document list \<times> document list \<times> string option list"

definition diff_file_path :: "diff_item \<Rightarrow> exn + string" where
  "diff_file_path item =
     (case di_b_path item of
        Some b \<Rightarrow> if b \<noteq> '''' then Inr b
          else (case di_a_path item of Some a \<Rightarrow> Inr a | None \<Rightarrow> Inl (no_attribute JNull ''split''))
      | None \<Rightarrow> (case di_a_path item of Some a \<Rightarrow> Inr a | None \<Rightarrow> Inl (no_attribute JNull ''split'')))"

text \<open>The document the engine has for a path; a failing request is recorded as an error.\<close>

definition find_indexed :: "env \<Rightarrow> string \<Rightarrow> string \<Rightarrow> (git_handler, document option) py" where
  "find_indexed E file_path purpose =
     py_bind (py_self (\<lambda>h. h)) (\<lambda>h.
     py_bind
       (py_try
         (list_documents E (gh_rag_client h) (gh_index_name h) (JDict [(''file_path'', JStr file_path)]) 1 0)
         (\<lambda>e. py_seq (git_append_error (''Failed to fetch file from rag '' @ file_path @ '' for '' @ purpose @
             '': '' @ exn_str e)) (py_return None)))
       (\<lambda>list_resp. py_return (case list_resp of
          None \<Rightarrow> None
        | Some l \<Rightarrow> (case ld_documents l of [] \<Rightarrow> None | d # ds \<Rightarrow> Some d))))"

text \<open>The branches on the type of change. The first component of the result is \<open>False\<close> where the
  code continues with the next item, leaving out the checks for full batches.\<close>

definition diff_added :: "env \<Rightarrow> string \<Rightarrow> diff_acc \<Rightarrow> (git_handler, bool \<times> diff_acc) py" where
  "diff_added E file_path acc = (case acc of (create_docs, update_docs, delete_doc_ids) \<Rightarrow>
     py_bind (read_file_content E file_path) (\<lambda>content. case content of
        None \<Rightarrow> py_return (True, acc)
      | Some text \<Rightarrow>
          if text = '''' then py_return (True, acc)
          else py_bind (create_document E file_path text ''added'') (\<lambda>doc.
            py_return (True, create_docs @ [doc], update_docs, delete_doc_ids))))"

definition replace_indexed :: "env \<Rightarrow> string \<Rightarrow> string \<Rightarrow> string \<Rightarrow> string \<Rightarrow> string \<Rightarrow> diff_acc
    \<Rightarrow> (git_handler, bool \<times> diff_acc) py" where
  "replace_indexed E file_path text old_path purpose change_type acc =
     (case acc of (create_docs, update_docs, delete_doc_ids) \<Rightarrow>
       py_bind (find_indexed E old_path purpose) (\<lambda>found. case found of
          Some old \<Rightarrow> py_bind (create_document E file_path text change_type) (\<lambda>doc.
            py_return (True, create_docs, update_docs @ [doc\<lparr>doc_id := doc_id old\<rparr>], delete_doc_ids))
        | None \<Rightarrow> py_bind (create_document E file_path text ''added'') (\<lambda>doc.
            py_return (True, create_docs @ [doc], update_docs, delete_doc_ids))))"

definition diff_modified :: "env \<Rightarrow> string \<Rightarrow> diff_acc \<Rightarrow> (git_handler, bool \<times> diff_acc) py" where
  "diff_modified E file_path acc =
     py_bind (read_file_content E file_path) (\<lambda>content. case content of
        None \<Rightarrow> py_return (False, acc)
      | Some text \<Rightarrow>
          if text = '''' then py_return (False, acc)
          else replace_indexed E file_path text file_path ''update'' ''modified'' acc)"

definition diff_deleted :: "env \<Rightarrow> string \<Rightarrow> diff_acc \<Rightarrow> (git_handler, bool \<times> diff_acc) py" where
  "diff_deleted E file_path acc = (case acc of (create_docs, update_docs, delete_doc_ids) \<Rightarrow>
     py_bind (find_indexed E file_path ''deletion'') (\<lambda>found. case found of
        None \<Rightarrow> py_return (False, acc)
      | Some old \<Rightarrow> py_return (True, create_docs, update_docs, delete_doc_ids @ [doc_id old])))"

definition diff_renamed :: "env \<Rightarrow> string \<Rightarrow> diff_item \<Rightarrow> diff_acc \<Rightarrow> (git_handler, bool \<times> diff_acc) py" where
  "diff_renamed E file_path item acc =
     py_bind (read_file_content E file_path) (\<lambda>content. case content of
        None \<Rightarrow> py_return (False, acc)
      | Some text \<Rightarrow>
          if text = '''' then py_return (False, acc)
          else (case di_a_path item of
              None \<Rightarrow> py_return (True, acc)
            | Some a \<Rightarrow>
                if a = '''' then py_return (True, acc)
                else replace_indexed E file_path text a ''renaming'' ''renamed'' acc))"

definition diff_change :: "env \<Rightarrow> string \<Rightarrow> diff_item \<Rightarrow> diff_acc \<Rightarrow> (git_handler, bool \<times> diff_acc) py" where
  "diff_change E file_path item acc =
     (if di_change_type item = Some ''A'' then diff_added E file_path acc
      else if di_change_type item = Some ''M'' then diff_modified E file_path acc
      else if di_change_type item = Some ''D'' then diff_deleted E file_path acc
      else if di_change_type item = Some ''R'' then diff_renamed E file_path item acc
      else py_return (True, acc))"

definition send_full_batches :: "env \<Rightarrow> diff_acc \<Rightarrow> (git_handler, diff_acc) py" where
  "send_full_batches E acc = (case acc of (create_docs, update_docs, delete_doc_ids) \<Rightarrow>
     py_bind (if length create_docs \<ge> 10 then py_seq (index_documents_batch E create_docs) (py_return [])
              else py_return create_docs) (\<lambda>create_docs'.
     py_bind (if length update_docs \<ge> 10 then py_seq (update_documents_batch E update_docs) (py_return [])
              else py_return update_docs) (\<lambda>update_docs'.
     py_bind (if length delete_doc_ids \<ge> 10 then py_seq (delete_documents_batch delete_doc_ids) (py_return [])
              else py_return delete_doc_ids) (\<lambda>delete_doc_ids'.
       py_return (create_docs', update_docs', delete_doc_ids')))))"

definition diff_step :: "env \<Rightarrow> diff_item \<Rightarrow> diff_acc \<Rightarrow> (git_handler, diff_acc) py" where
  "diff_step E item acc =
     py_bind (py_lift (diff_file_path item)) (\<lambda>file_path.
     py_bind (py_self (\<lambda>h. h)) (\<lambda>h.
       if \<not> should_index_file E h file_path then py_return acc
       else py_bind (diff_change E file_path item acc) (\<lambda>(go_on, acc').
         if go_on then send_full_batches E acc' else py_return acc')))"

definition send_rest :: "env \<Rightarrow> diff_acc \<Rightarrow> (git_handler, unit) py" where
  "send_rest E acc = (case acc of (create_docs, update_docs, delete_doc_ids) \<Rightarrow>
     py_seq (if create_docs \<noteq> [] then index_documents_batch E create_docs else py_return ())
     (py_seq (if update_docs \<noteq> [] then update_documents_batch E update_docs else py_return ())
     (if delete_doc_ids \<noteq> [] then delete_documents_batch delete_doc_ids else py_return ())))"

text \<open>The diff, or \<open>None\<close> when the last commit is unknown to the repository.\<close>

definition git_diff_since :: "env \<Rightarrow> string \<Rightarrow> (git_handler, diff_item list option) py" where
  "git_diff_since E current_commit =
     py_bind (py_self gh_last_indexed_commit) (\<lambda>last_indexed_commit.
       py_try
         (py_bind (py_call (GitDiff last_indexed_commit current_commit) (git_diff E)) (\<lambda>items. py_return (Some items)))
         (\<lambda>e. case e of GitBadName m \<Rightarrow> py_return None | _ \<Rightarrow> py_raise e))"

definition index_diff_files :: "env \<Rightarrow> (git_handler, unit) py" where
  "index_diff_files E =
     py_try
       (py_bind (git_head_commit E) (\<lambda>current_commit.
        py_bind (git_diff_since E current_commit) (\<lambda>diff_index. case diff_index of
           None \<Rightarrow> index_all_files E
         | Some items \<Rightarrow> py_bind (py_for (diff_step E) items ([], [], [])) (send_rest E))))
       (\<lambda>e. py_raise (DataSourceError (''Failed to index diff files: '' @ exn_str e)))"

subsection \<open>The run\<close>

definition git_index :: "env \<Rightarrow> (git_handler, unit) py" where
  "git_index E =
     py_bind (py_self (\<lambda>h. h)) (\<lambda>h.
     py_bind (py_lift (last_indexing_had_errors (gh_conditions h))) (\<lambda>had_errors.
       if truthy (gh_commit h) then index_all_files E
       else if truthy (gh_last_indexed_commit h) \<and> \<not> had_errors then index_diff_files E
       else index_all_files E))"

definition git_cleanup :: "env \<Rightarrow> (git_handler, unit) py" where
  "git_cleanup E =
     py_bind (py_self gh_work_dir) (\<lambda>work_dir. case work_dir of
        None \<Rightarrow> py_return ()
      | Some d \<Rightarrow>
          if d = '''' then py_return ()
          else py_bind (py_call (PathExists d) (\<lambda>c t. Inr (fs_exists E c t))) (\<lambda>exists.
            if exists then py_try (py_call (RmTree d) (fs_rmtree E)) (\<lambda>e. py_return ()) else py_return ()))"

text \<open>The \<open>try\<close> statement of \<open>update_index\<close> with its two exception handlers.\<close>

definition git_attempt :: "env \<Rightarrow> (git_handler, unit) py" where
  "git_attempt E =
     py_try
       (py_bind (py_call (MkDtemp ''autoindexer_git_'') (fs_mkdtemp E)) (\<lambda>work_dir.
        py_seq (py_set (\<lambda>h. h\<lparr>gh_work_dir := Some work_dir\<rparr>))
          (py_seq (git_setup_repository E) (git_index E))))
       (\<lambda>e. case e of
          DataSourceError m \<Rightarrow> git_append_error (''Data source error: '' @ m)
        | _ \<Rightarrow> git_append_error (''Unexpected error during Git indexing: '' @ exn_str e))"

definition git_update_index :: "env \<Rightarrow> (git_handler, string list) py" where
  "git_update_index E =
     py_seq (py_set (\<lambda>h. h\<lparr>gh_errors := []\<rparr>))
     (py_bind (now E) (\<lambda>start_time.
      py_seq
        (py_finally (git_attempt E) (git_cleanup E))
      (py_bind (now E) (\<lambda>end_time.
       py_seq (py_set (\<lambda>h. h\<lparr>gh_total_time := Some (end_time - start_time)\<rparr>))
         (py_self gh_errors)))))"

subsection \<open>Status\<close>

definition git_update_autoindexer_status :: "env \<Rightarrow> (git_handler, unit) py" where
  "git_update_autoindexer_status E =
     py_bind (py_self (\<lambda>h. h)) (\<lambda>h.
       write_base_status E (gh_index_name h) (gh_autoindexer_name h) (gh_rag_client h) (gh_autoindexer_client h)
         (gh_errors h)
         (case gh_total_time h of None \<Rightarrow> 0 | Some total_time \<Rightarrow> if total_time \<noteq> 0 then td_seconds total_time else 0)
         (case gh_current_commit_hash h of
            None \<Rightarrow> []
          | Some c \<Rightarrow> if c \<noteq> '''' then [(''lastIndexedCommit'', JStr c)] else []))"

subsection \<open>Facts about single operations\<close>

text \<open>The part of the object that indexing does not change: all but the errors.\<close>

definition git_fixed :: "git_handler \<Rightarrow> git_handler" where
  "git_fixed h = h\<lparr>gh_errors := []\<rparr>"

lemma git_fixed_simps [simp]:
  "git_fixed (h\<lparr>gh_errors := es\<rparr>) = git_fixed h"
  "gh_index_name (git_fixed h) = gh_index_name h"
  "gh_rag_client (git_fixed h) = gh_rag_client h"
  "gh_work_dir (git_fixed h) = gh_work_dir h"
  "gh_repo (git_fixed h) = gh_repo h"
  by (simp_all add: git_fixed_def)

lemma should_index_file_fixed [simp]: "should_index_file E (git_fixed h) = should_index_file E h"
  by (cases "gh_include_matcher h") (simp_all add: should_index_file_def git_fixed_def fun_eq_iff)

lemma git_document_fixed [simp]: "git_document (git_fixed h) = git_document h"
  by (simp add: git_document_def git_fixed_def fun_eq_iff)

lemma git_append_error_run: "git_append_error m (h, t) = (Inr (), h\<lparr>gh_errors := gh_errors h @ [m]\<rparr>, t)"
  by (simp add: git_append_error_def)

lemma read_file_content_run:
  obtains content u where "read_file_content E f (h, t) = (Inr content, h, t @ u)" and "list_all quiet u"
proof -
  obtain r h' t' where run: "read_file_content E f (h, t) = (r, h', t')" by (metis prod.collapse)
  have "keeps_self (read_file_content E f)"
    unfolding read_file_content_def by (intro frame_intros)
  then have "h' = h" using keepsD [of "\<lambda>s. s" "read_file_content E f" "(h, t)"] run by simp
  moreover have "emits quiet (read_file_content E f)"
    unfolding read_file_content_def by (intro emits_intros) simp_all
  from emitsD [OF this, of "(h, t)"] run obtain u where "t' = t @ u" "list_all quiet u" by auto
  moreover have "never_raises (read_file_content E f)"
    unfolding read_file_content_def by (intro total_intros)
  from never_raisesD [OF this, of "(h, t)"] run obtain content where "r = Inr content" by auto
  ultimately show ?thesis using run that by blast
qed

lemma create_document_run:
  obtains r u where "create_document E f text ty (h, t) = (r, h, t @ u)" and "list_all quiet u"
    and "(\<exists>ts commit. r = Inr (git_document h f text ty ts commit)) \<or>
      (\<exists>e v. r = Inl e \<and> git_head E GitHeadCommit (t @ v) = Inl e)"
proof (cases "gh_repo h")
  case False
  then have "create_document E f text ty (h, t) =
      (Inr (git_document h f text ty (iso_utc (clock_now E ClockNow t)) JNull), h, t @ [ClockNow])"
    by (simp add: create_document_def py_bind_def)
  then show ?thesis by (rule that) auto
next
  case True
  show ?thesis
  proof (cases "git_head E GitHeadCommit (t @ [ClockNow])")
    case (Inl e)
    with True have "create_document E f text ty (h, t) = (Inl e, h, t @ [ClockNow, GitHeadCommit])"
      by (simp add: create_document_def git_head_commit_def py_bind_def)
    then show ?thesis by (rule that) (use Inl in auto)
  next
    case (Inr c)
    with True have "create_document E f text ty (h, t) =
        (Inr (git_document h f text ty (iso_utc (clock_now E ClockNow t)) (JStr c)), h, t @ [ClockNow, GitHeadCommit])"
      by (simp add: create_document_def git_head_commit_def py_bind_def)
    then show ?thesis by (rule that) auto
  qed
qed

text \<open>A batch is sent by one call, and its failure is one more error.\<close>

text \<open>How many of the errors are those of batches of deletions.\<close>

definition deletion_errors :: "string list \<Rightarrow> nat" where
  "deletion_errors es = length (filter (prefix ''Failed to delete document batch: '') es)"

lemma deletion_errors_simps [simp]:
  "deletion_errors [] = 0" "deletion_errors (es @ fs) = deletion_errors es + deletion_errors fs"
  "deletion_errors [''Failed to index document batch: '' @ m] = 0"
  "deletion_errors [''Failed to update document batch: '' @ m] = 0"
  "deletion_errors [''Failed to fetch file from rag '' @ m] = 0"
  "deletion_errors [''Failed to delete document batch: '' @ m] = 1"
  by (simp_all add: deletion_errors_def)

lemma index_documents_batch_run:
  obtains h' where "index_documents_batch E docs (h, t) =
      (Inr (), h', t @ [RagIndex (rc_base_url (gh_rag_client h)) (gh_index_name h) docs])"
    and "git_fixed h' = git_fixed h" and "prefix (gh_errors h) (gh_errors h')"
    and "deletion_errors (gh_errors h') = deletion_errors (gh_errors h)"
proof -
  let ?c = "RagIndex (rc_base_url (gh_rag_client h)) (gh_index_name h) docs"
  obtain r h' t' where run: "index_documents_batch E docs (h, t) = (r, h', t')" by (metis prod.collapse)
  then have "r = Inr ()" "t' = t @ [?c]"
    "h' = h \<or> (\<exists>m. h' = h\<lparr>gh_errors := gh_errors h @ [''Failed to index document batch: '' @ m]\<rparr>)"
    by (cases "rag_write E ?c t";
      force simp: index_documents_batch_def index_documents_def py_bind_def py_try_def git_append_error_def)+
  with run show ?thesis by (intro that [of h']) (auto simp del: append_Cons)
qed

lemma update_documents_batch_run:
  obtains h' where "update_documents_batch E docs (h, t) =
      (Inr (), h', t @ [RagUpdate (rc_base_url (gh_rag_client h)) (gh_index_name h) docs])"
    and "git_fixed h' = git_fixed h" and "prefix (gh_errors h) (gh_errors h')"
    and "deletion_errors (gh_errors h') = deletion_errors (gh_errors h)"
proof -
  let ?c = "RagUpdate (rc_base_url (gh_rag_client h)) (gh_index_name h) docs"
  obtain r h' t' where run: "update_documents_batch E docs (h, t) = (r, h', t')" by (metis prod.collapse)
  then have "r = Inr ()" "t' = t @ [?c]"
    "h' = h \<or> (\<exists>m. h' = h\<lparr>gh_errors := gh_errors h @ [''Failed to update document batch: '' @ m]\<rparr>)"
    by (cases "rag_write E ?c t";
      force simp: update_documents_batch_def update_documents_def py_bind_def py_try_def git_append_error_def)+
  with run show ?thesis by (intro that [of h']) (auto simp del: append_Cons)
qed

lemma no_delete_document: "rag_client_attribute ''delete_document'' =
    Inl (AttributeError (py_repr ''KAITORAGClient'' @ '' object has no attribute '' @ py_repr ''delete_document''))"
  by (simp add: rag_client_attribute_def rag_client_attributes_def)

lemma delete_documents_batch_run:
  obtains h' where "delete_documents_batch ids (h, t) = (Inr (), h', t)"
    and "git_fixed h' = git_fixed h" and "prefix (gh_errors h) (gh_errors h')"
    and "deletion_errors (gh_errors h') = deletion_errors (gh_errors h) + (if ids = [] then 0 else 1)"
proof -
  obtain r h' t' where run: "delete_documents_batch ids (h, t) = (r, h', t')" by (metis prod.collapse)
  then have "r = Inr ()" "t' = t" "h' = h \<and> ids = [] \<or>
      ids \<noteq> [] \<and> (\<exists>m. h' = h\<lparr>gh_errors := gh_errors h @ [''Failed to delete document batch: '' @ m]\<rparr>)"
    by (cases ids; force simp: delete_documents_batch_def no_delete_document py_try_def git_append_error_def)+
  with run show ?thesis by (intro that [of h']) (auto simp del: append_Cons)
qed

subsection \<open>Full indexing sends the content of the files\<close>

definition full_made :: "env \<Rightarrow> git_handler \<Rightarrow> string \<Rightarrow> document list \<Rightarrow> bool" where
  "full_made E h0 f new \<longleftrightarrow>
     (\<exists>h t content. git_fixed h = h0 \<and> fst (read_file_content E f (h, t)) = Inr content \<and>
        (case content of
           None \<Rightarrow> new = []
         | Some text \<Rightarrow>
             if text = '''' then new = []
             else (\<exists>ts commit. new = [git_document h0 f text ''full'' ts commit]) \<or>
                  (new = [] \<and> (\<exists>e t. git_head E GitHeadCommit t = Inl e))))"

lemma full_step_run:
  assumes "length docs < 10" and "full_step E f docs (h, t) = (r, h', t')"
  shows "\<exists>u. t' = t @ u \<and> git_fixed h' = git_fixed h \<and> list_all (\<lambda>b. length b = 10) (indexed_batches u) \<and>
    (\<forall>docs'. r = Inr docs' \<longrightarrow> length docs' < 10 \<and>
      (\<exists>new. full_made E (git_fixed h) f new \<and> concat (indexed_batches u) @ docs' = docs @ new)) \<and>
    \<not> isl r"
proof -
  obtain content u where f: "read_file_content E f (h, t) = (Inr content, h, t @ u)" "list_all quiet u"
    by (rule read_file_content_run)
  have nu: "indexed_batches u = []" using f(2) by (intro no_index_no_batches) (simp add: list_all_iff)
  have made: "full_made E (git_fixed h) f new" if "case content of
           None \<Rightarrow> new = []
         | Some text \<Rightarrow>
             if text = '''' then new = []
             else (\<exists>ts commit. new = [git_document h f text ''full'' ts commit]) \<or>
                  (new = [] \<and> (\<exists>e t. git_head E GitHeadCommit t = Inl e))" for new
    unfolding full_made_def using f(1) that
    by (intro exI [of _ h] exI [of _ t] exI [of _ content]) (simp split: option.splits)
  consider (empty) "content = None \<or> content = Some ''''" | (some) cnt where "content = Some cnt" "cnt \<noteq> ''''"
    by (cases content) auto
  then show ?thesis
  proof cases
    case empty
    with assms f nu made [of "[]"] show ?thesis
      by (auto simp: full_step_def py_try_def py_bind_def)
  next
    case some
    obtain rc v where c: "create_document E f cnt ''full'' (h, t @ u) = (rc, h, (t @ u) @ v)" "list_all quiet v"
      "(\<exists>ts commit. rc = Inr (git_document h f cnt ''full'' ts commit)) \<or>
        (\<exists>e w. rc = Inl e \<and> git_head E GitHeadCommit ((t @ u) @ w) = Inl e)"
      by (rule create_document_run)
    have nv: "indexed_batches v = []" using c(2) by (intro no_index_no_batches) (simp add: list_all_iff)
    show ?thesis
    proof (cases rc)
      case (Inl e)
      with c(3) have "full_made E (git_fixed h) f []" by (intro made) (auto simp: some)
      with assms f c(1) some Inl nu nv show ?thesis
        by (auto simp: full_step_def py_try_def py_bind_def)
    next
      case (Inr doc)
      with c(3) have m: "full_made E (git_fixed h) f [doc]" by (intro made) (auto simp: some)
      obtain h2 where b: "index_documents_batch E (docs @ [doc]) (h, (t @ u) @ v) =
          (Inr (), h2, ((t @ u) @ v) @ [RagIndex (rc_base_url (gh_rag_client h)) (gh_index_name h) (docs @ [doc])])"
        "git_fixed h2 = git_fixed h"
        by (rule index_documents_batch_run)
      show ?thesis
      proof (cases "length docs = 9")
        case True
        with assms f c(1) some Inr b have "r = Inr []" "h' = h2"
          "t' = t @ (u @ v @ [RagIndex (rc_base_url (gh_rag_client h)) (gh_index_name h) (docs @ [doc])])"
          by (auto simp: full_step_def py_try_def py_bind_def Let_def)
        with True m nu nv b(2) show ?thesis
          by (intro exI [of _ "u @ v @ [RagIndex (rc_base_url (gh_rag_client h)) (gh_index_name h) (docs @ [doc])]"]) auto
      next
        case False
        with assms f c(1) some Inr have "r = Inr (docs @ [doc])" "h' = h" "t' = t @ (u @ v)"
          by (auto simp: full_step_def py_try_def py_bind_def Let_def)
        with False m nu nv assms(1) show ?thesis by (intro exI [of _ "u @ v"]) auto
      qed
    qed
  qed
qed

interpretation git_full: batching "full_step E" 10 indexed_batches "\<lambda>docs. docs" git_fixed "full_made E" for E
  by unfold_locales (use full_step_run in fastforce)+

subsection \<open>What a run may send\<close>

text \<open>The configuration of the object: what no operation changes.\<close>

definition git_settings :: "git_handler \<Rightarrow> git_handler" where
  "git_settings h = h\<lparr>gh_errors := [], gh_total_time := None, gh_work_dir := None, gh_repo := False,
     gh_current_commit_hash := None, gh_credentials := None\<rparr>"

abbreviation same_settings :: "git_handler \<Rightarrow> git_handler \<Rightarrow> bool" where
  "same_settings h0 h \<equiv> git_settings h = git_settings h0"

lemma git_settings_simps [simp]:
  "git_settings (h\<lparr>gh_errors := es\<rparr>) = git_settings h"
  "git_settings (h\<lparr>gh_total_time := tt\<rparr>) = git_settings h"
  "git_settings (h\<lparr>gh_work_dir := d\<rparr>) = git_settings h"
  "git_settings (h\<lparr>gh_repo := b\<rparr>) = git_settings h"
  "git_settings (h\<lparr>gh_current_commit_hash := c\<rparr>) = git_settings h"
  "git_settings (set_git_credentials p h) = git_settings h"
  by (simp_all add: git_settings_def set_git_credentials_def)

lemma same_settingsD:
  assumes "same_settings h0 h"
  shows "gh_index_name h = gh_index_name h0" "gh_rag_client h = gh_rag_client h0"
    "gh_last_indexed_commit h = gh_last_indexed_commit h0" "gh_commit h = gh_commit h0"
    "gh_conditions h = gh_conditions h0" "gh_autoindexer_name h = gh_autoindexer_name h0"
    "gh_repository h = gh_repository h0" "gh_branch h = gh_branch h0" "gh_paths h = gh_paths h0"
    "gh_exclude_paths h = gh_exclude_paths h0" "gh_exclude_matcher h = gh_exclude_matcher h0"
    "gh_include_matcher h = gh_include_matcher h0"
  using assms by (cases h; cases h0; simp add: git_settings_def)+

lemma same_settings_functions:
  assumes "same_settings h0 h"
  shows "should_index_file E h = should_index_file E h0" "git_document h = git_document h0"
  by (cases "gh_include_matcher h0";
      simp add: should_index_file_def git_document_def fun_eq_iff same_settingsD [OF assms])+

text \<open>A document that may be sent: the text of a file that is to be indexed.\<close>

definition git_doc_ok :: "env \<Rightarrow> git_handler \<Rightarrow> document \<Rightarrow> bool" where
  "git_doc_ok E h0 d \<longleftrightarrow>
     (\<exists>f content change_type timestamp commit. should_index_file E h0 f \<and> content \<noteq> '''' \<and>
        d\<lparr>doc_id := None\<rparr> = git_document h0 f content change_type timestamp commit)"

definition git_batch_ok :: "env \<Rightarrow> git_handler \<Rightarrow> document list \<Rightarrow> bool" where
  "git_batch_ok E h0 ds \<longleftrightarrow> ds \<noteq> [] \<and> length ds \<le> 10 \<and> list_all (git_doc_ok E h0) ds"

text \<open>The calls of a run, for the settings \<open>h0\<close>.\<close>

fun git_call_ok :: "env \<Rightarrow> git_handler \<Rightarrow> call \<Rightarrow> bool" where
  "git_call_ok E h0 (RagIndex u i ds) \<longleftrightarrow>
     u = rc_base_url (gh_rag_client h0) \<and> i = gh_index_name h0 \<and> git_batch_ok E h0 ds"
| "git_call_ok E h0 (RagUpdate u i ds) \<longleftrightarrow>
     u = rc_base_url (gh_rag_client h0) \<and> i = gh_index_name h0 \<and> git_batch_ok E h0 ds"
| "git_call_ok E h0 (GitDiff a b) \<longleftrightarrow>
     a = gh_last_indexed_commit h0 \<and> truthy a \<and> \<not> truthy (gh_commit h0) \<and>
     last_indexing_had_errors (gh_conditions h0) = Inr False"
| "git_call_ok E h0 c \<longleftrightarrow> quiet c"

lemma quiet_git_call_ok: "quiet c \<Longrightarrow> (\<forall>a b. c \<noteq> GitDiff a b) \<Longrightarrow> git_call_ok E h0 c"
  by (cases c) simp_all

abbreviation git_runs :: "env \<Rightarrow> git_handler \<Rightarrow> ('a \<Rightarrow> bool) \<Rightarrow> (git_handler, 'a) py \<Rightarrow> bool" where
  "git_runs E h0 Q m \<equiv> runs (same_settings h0) (git_call_ok E h0) Q m"

lemma git_append_error_runs: "git_runs E h0 (\<lambda>_. True) (git_append_error m)"
  unfolding git_append_error_def by (intro runs_intros) simp_all

lemma git_batch_call_ok:
  assumes "same_settings h0 s" and "git_batch_ok E h0 ds"
  shows "git_call_ok E h0 (RagIndex (rc_base_url (gh_rag_client s)) (gh_index_name s) ds)"
    and "git_call_ok E h0 (RagUpdate (rc_base_url (gh_rag_client s)) (gh_index_name s) ds)"
  using assms(2) by (simp_all add: same_settingsD [OF assms(1)])

lemma index_batch_runs:
  "git_batch_ok E h0 ds \<Longrightarrow> git_runs E h0 (\<lambda>_. True) (index_documents_batch E ds)"
  unfolding index_documents_batch_def index_documents_def
  by (intro runs_bind_self runs_try runs_call git_append_error_runs git_batch_call_ok TrueI)

lemma update_batch_runs:
  "git_batch_ok E h0 ds \<Longrightarrow> git_runs E h0 (\<lambda>_. True) (update_documents_batch E ds)"
  unfolding update_documents_batch_def update_documents_def
  by (intro runs_bind_self runs_try runs_call git_append_error_runs git_batch_call_ok TrueI)

lemma delete_batch_runs: "git_runs E h0 (\<lambda>_. True) (delete_documents_batch ids)"
  unfolding delete_documents_batch_def
  by (intro runs_try runs_for runs_lift git_append_error_runs TrueI)

lemma read_file_runs: "git_runs E h0 (\<lambda>_. True) (read_file_content E f)"
proof (rule runs_emits)
  show "emits (git_call_ok E h0) (read_file_content E f)"
    unfolding read_file_content_def by (intro emits_intros) simp_all
  show "keeps_self (read_file_content E f)"
    unfolding read_file_content_def by (intro frame_intros)
qed

lemma git_head_commit_runs: "git_runs E h0 (\<lambda>_. True) (git_head_commit E)"
  unfolding git_head_commit_def by (intro runs_call) simp_all

lemma create_document_runs:
  assumes "should_index_file E h0 f" and "content \<noteq> ''''"
  shows "git_runs E h0 (\<lambda>d. git_doc_ok E h0 d \<and> doc_id d = None) (create_document E f content ty)"
proof -
  have doc: "git_doc_ok E h0 (git_document s f content ty ts commit) \<and> doc_id (git_document s f content ty ts commit) = None"
    if "same_settings h0 s" for s ts commit
    unfolding same_settings_functions(2) [OF that] git_doc_ok_def
    using assms by (intro conjI exI [of _ f] exI [of _ content] exI [of _ ty] exI [of _ ts] exI [of _ commit])
      (simp_all add: git_document_def Let_def)
  have clock: "git_runs E h0 (\<lambda>_. True) (now_iso E)"
  proof (rule runs_emits)
    show "emits (git_call_ok E h0) (now_iso E)" by (intro emits_intros) simp
    show "keeps_self (now_iso E)" by (intro frame_intros)
  qed
  have commit: "git_runs E h0 (\<lambda>_. True)
      (if b then py_bind (git_head_commit E) (\<lambda>c. py_return (JStr c)) else py_return JNull)" for b
    by (intro runs_if runs_bind_any [OF git_head_commit_runs] runs_return TrueI)
  show ?thesis
    unfolding create_document_def
    by (rule runs_bind_self, rule runs_bind_any [OF clock], rule runs_bind_any [OF commit], rule runs_return, rule doc)
qed

lemma git_batch_ok_append:
  "list_all (git_doc_ok E h0) ds \<Longrightarrow> git_doc_ok E h0 d \<Longrightarrow> length ds < 10 \<Longrightarrow> git_batch_ok E h0 (ds @ [d])"
  by (simp add: git_batch_ok_def)

text \<open>What is pending in a loop: less than a batch of documents that may be sent.\<close>

definition pending_ok :: "env \<Rightarrow> git_handler \<Rightarrow> document list \<Rightarrow> bool" where
  "pending_ok E h0 ds \<longleftrightarrow> length ds < 10 \<and> list_all (git_doc_ok E h0) ds"

lemma pending_ok_Nil: "pending_ok E h0 []"
  by (simp add: pending_ok_def)

lemma pending_batch: "pending_ok E h0 ds \<Longrightarrow> ds \<noteq> [] \<Longrightarrow> git_batch_ok E h0 ds"
  by (simp add: pending_ok_def git_batch_ok_def)

lemma full_step_runs:
  assumes "should_index_file E h0 f" and "pending_ok E h0 ds"
  shows "git_runs E h0 (pending_ok E h0) (full_step E f ds)"
proof -
  have flush: "git_runs E h0 (pending_ok E h0) (let documents' = ds @ [d]
      in if length documents' \<ge> 10 then py_seq (index_documents_batch E documents') (py_return [])
         else py_return documents')" if "git_doc_ok E h0 d \<and> doc_id d = None" for d
    using assms(2) that
    by (intro runs_let runs_if runs_bind_any [OF index_batch_runs] runs_return)
      (auto simp: pending_ok_def git_batch_ok_def)
  show ?thesis
    unfolding full_step_def
    by (intro runs_try runs_bind_any [OF read_file_runs] runs_case_option runs_if runs_return
        runs_bind [OF create_document_runs] assms flush)
qed

lemma files_of_walk_ok: "f \<in> set (files_of_walk E h d walk) \<Longrightarrow> should_index_file E h f"
  by (auto simp: files_of_walk_def split: if_splits)

lemma get_repository_files_runs:
  "git_runs E h0 (\<lambda>fs. \<forall>f\<in>set fs. should_index_file E h0 f) (get_repository_files E)"
proof -
  have walk: "git_runs E h0 (\<lambda>_. True) (py_call (OsWalk d) (fs_walk E))" for d
    by (intro runs_call) simp_all
  show ?thesis
    unfolding get_repository_files_def
    by (intro runs_bind_self runs_case_option runs_raise runs_bind_any [OF walk] runs_return ballI)
      (metis files_of_walk_ok same_settings_functions(1))
qed

lemma index_all_files_runs: "git_runs E h0 (\<lambda>_. True) (index_all_files E)"
proof -
  have loop: "git_runs E h0 (pending_ok E h0) (py_for (full_step E) files [])"
    if "\<forall>f\<in>set files. should_index_file E h0 f" for files
    using that by (intro runs_for full_step_runs pending_ok_Nil) blast+
  show ?thesis
    unfolding index_all_files_def
    by (intro runs_try runs_raise runs_bind [OF get_repository_files_runs] runs_bind [OF loop]
        runs_if runs_return index_batch_runs pending_batch TrueI)
qed

text \<open>Incremental indexing: both kinds of documents pending are within bounds.\<close>

definition diff_acc_ok :: "env \<Rightarrow> git_handler \<Rightarrow> diff_acc \<Rightarrow> bool" where
  "diff_acc_ok E h0 acc \<longleftrightarrow> (case acc of (c, u, d) \<Rightarrow> pending_ok E h0 c \<and> pending_ok E h0 u)"

text \<open>After one item, before full batches are sent, each may have one document more.\<close>

definition one_more :: "env \<Rightarrow> git_handler \<Rightarrow> bool \<times> diff_acc \<Rightarrow> bool" where
  "one_more E h0 r \<longleftrightarrow> (case r of (go_on, c, u, d) \<Rightarrow>
     length c \<le> 10 \<and> length u \<le> 10 \<and> list_all (git_doc_ok E h0) c \<and> list_all (git_doc_ok E h0) u \<and>
     (\<not> go_on \<longrightarrow> diff_acc_ok E h0 (c, u, d)))"

lemma one_more_same: "diff_acc_ok E h0 acc \<Longrightarrow> one_more E h0 (b, acc)"
  by (auto simp: one_more_def diff_acc_ok_def pending_ok_def split: prod.splits)

lemma git_doc_ok_id: "git_doc_ok E h0 d \<Longrightarrow> git_doc_ok E h0 (d\<lparr>doc_id := i\<rparr>)"
  by (simp add: git_doc_ok_def)

lemma find_indexed_runs: "git_runs E h0 (\<lambda>_. True) (find_indexed E p purpose)"
proof -
  have list: "git_runs E h0 (\<lambda>_. True) (list_documents E r i f l k)" for r i f l k
    unfolding list_documents_def by (intro runs_call) simp_all
  show ?thesis
    unfolding find_indexed_def
    by (intro runs_bind_self runs_bind_any [OF runs_try] list runs_bind_any [OF git_append_error_runs] runs_return TrueI)
qed

lemma diff_added_runs:
  assumes "should_index_file E h0 f" and "diff_acc_ok E h0 acc"
  shows "git_runs E h0 (one_more E h0) (diff_added E f acc)"
proof -
  obtain c u d where acc: "acc = (c, u, d)" by (cases acc)
  have more: "one_more E h0 (True, c @ [doc], u, d)" if "git_doc_ok E h0 doc \<and> doc_id doc = None" for doc
    using assms(2) that by (simp add: one_more_def diff_acc_ok_def pending_ok_def acc)
  show ?thesis
    unfolding diff_added_def acc prod.case
    by (intro runs_bind_any [OF read_file_runs] runs_case_option runs_if runs_return
        runs_bind [OF create_document_runs] assms one_more_same more) (use assms acc in simp_all)
qed

lemma replace_indexed_runs:
  assumes "should_index_file E h0 f" and "diff_acc_ok E h0 acc" and "content \<noteq> ''''"
  shows "git_runs E h0 (one_more E h0) (replace_indexed E f content p purpose ty acc)"
proof -
  obtain c u d where acc: "acc = (c, u, d)" by (cases acc)
  have more: "one_more E h0 (True, c @ [doc], u, d)" "one_more E h0 (True, c, u @ [doc\<lparr>doc_id := i\<rparr>], d)"
    if "git_doc_ok E h0 doc \<and> doc_id doc = None" for doc i
    using assms(2) that by (simp_all add: one_more_def diff_acc_ok_def pending_ok_def acc git_doc_ok_id)
  show ?thesis
    unfolding replace_indexed_def acc prod.case
    by (intro runs_bind_any [OF find_indexed_runs] runs_case_option runs_return
        runs_bind [OF create_document_runs] assms more)
qed

lemma diff_modified_runs:
  assumes "should_index_file E h0 f" and "diff_acc_ok E h0 acc"
  shows "git_runs E h0 (one_more E h0) (diff_modified E f acc)"
  unfolding diff_modified_def
  by (intro runs_bind_any [OF read_file_runs] runs_case_option runs_if runs_return
      replace_indexed_runs assms one_more_same)

lemma diff_deleted_runs:
  assumes "diff_acc_ok E h0 acc"
  shows "git_runs E h0 (one_more E h0) (diff_deleted E f acc)"
proof -
  obtain c u d where acc: "acc = (c, u, d)" by (cases acc)
  have more: "one_more E h0 (True, c, u, d @ [i])" "one_more E h0 (False, c, u, d)" for i
    using assms by (auto simp: one_more_def diff_acc_ok_def pending_ok_def acc)
  show ?thesis
    unfolding diff_deleted_def acc prod.case
    by (intro runs_bind_any [OF find_indexed_runs] runs_case_option runs_return more)
qed

lemma diff_renamed_runs:
  assumes "should_index_file E h0 f" and "diff_acc_ok E h0 acc"
  shows "git_runs E h0 (one_more E h0) (diff_renamed E f item acc)"
  unfolding diff_renamed_def
  by (intro runs_bind_any [OF read_file_runs] runs_case_option runs_if runs_return
      replace_indexed_runs assms one_more_same)

lemma diff_change_runs:
  assumes "should_index_file E h0 f" and "diff_acc_ok E h0 acc"
  shows "git_runs E h0 (one_more E h0) (diff_change E f item acc)"
  unfolding diff_change_def
  by (intro runs_if runs_return one_more_same diff_added_runs diff_modified_runs diff_deleted_runs
      diff_renamed_runs assms)

lemma send_full_batches_runs:
  assumes "one_more E h0 (True, acc)"
  shows "git_runs E h0 (diff_acc_ok E h0) (send_full_batches E acc)"
proof -
  obtain c u d where acc: "acc = (c, u, d)" by (cases acc)
  have part: "git_runs E h0 (pending_ok E h0) (if length ds \<ge> 10 then py_seq (send ds) (py_return []) else py_return ds)"
    if "length ds \<le> 10" "list_all (git_doc_ok E h0) ds" "\<And>ds. git_batch_ok E h0 ds \<Longrightarrow> git_runs E h0 (\<lambda>_. True) (send ds)"
    for ds and send :: "document list \<Rightarrow> (git_handler, unit) py"
  proof (cases "length ds \<ge> 10")
    case True
    then have "git_batch_ok E h0 ds" using that(1,2) by (auto simp: git_batch_ok_def)
    from that(3) [OF this] True show ?thesis
      by (simp add: runs_bind_any [OF _ runs_return] pending_ok_Nil)
  next
    case False
    then show ?thesis using that(2) by (simp only: if_False) (rule runs_return, simp add: pending_ok_def)
  qed
  have ids: "git_runs E h0 (\<lambda>_. True) (if length d \<ge> 10 then py_seq (delete_documents_batch d) (py_return []) else py_return d)"
    by (intro runs_if runs_bind_any [OF delete_batch_runs] runs_return TrueI)
  have ok: "diff_acc_ok E h0 (c', u', d')" if "pending_ok E h0 c'" "pending_ok E h0 u'" for c' u' d'
    using that by (simp add: diff_acc_ok_def)
  show ?thesis
    unfolding send_full_batches_def acc prod.case
    by (intro runs_bind [OF part] runs_bind_any [OF ids] runs_return ok index_batch_runs update_batch_runs)
      (use assms in \<open>auto simp: one_more_def acc\<close>)
qed

lemma diff_step_runs:
  assumes "diff_acc_ok E h0 acc"
  shows "git_runs E h0 (diff_acc_ok E h0) (diff_step E item acc)"
proof -
  have path: "git_runs E h0 (\<lambda>_. True) (py_lift (diff_file_path item))" by (intro runs_lift TrueI)
  have rest: "git_runs E h0 (diff_acc_ok E h0)
      (case r of (go_on, acc') \<Rightarrow> if go_on then send_full_batches E acc' else py_return acc')"
    if "one_more E h0 r" for r
    using that by (intro runs_case_prod runs_if send_full_batches_runs runs_return)
      (auto simp: one_more_def)
  have index: "should_index_file E h0 f" if "same_settings h0 s" "\<not> \<not> should_index_file E s f" for s f
    using that(2) by (simp add: same_settings_functions [OF that(1)])
  show ?thesis
    unfolding diff_step_def
    by (intro runs_bind_any [OF path] runs_bind_self runs_if runs_return assms
        runs_bind [OF diff_change_runs] rest index)
qed

lemma send_rest_runs:
  assumes "diff_acc_ok E h0 acc"
  shows "git_runs E h0 (\<lambda>_. True) (send_rest E acc)"
proof -
  obtain c u d where acc: "acc = (c, u, d)" by (cases acc)
  have ok: "pending_ok E h0 c" "pending_ok E h0 u" using assms by (simp_all add: diff_acc_ok_def acc)
  show ?thesis
    unfolding send_rest_def acc prod.case
    by (intro runs_bind_any [OF runs_if] runs_if runs_return index_batch_runs update_batch_runs
        delete_batch_runs pending_batch ok TrueI)
qed

subsection \<open>The calls of a whole run\<close>

lemma index_diff_files_runs:
  assumes "truthy (gh_last_indexed_commit h0)" and "\<not> truthy (gh_commit h0)"
    and "last_indexing_had_errors (gh_conditions h0) = Inr False"
  shows "git_runs E h0 (\<lambda>_. True) (index_diff_files E)"
proof -
  have diff_call: "git_call_ok E h0 (GitDiff (gh_last_indexed_commit s) c)" if "same_settings h0 s" for s c
    using assms by (simp add: same_settingsD [OF that])
  have since: "git_runs E h0 (\<lambda>_. True) (git_diff_since E c)" for c
    unfolding git_diff_since_def
  proof (intro runs_bind_self runs_try)
    fix s assume s: "same_settings h0 s"
    have "git_runs E h0 (\<lambda>_. True) (py_call (GitDiff (gh_last_indexed_commit s) c) (git_diff E))"
      by (intro runs_call diff_call [OF s] TrueI)
    then show "git_runs E h0 (\<lambda>_. True)
        (py_bind (py_call (GitDiff (gh_last_indexed_commit s) c) (git_diff E)) (\<lambda>items. py_return (Some items)))"
      by (rule runs_bind_any) (intro runs_return TrueI)
    show "git_runs E h0 (\<lambda>_. True) (case e of GitBadName m \<Rightarrow> py_return None | _ \<Rightarrow> py_raise e)" for e
      by (cases e) (simp_all only: exn.case, (intro runs_raise runs_return TrueI)+)
  qed
  have loop: "git_runs E h0 (diff_acc_ok E h0) (py_for (diff_step E) items ([], [], []))" for items
    by (intro runs_for diff_step_runs) (simp add: diff_acc_ok_def pending_ok_Nil)
  show ?thesis
    unfolding index_diff_files_def
    by (intro runs_try runs_raise runs_bind_any [OF git_head_commit_runs] runs_bind_any [OF since] runs_case_option
        index_all_files_runs runs_bind [OF loop] send_rest_runs)
qed

lemma git_index_runs: "git_runs E h0 (\<lambda>_. True) (git_index E)"
  unfolding git_index_def
proof (rule runs_bind_self)
  fix s assume s: "same_settings h0 s"
  have had: "git_runs E h0 (\<lambda>b. last_indexing_had_errors (gh_conditions h0) = Inr b)
      (py_lift (last_indexing_had_errors (gh_conditions s)))"
    by (intro runs_lift) (simp add: same_settingsD [OF s])
  show "git_runs E h0 (\<lambda>_. True) (py_bind (py_lift (last_indexing_had_errors (gh_conditions s))) (\<lambda>had_errors.
       if truthy (gh_commit s) then index_all_files E
       else if truthy (gh_last_indexed_commit s) \<and> \<not> had_errors then index_diff_files E
       else index_all_files E))"
    by (rule runs_bind [OF had], intro runs_if index_all_files_runs index_diff_files_runs)
      (simp_all add: same_settingsD [OF s])
qed

lemma git_setup_runs: "git_runs E h0 (\<lambda>_. True) (git_setup_repository E)"
proof -
  have azure: "is_azure c \<Longrightarrow> git_call_ok E h0 c" for c by (cases c) simp_all
  have token: "git_runs E h0 (\<lambda>_. True) (py_on (\<lambda>_. c) set_git_credentials (get_token E))" for c
    by (intro runs_on get_token_emits azure) simp_all
  have lifted: "git_runs E h0 (\<lambda>_. True) (py_lift r)" for r :: "exn + 'b"
    by (intro runs_lift TrueI)
  have url: "git_runs E h0 (\<lambda>_. True) (git_clone_url E)"
    unfolding git_clone_url_def
    by (intro runs_bind_self runs_case_option runs_return runs_if runs_bind_any [OF lifted] runs_bind_any [OF token] TrueI)
  have run: "git_runs E h0 (\<lambda>_. True) (py_call c (git_run E))" if "git_call_ok E h0 c" for c
    using that by (intro runs_call TrueI)
  have branch: "git_runs E h0 (\<lambda>_. True) (git_checkout_branch E)"
    unfolding git_checkout_branch_def
  proof (intro runs_bind_self runs_if runs_return runs_try TrueI)
    show "git_runs E h0 (\<lambda>_. True) (py_seq (py_call (GitCheckout b) (git_run E))
        (py_seq (py_call GitFetch (git_run E)) (py_call GitPull (git_run E))))" for b
      by (intro runs_bind_any [OF run] run) simp_all
    show "git_runs E h0 (\<lambda>_. True) (case e of GitCommandError m \<Rightarrow> py_return () | _ \<Rightarrow> py_raise e)" for e
      by (cases e) (simp_all only: exn.case, (intro runs_raise runs_return TrueI)+)
  qed
  have commit: "git_runs E h0 (\<lambda>_. True) (git_checkout_commit E)"
    unfolding git_checkout_commit_def
  proof (intro runs_bind_self runs_if runs_return runs_try TrueI run)
    show "git_call_ok E h0 (GitCheckout c)" for c by simp
    show "git_runs E h0 (\<lambda>_. True) (case e of
            GitCommandError m \<Rightarrow>
              py_raise (DataSourceError (''Failed to checkout commit '' @ py_format c @ '': '' @ m))
          | _ \<Rightarrow> py_raise e)" for e c
      by (cases e) (simp_all only: exn.case, (rule runs_raise)+)
  qed
  have set: "git_runs E h0 (\<lambda>_. True) (py_set f)" if "\<And>s. git_settings (f s) = git_settings s" for f
    by (intro runs_set TrueI) (simp add: that)
  show ?thesis
    unfolding git_setup_repository_def
  proof (rule runs_try)
    show "git_runs E h0 (\<lambda>_. True) (py_bind (git_clone_url E) (\<lambda>clone_url.
        py_bind (py_self gh_work_dir) (\<lambda>work_dir.
        py_seq (py_call (GitClone clone_url (case work_dir of None \<Rightarrow> '''' | Some d \<Rightarrow> d)) (git_run E))
        (py_seq (py_set (\<lambda>h. h\<lparr>gh_repo := True\<rparr>))
        (py_seq (git_checkout_branch E)
        (py_seq (git_checkout_commit E)
        (py_bind (git_head_commit E) (\<lambda>hexsha.
           py_set (\<lambda>h. h\<lparr>gh_current_commit_hash := Some hexsha\<rparr>)))))))))"
      by (rule runs_bind_any [OF url], rule runs_bind_self, rule runs_bind_any [OF run], simp,
          rule runs_bind_any [OF set], simp, rule runs_bind_any [OF branch], rule runs_bind_any [OF commit],
          rule runs_bind_any [OF git_head_commit_runs], rule set, simp)
    show "git_runs E h0 (\<lambda>_. True) (py_bind (py_self gh_repository) (\<lambda>repository. case e of
          GitCommandError m \<Rightarrow>
            py_raise (DataSourceError (''Failed to clone repository '' @ py_format repository @ '': '' @ m))
        | _ \<Rightarrow> py_raise (DataSourceError (''Repository setup failed: '' @ exn_str e))))" for e
      by (rule runs_bind_self, cases e) (simp_all only: exn.case, (rule runs_raise)+)
  qed
qed

lemma git_cleanup_runs: "git_runs E h0 (\<lambda>_. True) (git_cleanup E)"
proof -
  have exists: "git_runs E h0 (\<lambda>_. True) (py_call (PathExists d) (\<lambda>c t. Inr (fs_exists E c t)))" for d
    by (intro runs_call TrueI) simp
  show ?thesis
    unfolding git_cleanup_def
    by (intro runs_bind_self runs_case_option runs_if runs_return runs_bind_any [OF exists] runs_try runs_call TrueI)
      simp_all
qed

lemma git_update_index_runs: "git_runs E h0 (\<lambda>_. True) (git_update_index E)"
proof -
  have set: "git_runs E h0 (\<lambda>_. True) (py_set f)" if "\<And>s. git_settings (f s) = git_settings s" for f
    by (intro runs_set TrueI) (simp add: that)
  have clock: "git_runs E h0 (\<lambda>_. True) (now E)"
  proof (rule runs_emits)
    show "emits (git_call_ok E h0) (now E)" by (intro emits_intros) simp
    show "keeps_self (now E)" by (intro frame_intros)
  qed
  have tmp: "git_runs E h0 (\<lambda>_. True) (py_call (MkDtemp d) (fs_mkdtemp E))" for d
    by (intro runs_call TrueI) simp
  have handle: "git_runs E h0 (\<lambda>_. True) (case e of
               DataSourceError m \<Rightarrow> git_append_error (''Data source error: '' @ m)
             | _ \<Rightarrow> git_append_error (''Unexpected error during Git indexing: '' @ exn_str e))" for e
    by (cases e) (simp_all only: exn.case, (rule git_append_error_runs)+)
  show ?thesis
    unfolding git_update_index_def git_attempt_def
    by (rule runs_bind_any [OF set], simp, rule runs_bind_any [OF clock], rule runs_bind_any [OF runs_finally],
        rule runs_try, rule runs_bind_any [OF tmp], rule runs_bind_any [OF set], simp,
        rule runs_bind_any [OF git_setup_runs], rule git_index_runs, rule handle, rule git_cleanup_runs,
        rule runs_bind_any [OF clock], rule runs_bind_any [OF set], simp, rule runs_self, rule TrueI)
qed

subsection \<open>Outcome of a run\<close>

lemma git_append_error_total [total_intros]: "never_raises (git_append_error m)"
  unfolding git_append_error_def by (intro total_intros)

lemma path_exists_total [total_intros]: "never_raises (py_call (PathExists d) (\<lambda>c t. Inr (fs_exists E c t)))"
  by (simp add: never_raises_def)

lemma git_cleanup_total [total_intros]: "never_raises (git_cleanup E)"
  unfolding git_cleanup_def by (intro total_intros)

lemma git_handler_total: "never_raises (case e of
               DataSourceError m \<Rightarrow> git_append_error (''Data source error: '' @ m)
             | _ \<Rightarrow> git_append_error (''Unexpected error during Git indexing: '' @ exn_str e))"
  by (cases e) (simp_all only: exn.case git_append_error_total)

lemma git_update_index_total: "never_raises (git_update_index E)"
  unfolding git_update_index_def git_attempt_def by (intro total_intros git_handler_total)

text \<open>A part of the handler that the errors are not in is the same after indexing.\<close>

lemma git_batches_keep:
  assumes f: "\<And>h es. f (h\<lparr>gh_errors := es\<rparr>) = f h"
  shows "keeps f (git_append_error m)" "keeps f (index_documents_batch E ds)"
    "keeps f (update_documents_batch E ds)" "keeps f (delete_documents_batch ids)"
proof -
  show error: "keeps f (git_append_error m)" for m
    unfolding git_append_error_def by (intro frame_intros) (rule f)
  show "keeps f (index_documents_batch E ds)" "keeps f (update_documents_batch E ds)"
    "keeps f (delete_documents_batch ids)"
    unfolding index_documents_batch_def update_documents_batch_def delete_documents_batch_def
    by (intro frame_intros error)+
qed

lemma git_setup_keeps_work_dir: "keeps gh_work_dir (git_setup_repository E)"
proof -
  have handler: "keeps gh_work_dir (case e of GitCommandError m \<Rightarrow> py_raise (f m) | _ \<Rightarrow> py_raise (g e))"
    "keeps gh_work_dir (case e of GitCommandError m \<Rightarrow> py_return () | _ \<Rightarrow> py_raise e)" for e f g
    by (cases e; simp add: frame_intros)+
  show ?thesis
    unfolding git_setup_repository_def git_clone_url_def git_checkout_branch_def git_checkout_commit_def git_head_commit_def
    by (intro frame_intros handler) (simp_all add: set_git_credentials_def)
qed

lemma git_index_keeps:
  assumes part: "\<And>h es. part (h\<lparr>gh_errors := es\<rparr>) = part h"
  shows "keeps part (git_index E)"
proof -
  note batches = git_batches_keep [of part, OF part]
  note error = batches(1)
  have full: "keeps part (index_all_files E)"
    unfolding index_all_files_def get_repository_files_def full_step_def read_file_content_def create_document_def
      git_head_commit_def
    by (intro frame_intros batches)
  have find: "keeps part (find_indexed E p purpose)" for p purpose
    unfolding find_indexed_def by (intro frame_intros error)
  have create: "keeps part (create_document E f c ty)" for f c ty
    unfolding create_document_def git_head_commit_def by (intro frame_intros)
  have read: "keeps part (read_file_content E f)" for f
    unfolding read_file_content_def by (intro frame_intros)
  have change: "keeps part (diff_change E f item acc)" for f item acc
    unfolding diff_change_def diff_added_def diff_modified_def diff_deleted_def diff_renamed_def replace_indexed_def
    by (cases acc) (simp only: prod.case, intro frame_intros find create read)
  have step: "keeps part (diff_step E item acc)" for item acc
  proof -
    have "keeps part (send_full_batches E acc)" for acc
      unfolding send_full_batches_def by (cases acc) (simp only: prod.case, intro frame_intros batches)
    then have "keeps part (case r of (go_on, acc') \<Rightarrow> if go_on then send_full_batches E acc' else py_return acc')" for r
      by (cases r) (simp add: frame_intros)
    then show ?thesis unfolding diff_step_def by (intro frame_intros change)
  qed
  have rest: "keeps part (send_rest E acc)" for acc
    unfolding send_rest_def by (cases acc) (simp only: prod.case, intro frame_intros batches)
  have since: "keeps part (git_diff_since E c)" for c
  proof -
    have "keeps part (case e of GitBadName m \<Rightarrow> py_return None | _ \<Rightarrow> py_raise e)" for e
      by (cases e; simp add: frame_intros)
    then show ?thesis unfolding git_diff_since_def by (intro frame_intros)
  qed
  have diff: "keeps part (index_diff_files E)"
    unfolding index_diff_files_def git_head_commit_def by (intro frame_intros since full step rest)
  show ?thesis unfolding git_index_def by (intro frame_intros full diff)
qed

lemma git_index_keeps_work_dir: "keeps gh_work_dir (git_index E)" and git_hash_keeps: "keeps gh_current_commit_hash (git_index E)"
  by (rule git_index_keeps; simp)+

subsection \<open>The commit that is checked out\<close>

text \<open>The calls that change which commit is checked out.\<close>

fun moves_head :: "call \<Rightarrow> bool" where
  "moves_head (GitClone url dir) \<longleftrightarrow> True"
| "moves_head (GitCheckout what) \<longleftrightarrow> True"
| "moves_head GitPull \<longleftrightarrow> True"
| "moves_head c \<longleftrightarrow> False"

text \<open>The answer to the first question for the commit that is checked out, in a run that has made the calls \<open>u\<close>
  after \<open>t\<close>.\<close>

definition commit_told :: "env \<Rightarrow> trace \<Rightarrow> trace \<Rightarrow> string option" where
  "commit_told E t u =
     (if GitHeadCommit \<in> set u
      then (case git_head E GitHeadCommit (t @ takeWhile (\<lambda>c. c \<noteq> GitHeadCommit) u) of Inl e \<Rightarrow> None | Inr c \<Rightarrow> Some c)
      else None)"

text \<open>What has been checked out by the calls \<open>v\<close>: a clone, then what the branch asks for and, at the end and with success, the
  requested commit.\<close>

definition checked_out :: "env \<Rightarrow> git_handler \<Rightarrow> trace \<Rightarrow> bool" where
  "checked_out E h v \<longleftrightarrow>
     (\<exists>url dir b. filter moves_head v = GitClone url dir # b @ (if truthy (gh_commit h) then [GitCheckout (gh_commit h)] else []) \<and>
        b \<in> {[], [GitCheckout (gh_branch h)], [GitCheckout (gh_branch h), GitPull]}) \<and>
     (truthy (gh_commit h) \<longrightarrow> (\<exists>t. git_run E (GitCheckout (gh_commit h)) t = Inr ()))"

lemma git_checkout_branch_calls:
  obtains r w where "git_checkout_branch E (h, t) = (r, h, t @ w)"
    and "w \<in> {[], [GitCheckout (gh_branch h)], [GitCheckout (gh_branch h), GitFetch], [GitCheckout (gh_branch h), GitFetch, GitPull]}"
proof -
  have handle: "(case e of GitCommandError m \<Rightarrow> py_return () | _ \<Rightarrow> py_raise e) (h, t') =
      (case e of GitCommandError m \<Rightarrow> Inr () | _ \<Rightarrow> Inl e, h, t')" for e t'
    by (cases e) simp_all
  let ?c = "GitCheckout (gh_branch h)"
  have "\<exists>r w. git_checkout_branch E (h, t) = (r, h, t @ w) \<and> w \<in> {[], [?c], [?c, GitFetch], [?c, GitFetch, GitPull]}"
    by (cases "git_run E ?c t"; cases "git_run E GitFetch (t @ [?c])"; cases "git_run E GitPull (t @ [?c, GitFetch])")
      (auto simp: git_checkout_branch_def py_bind_def py_try_def handle)
  then show ?thesis using that by blast
qed

lemma git_checkout_commit_calls:
  obtains r where "git_checkout_commit E (h, t) = (r, h, t @ (if truthy (gh_commit h) then [GitCheckout (gh_commit h)] else []))"
    and "r = Inr () \<longrightarrow> truthy (gh_commit h) \<longrightarrow> git_run E (GitCheckout (gh_commit h)) t = Inr ()"
proof -
  let ?c = "GitCheckout (gh_commit h)"
  have handle: "(case e of GitCommandError m \<Rightarrow> py_raise (DataSourceError (f m)) | _ \<Rightarrow> py_raise e) (h, t') =
      (Inl (case e of GitCommandError m \<Rightarrow> DataSourceError (f m) | _ \<Rightarrow> e), h, t')" for e t' and f :: "string \<Rightarrow> string"
    by (cases e) simp_all
  show ?thesis
    by (cases "truthy (gh_commit h)"; cases "git_run E ?c t")
      (auto simp: git_checkout_commit_def py_bind_def py_try_def handle intro!: that)
qed

lemma git_clone_url_calls:
  obtains r h' w where "git_clone_url E (h, t) = (r, h', t @ w)" and "list_all is_azure w"
    and "gh_commit h' = gh_commit h" and "gh_branch h' = gh_branch h" and "gh_current_commit_hash h' = gh_current_commit_hash h"
proof -
  have "emits is_azure (git_clone_url E)"
    unfolding git_clone_url_def by (intro emits_intros) auto
  moreover have "keeps (\<lambda>h. (gh_commit h, gh_branch h, gh_current_commit_hash h)) (git_clone_url E)"
    unfolding git_clone_url_def by (intro frame_intros) (simp add: set_git_credentials_def)
  moreover obtain r h' t' where "git_clone_url E (h, t) = (r, h', t')" by (metis prod.collapse)
  ultimately show ?thesis
    using emitsD [of is_azure "git_clone_url E" "(h, t)"] keepsD [of _ "git_clone_url E" "(h, t)" r h' t']
    by (intro that [of r h' "new_calls (git_clone_url E) (h, t)"]) auto
qed

lemma azure_moves: "list_all is_azure w \<Longrightarrow> filter moves_head w = [] \<and> GitHeadCommit \<notin> set w"
proof (induction w)
  case (Cons c w)
  then show ?case by (cases c) auto
qed simp

text \<open>How the hash that a computation leaves comes about: it is the answer to the last call, the first
  question for it, after the checkouts; or there is none.\<close>

definition told_last :: "env \<Rightarrow> git_handler \<Rightarrow> trace \<Rightarrow> trace \<Rightarrow> string option \<Rightarrow> bool" where
  "told_last E h t u told \<longleftrightarrow>
     (told = None \<and> GitHeadCommit \<notin> set u) \<or>
     (\<exists>v. u = v @ [GitHeadCommit] \<and> GitHeadCommit \<notin> set v \<and> checked_out E h v \<and>
        told = (case git_head E GitHeadCommit (t @ v) of Inl e \<Rightarrow> None | Inr c \<Rightarrow> Some c))"

lemma head_set:
  "py_bind (git_head_commit E) (\<lambda>hexsha. py_set (\<lambda>h. h\<lparr>gh_current_commit_hash := Some hexsha\<rparr>)) (h, t) =
    (case git_head E GitHeadCommit t of
       Inl e \<Rightarrow> (Inl e, h, t @ [GitHeadCommit])
     | Inr c \<Rightarrow> (Inr (), h\<lparr>gh_current_commit_hash := Some c\<rparr>, t @ [GitHeadCommit]))"
  by (simp add: git_head_commit_def py_bind_def split: sum.split)

lemma setup_tail:
  assumes "git_checkout_branch E (h, t) = (r1, h, t @ w1)"
    and "w1 \<in> {[], [GitCheckout (gh_branch h)], [GitCheckout (gh_branch h), GitFetch], [GitCheckout (gh_branch h), GitFetch, GitPull]}"
    and "gh_current_commit_hash h = None"
    and run: "py_seq (git_checkout_branch E) (py_seq (git_checkout_commit E) (py_bind (git_head_commit E)
      (\<lambda>hexsha. py_set (\<lambda>h. h\<lparr>gh_current_commit_hash := Some hexsha\<rparr>)))) (h, t) = (r, h', t')"
  obtains u where "t' = t @ u" and "gh_current_commit_hash h' = None" and "GitHeadCommit \<notin> set u" and "isl r"
  | b where "t' = t @ b @ (if truthy (gh_commit h) then [GitCheckout (gh_commit h)] else []) @ [GitHeadCommit]"
    and "b \<in> {[], [GitCheckout (gh_branch h)], [GitCheckout (gh_branch h), GitFetch], [GitCheckout (gh_branch h), GitFetch, GitPull]}"
    and "truthy (gh_commit h) \<longrightarrow> (\<exists>t. git_run E (GitCheckout (gh_commit h)) t = Inr ())"
    and "gh_current_commit_hash h' =
      (case git_head E GitHeadCommit (t @ b @ (if truthy (gh_commit h) then [GitCheckout (gh_commit h)] else [])) of
         Inl e \<Rightarrow> None | Inr c \<Rightarrow> Some c)"
proof (cases r1)
  case (Inl e)
  have "t' = t @ w1" "h' = h" "r = Inl e" using run assms(1) Inl by (simp_all add: py_bind_def)
  then show ?thesis using that(1) [of w1] assms(2,3) by auto
next
  case (Inr x)
  let ?c = "if truthy (gh_commit h) then [GitCheckout (gh_commit h)] else []"
  obtain r2 where c: "git_checkout_commit E (h, t @ w1) = (r2, h, (t @ w1) @ ?c)"
    "r2 = Inr () \<longrightarrow> truthy (gh_commit h) \<longrightarrow> git_run E (GitCheckout (gh_commit h)) (t @ w1) = Inr ()"
    by (rule git_checkout_commit_calls)
  show ?thesis
  proof (cases r2)
    case r2: (Inl e)
    have "t' = t @ w1 @ ?c" "h' = h" "r = Inl e" using run assms(1) Inr c(1) r2 by (auto simp: py_bind_def)
    then show ?thesis using that(1) [of "w1 @ ?c"] assms(2,3) by auto
  next
    case r2: (Inr y)
    have ok: "truthy (gh_commit h) \<longrightarrow> (\<exists>t. git_run E (GitCheckout (gh_commit h)) t = Inr ())" using c(2) r2 by auto
    have head: "py_bind (git_head_commit E) (\<lambda>hexsha. py_set (\<lambda>h. h\<lparr>gh_current_commit_hash := Some hexsha\<rparr>))
        (h, (t @ w1) @ ?c) = (r, h', t')"
      using run assms(1) Inr c(1) r2 by (simp add: py_bind_Inr)
    show ?thesis
      by (rule that(2) [OF _ assms(2) ok])
        (use head assms(3) in \<open>auto simp: head_set split: sum.splits split del: if_split\<close>)
  qed
qed

lemma git_setup_told:
  assumes fresh: "gh_current_commit_hash h = None" and run: "git_setup_repository E (h, t) = (r, h', t')"
  obtains u where "t' = t @ u" and "told_last E h t u (gh_current_commit_hash h')"
    and "r = Inr () \<longrightarrow> GitHeadCommit \<in> set u"
proof -
  let ?tail = "py_seq (git_checkout_branch E) (py_seq (git_checkout_commit E)
        (py_bind (git_head_commit E) (\<lambda>hexsha. py_set (\<lambda>h. h\<lparr>gh_current_commit_hash := Some hexsha\<rparr>))))"
  let ?body = "py_bind (git_clone_url E) (\<lambda>clone_url. py_bind (py_self gh_work_dir) (\<lambda>work_dir.
        py_seq (py_call (GitClone clone_url (case work_dir of None \<Rightarrow> '''' | Some d \<Rightarrow> d)) (git_run E))
        (py_seq (py_set (\<lambda>h. h\<lparr>gh_repo := True\<rparr>)) ?tail)))"
  obtain r0 h0 t0 where body: "?body (h, t) = (r0, h0, t0)" by (metis prod.collapse)
  have "(py_bind (py_self gh_repository) (\<lambda>repository. case e of
          GitCommandError m \<Rightarrow>
            py_raise (DataSourceError (''Failed to clone repository '' @ py_format repository @ '': '' @ m))
        | _ \<Rightarrow> py_raise (DataSourceError (''Repository setup failed: '' @ exn_str e))) :: (git_handler, unit) py) (h0, t0) = (r, h', t')
      \<Longrightarrow> h' = h0 \<and> t' = t0 \<and> r \<noteq> Inr ()" for e
    by (cases e) (auto simp: py_bind_def)
  then have last: "h' = h0 \<and> t' = t0 \<and> (r = Inr () \<longrightarrow> r0 = Inr ())"
    using run body unfolding git_setup_repository_def py_try_def
    by (cases r0) auto
  obtain r1 h1 w1 where url: "git_clone_url E (h, t) = (r1, h1, t @ w1)" and azure: "list_all is_azure w1"
    and same: "gh_commit h1 = gh_commit h" "gh_branch h1 = gh_branch h"
      "gh_current_commit_hash h1 = gh_current_commit_hash h"
    by (rule git_clone_url_calls)
  note w1 = azure_moves [OF azure]
  show ?thesis
  proof (cases r1)
    case (Inl e)
    have "t0 = t @ w1" "h0 = h1" "r0 = Inl e" using body url Inl by (auto simp: py_bind_def)
    then show ?thesis using that [of w1] last same fresh w1 by (auto simp: told_last_def)
  next
    case (Inr clone_url)
    let ?cl = "GitClone clone_url (case gh_work_dir h1 of None \<Rightarrow> '''' | Some d \<Rightarrow> d)"
    let ?h2 = "h1\<lparr>gh_repo := True\<rparr>" and ?t2 = "t @ w1 @ [?cl]"
    show ?thesis
    proof (cases "git_run E ?cl (t @ w1)")
      case (Inl e)
      have "t0 = ?t2" "h0 = h1" "r0 = Inl e" using body url Inr Inl by (auto simp: py_bind_def)
      then show ?thesis using that [of "w1 @ [?cl]"] last same fresh w1 by (auto simp: told_last_def)
    next
      case cloned: (Inr x)
      have rest: "?tail (?h2, ?t2) = (r0, h0, t0)"
        using body url Inr cloned by (simp add: py_bind_Inr)
      have none: "gh_current_commit_hash ?h2 = None" using same fresh by simp
      obtain r3 w3 where br: "git_checkout_branch E (?h2, ?t2) = (r3, ?h2, ?t2 @ w3)"
        "w3 \<in> {[], [GitCheckout (gh_branch ?h2)], [GitCheckout (gh_branch ?h2), GitFetch], [GitCheckout (gh_branch ?h2), GitFetch, GitPull]}"
        by (rule git_checkout_branch_calls)
      from br none rest show ?thesis
      proof (cases rule: setup_tail)
        case (1 u)
        then have "r \<noteq> Inr ()" using last by auto
        with 1 show ?thesis using that [of "w1 @ ?cl # u"] last w1 by (auto simp: told_last_def)
      next
        case (2 b)
        let ?c = "if truthy (gh_commit h) then [GitCheckout (gh_commit h)] else []"
        let ?v = "w1 @ ?cl # b @ ?c"
        have "checked_out E h ?v"
          unfolding checked_out_def using 2(2,3) same w1 by auto
        moreover have "GitHeadCommit \<notin> set ?v" using 2(2) w1 by auto
        ultimately have "told_last E h t (?v @ [GitHeadCommit]) (gh_current_commit_hash h')"
          unfolding told_last_def using 2(4) last same by auto
        then show ?thesis using that [of "?v @ [GitHeadCommit]"] 2(1) last same by simp
      qed
    qed
  qed
qed

text \<open>Indexing moves nothing, and does not touch the hash.\<close>

lemma git_index_still:
  assumes P: "\<And>c. \<not> moves_head c \<Longrightarrow> P c"
  shows "emits P (git_index E)"
proof -
  have head: "emits P (git_head_commit E)" unfolding git_head_commit_def by (intro emits_intros P) simp
  have error: "emits P (git_append_error m)" for m unfolding git_append_error_def by (intro emits_intros)
  have batch: "emits P (index_documents_batch E ds)" "emits P (update_documents_batch E ds)"
    "emits P (delete_documents_batch ids)" for ds ids
    unfolding index_documents_batch_def update_documents_batch_def delete_documents_batch_def
    by (intro emits_intros rag_client_emits error P; simp)+
  have create: "emits P (create_document E f c ty)" for f c ty
    unfolding create_document_def by (intro emits_intros now_emits head P) simp
  have read: "emits P (read_file_content E f)" for f
    unfolding read_file_content_def by (intro emits_intros P) simp
  have full: "emits P (index_all_files E)"
    unfolding index_all_files_def get_repository_files_def full_step_def
    by (intro emits_intros batch create read P) simp
  have find: "emits P (find_indexed E p purpose)" for p purpose
    unfolding find_indexed_def by (intro emits_intros rag_client_emits error P) simp
  have change: "emits P (diff_change E f item acc)" for f item acc
    unfolding diff_change_def diff_added_def diff_modified_def diff_deleted_def diff_renamed_def replace_indexed_def
    by (cases acc) (simp only: prod.case, intro emits_intros find create read)
  have full_batches: "emits P (send_full_batches E acc)" for acc
    unfolding send_full_batches_def by (cases acc) (simp only: prod.case, intro emits_intros batch)
  have step: "emits P (diff_step E item acc)" for item acc
    unfolding diff_step_def by (intro emits_intros change full_batches)
  have rest: "emits P (send_rest E acc)" for acc
    unfolding send_rest_def by (cases acc) (simp only: prod.case, intro emits_intros batch)
  have "emits P (case e of GitBadName m \<Rightarrow> py_return None | _ \<Rightarrow> py_raise e)" for e
    by (cases e) (simp_all add: emits_intros)
  then have since: "emits P (git_diff_since E c)" for c
    unfolding git_diff_since_def by (intro emits_intros P) simp_all
  have diff: "emits P (index_diff_files E)"
    unfolding index_diff_files_def by (intro emits_intros since full step rest head)
  show ?thesis unfolding git_index_def by (intro emits_intros full diff)
qed

lemma git_cleanup_still:
  "emits (\<lambda>c. \<not> moves_head c \<and> c \<noteq> GitHeadCommit) (git_cleanup E)" "keeps gh_current_commit_hash (git_cleanup E)"
  unfolding git_cleanup_def by (intro emits_intros; simp) (intro frame_intros)

text \<open>The block of the \<open>try\<close> statement after the directory has been made.\<close>

definition commit_known :: "env \<Rightarrow> git_handler \<Rightarrow> trace \<Rightarrow> trace \<Rightarrow> string option \<Rightarrow> bool" where
  "commit_known E h t u told \<longleftrightarrow>
     told = commit_told E t u \<and>
     (GitHeadCommit \<in> set u \<longrightarrow> checked_out E h (takeWhile (\<lambda>c. c \<noteq> GitHeadCommit) u) \<and>
       filter moves_head u = filter moves_head (takeWhile (\<lambda>c. c \<noteq> GitHeadCommit) u))"

lemma commit_known_cong:
  "gh_commit g = gh_commit h \<Longrightarrow> gh_branch g = gh_branch h \<Longrightarrow> commit_known E g t u told = commit_known E h t u told"
  by (simp add: commit_known_def checked_out_def)

lemma told_last_known:
  assumes "told_last E h t u told" and "list_all (\<lambda>c. \<not> moves_head c) w"
    and "GitHeadCommit \<in> set u \<or> GitHeadCommit \<notin> set w"
  shows "commit_known E h t (u @ w) told"
proof -
  have w: "filter moves_head w = []" using assms(2) by (simp add: list_all_iff filter_empty_conv)
  have tw: "takeWhile (\<lambda>c. c \<noteq> GitHeadCommit) (v @ GitHeadCommit # w) = v" if "GitHeadCommit \<notin> set v" for v w
    using that by (induction v) auto
  show ?thesis
    using assms(1,3) w unfolding told_last_def commit_known_def commit_told_def
    by (elim disjE exE conjE) (auto simp: tw)
qed

lemma commit_known_shift:
  assumes "commit_known E h (t @ a) u told" and "GitHeadCommit \<notin> set a" and "filter moves_head a = []"
  shows "commit_known E h t (a @ u) told"
proof -
  have tw: "takeWhile (\<lambda>c. c \<noteq> GitHeadCommit) (a @ u) = a @ takeWhile (\<lambda>c. c \<noteq> GitHeadCommit) u"
    using assms(2) by (induction a) auto
  show ?thesis
    using assms unfolding commit_known_def commit_told_def tw checked_out_def by auto
qed

lemma git_block_known:
  assumes fresh: "gh_current_commit_hash h = None"
    and run: "py_seq (git_setup_repository E) (git_index E) (h, t) = (r, h', t')"
  obtains u where "t' = t @ u" and "\<forall>w. list_all (\<lambda>c. \<not> moves_head c \<and> c \<noteq> GitHeadCommit) w \<longrightarrow>
    commit_known E h t (u @ w) (gh_current_commit_hash h')"
proof -
  obtain r1 h1 t1 where s: "git_setup_repository E (h, t) = (r1, h1, t1)" by (metis prod.collapse)
  obtain u where u: "t1 = t @ u" "told_last E h t u (gh_current_commit_hash h1)" "r1 = Inr () \<longrightarrow> GitHeadCommit \<in> set u"
    by (rule git_setup_told [OF fresh s])
  have quiet: "list_all (\<lambda>c. \<not> moves_head c) w" "GitHeadCommit \<notin> set w"
    if "list_all (\<lambda>c. \<not> moves_head c \<and> c \<noteq> GitHeadCommit) w" for w
    using that by (auto simp: list_all_iff)
  show ?thesis
  proof (cases r1)
    case (Inl e)
    then have "t' = t @ u" "h' = h1" using run s u(1) by (auto simp: py_bind_def)
    then show ?thesis
      using that [of u] told_last_known [OF u(2) quiet(1)] quiet(2) by blast
  next
    case (Inr x)
    then have i: "git_index E (h1, t1) = (r, h', t')" using run s by (simp add: py_bind_Inr)
    have head: "GitHeadCommit \<in> set u" using u(3) Inr by simp
    have "emits (\<lambda>c. \<not> moves_head c) (git_index E)" by (rule git_index_still)
    from emitsD [OF this, of "(h1, t1)"] obtain v where v: "t' = t1 @ v" "list_all (\<lambda>c. \<not> moves_head c) v"
      using i by auto
    have same: "gh_current_commit_hash h' = gh_current_commit_hash h1" using keepsD [OF git_hash_keeps i] by simp
    show ?thesis
    proof (rule that [of "u @ v"])
      show "t' = t @ u @ v" using u(1) v(1) by simp
      have "commit_known E h t ((u @ v) @ w) (gh_current_commit_hash h')"
        if w: "list_all (\<lambda>c. \<not> moves_head c \<and> c \<noteq> GitHeadCommit) w" for w
        using told_last_known [OF u(2), of "v @ w"] v(2) quiet [OF w] head same by simp
      then show "\<forall>w. list_all (\<lambda>c. \<not> moves_head c \<and> c \<noteq> GitHeadCommit) w \<longrightarrow>
          commit_known E h t ((u @ v) @ w) (gh_current_commit_hash h')" by blast
    qed
  qed
qed

lemma git_update_index_known:
  assumes fresh: "gh_current_commit_hash h = None"
    and run: "git_update_index E (h, t) = (r, h', t')"
  obtains u where "t' = t @ u" and "commit_known E h t u (gh_current_commit_hash h')"
proof -
  let ?h0 = "h\<lparr>gh_errors := []\<rparr>" and ?t0 = "t @ [ClockNow]"
  obtain r1 h1 t1 where a: "git_attempt E (?h0, ?t0) = (r1, h1, t1)" by (metis prod.collapse)
  obtain r2 h2 t2 where c: "git_cleanup E (h1, t1) = (r2, h2, t2)" by (metis prod.collapse)
  obtain v where v: "t2 = t1 @ v" "list_all (\<lambda>c. \<not> moves_head c \<and> c \<noteq> GitHeadCommit) v"
    using emitsD [OF git_cleanup_still(1) [of E], of "(h1, t1)"] c by auto
  have "never_raises (git_attempt E)"
    unfolding git_attempt_def
    by (rule never_raises_try) (rule git_handler_total)
  then have r1: "r1 = Inr ()" using never_raisesD [of "git_attempt E" "(?h0, ?t0)"] a by auto
  obtain w where w: "t1 = t @ w" "commit_known E h t (w @ v @ [ClockNow]) (gh_current_commit_hash h1)"
  proof -
    let ?mk = "MkDtemp ''autoindexer_git_''"
    let ?m = "py_seq (git_setup_repository E) (git_index E)"
    have error: "gh_current_commit_hash h1 = gh_current_commit_hash h3 \<and> t1 = t3"
      if "(case e of DataSourceError m \<Rightarrow> git_append_error (''Data source error: '' @ m)
        | _ \<Rightarrow> git_append_error (''Unexpected error during Git indexing: '' @ exn_str e)) (h3, t3) = (r1, h1, t1)" for e h3 t3
      using that by (cases e) (auto simp: git_append_error_run)
    show ?thesis
    proof (cases "fs_mkdtemp E ?mk ?t0")
      case (Inl e)
      have "gh_current_commit_hash h1 = None \<and> t1 = ?t0 @ [?mk]"
        using a Inl fresh error [of e ?h0 "?t0 @ [?mk]"] by (simp add: git_attempt_def py_try_def py_bind_def)
      then show ?thesis
        using v(2) by (intro that [of "[ClockNow, ?mk]"]) (auto simp: commit_known_def commit_told_def list_all_iff)
    next
      case (Inr d)
      let ?h2 = "?h0\<lparr>gh_work_dir := Some d\<rparr>" and ?t2 = "?t0 @ [?mk]"
      obtain r3 h3 t3 where blk: "?m (?h2, ?t2) = (r3, h3, t3)" by (metis prod.collapse)
      have fresh2: "gh_current_commit_hash ?h2 = None" using fresh by simp
      obtain u where u: "t3 = ?t2 @ u" "\<forall>w. list_all (\<lambda>c. \<not> moves_head c \<and> c \<noteq> GitHeadCommit) w \<longrightarrow>
          commit_known E ?h2 ?t2 (u @ w) (gh_current_commit_hash h3)"
        by (rule git_block_known [OF fresh2 blk])
      have last: "gh_current_commit_hash h1 = gh_current_commit_hash h3 \<and> t1 = t3"
        using a Inr blk error [of _ h3 t3]
        by (cases r3) (simp_all add: git_attempt_def py_try_def py_bind_def)
      have "commit_known E ?h2 (t @ [ClockNow, ?mk]) (u @ v @ [ClockNow]) (gh_current_commit_hash h1)"
        using u(2) [rule_format, of "v @ [ClockNow]"] v(2) last by simp
      then have "commit_known E ?h2 t ([ClockNow, ?mk] @ u @ v @ [ClockNow]) (gh_current_commit_hash h1)"
        by (rule commit_known_shift) simp_all
      then have "commit_known E h t ([ClockNow, ?mk] @ u @ v @ [ClockNow]) (gh_current_commit_hash h1)"
        using commit_known_cong [of ?h2 h] by simp
      then show ?thesis using last u(1) by (intro that [of "[ClockNow, ?mk] @ u"]) simp_all
    qed
  qed
  have "gh_current_commit_hash h2 = gh_current_commit_hash h1" using keepsD [OF git_cleanup_still(2) c] by simp
  moreover have "r2 = Inr ()" using never_raisesD [OF git_cleanup_total, of E "(h1, t1)"] c by auto
  ultimately have "gh_current_commit_hash h' = gh_current_commit_hash h1 \<and> t' = t2 @ [ClockNow]"
    using run a c r1 by (auto simp: git_update_index_def py_bind_def now_def py_finally_def)
  then show ?thesis using w v(1) by (intro that [of "w @ v @ [ClockNow]"]) simp_all
qed

text \<open>What reading a file gives when the file does not change.\<close>

lemma read_file_content_stable:
  assumes "gh_work_dir h = Some d" and "fs_read E (ReadFile (path_join d f)) t = Inr raw"
    and "extract_text E raw (get_content_type f) (py_lower (snd (splitext f))) = Inr content"
  shows "fst (read_file_content E f (h, t)) = Inr (Some content)"
  using assms by (simp add: read_file_content_def py_bind_def py_try_def)

lemma index_all_files_run:
  assumes "gh_work_dir h = Some d" and "fs_walk E (OsWalk d) t = Inr walk"
  shows "\<exists>h' u news. index_all_files E (h, t) = (Inr (), h', t @ u) \<and>
    list_all2 (full_made E (git_fixed h)) (files_of_walk E h d walk) news \<and>
    concat (indexed_batches u) = concat news \<and>
    list_all (\<lambda>b. b \<noteq> [] \<and> length b \<le> 10) (indexed_batches u)"
proof -
  let ?fs = "files_of_walk E h d walk" and ?t1 = "t @ [OsWalk d]"
  obtain r1 h1 t1 where loop: "py_for (full_step E) ?fs [] (h, ?t1) = (r1, h1, t1)" by (metis prod.collapse)
  have "never_raises (py_for (full_step E) ?fs [])"
    unfolding full_step_def by (intro total_intros)
  then obtain docs where r1: "r1 = Inr docs" using never_raisesD [of _ "(h, ?t1)"] loop by fastforce
  obtain u where u: "t1 = ?t1 @ u" "git_fixed h1 = git_fixed h" "list_all (\<lambda>b. length b = 10) (indexed_batches u)"
    "\<forall>docs'. r1 = Inr docs' \<longrightarrow> length docs' < 10 \<and>
      (\<exists>news. list_all2 (full_made E (git_fixed h)) ?fs news \<and> concat (indexed_batches u) @ docs' = [] @ concat news)"
    using git_full.loop_batches [OF _ loop] by auto
  then obtain news where news: "length docs < 10" "list_all2 (full_made E (git_fixed h)) ?fs news"
    "concat (indexed_batches u) @ docs = concat news" using r1 by auto
  have small: "list_all (\<lambda>b. b \<noteq> [] \<and> length b \<le> 10) (indexed_batches u)"
    using u(3) by (auto simp: list_all_iff)
  have files: "get_repository_files E (h, t) = (Inr ?fs, h, ?t1)"
    using assms by (simp add: get_repository_files_def py_bind_def)
  show ?thesis
  proof (cases "docs = []")
    case True
    have "index_all_files E (h, t) = (Inr (), h1, t @ OsWalk d # u)"
      using files loop r1 u(1) True by (simp add: index_all_files_def py_try_def py_bind_def)
    then show ?thesis using news small True
      by (intro exI [of _ h1] exI [of _ "OsWalk d # u"] exI [of _ news]) auto
  next
    case False
    let ?c = "RagIndex (rc_base_url (gh_rag_client h1)) (gh_index_name h1) docs"
    obtain h2 where b: "index_documents_batch E docs (h1, t1) = (Inr (), h2, t1 @ [?c])"
      by (rule index_documents_batch_run)
    have "index_all_files E (h, t) = (Inr (), h2, t @ OsWalk d # u @ [?c])"
      using files loop r1 u(1) False b by (simp add: index_all_files_def py_try_def py_bind_def)
    then show ?thesis using news small False
      by (intro exI [of _ h2] exI [of _ "OsWalk d # u @ [?c]"] exI [of _ news]) auto
  qed
qed

definition doc_path :: "document \<Rightarrow> json option" where
  "doc_path d = map_of (doc_metadata d) ''file_path''"

lemma git_document_parts [simp]:
  "doc_text (git_document h f c ty ts cm) = c"
  "doc_path (git_document h f c ty ts cm) = Some (JStr f)"
  by (simp_all add: git_document_def doc_path_def Let_def)

lemma full_made_stable:
  assumes "list_all2 (full_made E (git_fixed h)) fs news" and "gh_work_dir h = Some d"
    and "\<And>f t. f \<in> set fs \<Longrightarrow> fs_read E (ReadFile (path_join d f)) t = Inr (raw f)"
    and "\<And>f. f \<in> set fs \<Longrightarrow>
      extract_text E (raw f) (get_content_type f) (py_lower (snd (splitext f))) = Inr (content f)"
    and "\<And>t. \<not> isl (git_head E GitHeadCommit t)"
  shows "map (\<lambda>d. (doc_path d, doc_text d)) (concat news) =
    map (\<lambda>f. (Some (JStr f), content f)) (filter (\<lambda>f. content f \<noteq> '''') fs)"
  using assms(1,3,4)
proof (induction fs news rule: list_all2_induct)
  case Nil
  then show ?case by simp
next
  case (Cons f fs new news)
  from Cons.hyps(1) obtain g t c where g: "git_fixed g = git_fixed h"
    "fst (read_file_content E f (g, t)) = Inr c"
    "case c of None \<Rightarrow> new = []
     | Some text \<Rightarrow> if text = '''' then new = []
         else (\<exists>ts commit. new = [git_document (git_fixed h) f text ''full'' ts commit]) \<or>
              (new = [] \<and> (\<exists>e t. git_head E GitHeadCommit t = Inl e))"
    by (auto simp: full_made_def)
  have "gh_work_dir g = Some d" using arg_cong [OF g(1), of gh_work_dir] assms(2) by simp
  from read_file_content_stable [OF this Cons.prems(1,2)] g(2) have c: "c = Some (content f)" by simp
  have "map (\<lambda>d. (doc_path d, doc_text d)) new =
      map (\<lambda>f. (Some (JStr f), content f)) (filter (\<lambda>f. content f \<noteq> '''') [f])"
    using g(3) assms(5) by (cases "content f = ''''") (auto simp: c isl_def)
  with Cons show ?case by simp
qed

subsection \<open>Properties\<close>

text \<open>C7: What a run over a repository sends. In every world and whatever fails, each batch sent to the
  engine goes to the configured index and has one to ten documents, each the non-empty text of a
  file that is to be indexed; a diff is asked for only since the commit indexed last, when no
  commit is requested and the last run had no errors; nothing is deleted, and nothing is written to
  the AutoIndexer resource.\<close>

theorem git_run_sends_only_allowed:
  "list_all (git_call_ok E h) (new_calls (git_update_index E) (h, t))"
  by (rule runs_new_calls [OF git_update_index_runs]) simp

text \<open>C21: The choice between full and incremental indexing. Everything is indexed when a commit is
  requested, when no commit has been indexed or when the status has an \<open>AutoIndexerError\<close> condition
  that is \<open>True\<close>; otherwise the changes since the commit indexed last.\<close>

theorem git_strategy:
  assumes "gh_conditions h = JList cs" and "list_all is_dict cs"
  shows "git_index E (h, t) =
    (if truthy (gh_commit h) \<or> \<not> truthy (gh_last_indexed_commit h) \<or>
        (\<exists>c\<in>set cs. has_type ''AutoIndexerError'' c \<and> jget c ''status'' = Some (JStr ''True''))
     then index_all_files E (h, t) else index_diff_files E (h, t))"
  using assms(1)
  by (auto simp: git_index_def last_indexing_had_errors_def any_indexing_error_iff [OF assms(2)] py_bind_def)

text \<open>C12: Full indexing is complete. When the files and the head of the repository can be read, the
  documents sent are exactly the files that are to be indexed and have a text, each once, in the
  order of the directory walk and with its text, in batches of one to ten, and the operation ends
  normally even when the engine refuses a batch.\<close>

theorem git_full_indexing_complete:
  assumes "gh_work_dir h = Some d" and "fs_walk E (OsWalk d) t = Inr walk"
    and "fs = files_of_walk E h d walk"
    and "\<forall>f\<in>set fs. \<forall>t. fs_read E (ReadFile (path_join d f)) t = Inr (raw f)"
    and "\<forall>f\<in>set fs. extract_text E (raw f) (get_content_type f) (py_lower (snd (splitext f))) = Inr (content f)"
    and "\<forall>t. \<not> isl (git_head E GitHeadCommit t)"
  shows "\<exists>h' u. index_all_files E (h, t) = (Inr (), h', t @ u) \<and>
    map (\<lambda>d. (doc_path d, doc_text d)) (concat (indexed_batches u)) =
      map (\<lambda>f. (Some (JStr f), content f)) (filter (\<lambda>f. content f \<noteq> '''') fs) \<and>
    list_all (\<lambda>b. b \<noteq> [] \<and> length b \<le> 10) (indexed_batches u)"
proof -
  obtain h' u news where run: "index_all_files E (h, t) = (Inr (), h', t @ u)"
    "list_all2 (full_made E (git_fixed h)) fs news" "concat (indexed_batches u) = concat news"
    "list_all (\<lambda>b. b \<noteq> [] \<and> length b \<le> 10) (indexed_batches u)"
    using index_all_files_run [OF assms(1,2)] assms(3) by blast
  have "map (\<lambda>d. (doc_path d, doc_text d)) (concat news) =
      map (\<lambda>f. (Some (JStr f), content f)) (filter (\<lambda>f. content f \<noteq> '''') fs)"
    by (rule full_made_stable [OF run(2) assms(1), where raw = raw]) (use assms(4-6) in auto)
  with run show ?thesis by auto
qed

definition sample_git :: git_handler where
  "sample_git = \<lparr>gh_index_name = JStr ''documentation-index'', gh_config = JDict [], gh_credentials = None,
     gh_rag_client = new_rag_client ''http://rag'', gh_autoindexer_client = sample_client,
     gh_autoindexer_name = JStr ''default_docs'', gh_repository = JStr ''https://example.com/docs.git'',
     gh_branch = JStr ''main'', gh_commit = JNull, gh_paths = JList [], gh_exclude_paths = JList [],
     gh_exclude_matcher = None, gh_include_matcher = None, gh_last_indexed_commit = JStr ''beef'',
     gh_conditions = JList [JDict [(''type'', JStr ''AutoIndexerError''), (''status'', JStr ''True'')]],
     gh_work_dir = Some ''/tmp/work'', gh_repo = True, gh_errors = [], gh_total_time = None,
     gh_current_commit_hash = Some ''c0ffee''\<rparr>"

definition git_world :: env where
  "git_world = (sample_world sample_resource)
     \<lparr>fs_walk := \<lambda>c t. Inr [(''/tmp/work'', [''README.md'', ''.env'', ''lib.so'']), (''/tmp/work/.git'', [''config'']),
        (''/tmp/work/src'', [''main.py''])]\<rparr>"

lemma sample_git_files:
  "files_of_walk git_world sample_git ''/tmp/work'' [(''/tmp/work'', [''README.md'', ''.env'', ''lib.so'']),
     (''/tmp/work/.git'', [''config'']), (''/tmp/work/src'', [''main.py''])] = [''README.md'', ''src/main.py'']"
  by code_simp

lemma git_world_reads:
  "fs_read git_world c t = Inr ''hello''" "git_head git_world c t = Inr ''c0ffee''"
  "fs_walk git_world c t = Inr [(''/tmp/work'', [''README.md'', ''.env'', ''lib.so'']), (''/tmp/work/.git'', [''config'']),
        (''/tmp/work/src'', [''main.py''])]"
  by (simp_all add: git_world_def sample_world_def)

lemma git_world_extract:
  "extract_text git_world ''hello'' (get_content_type ''README.md'') (py_lower (snd (splitext ''README.md''))) = Inr ''hello''"
  "extract_text git_world ''hello'' (get_content_type ''src/main.py'') (py_lower (snd (splitext ''src/main.py''))) = Inr ''hello''"
  by code_simp+

theorem git_full_indexing_complete_witness:
  "\<exists>h' u. index_all_files git_world (sample_git, []) = (Inr (), h', u) \<and>
    map (\<lambda>d. (doc_path d, doc_text d)) (concat (indexed_batches u)) =
      [(Some (JStr ''README.md''), ''hello''), (Some (JStr ''src/main.py''), ''hello'')]"
proof -
  have wd: "gh_work_dir sample_git = Some ''/tmp/work''" by (simp add: sample_git_def)
  have reads: "\<forall>f\<in>set [''README.md'', ''src/main.py'']. \<forall>t. fs_read git_world (ReadFile (path_join ''/tmp/work'' f)) t = Inr ''hello''"
    "\<forall>f\<in>set [''README.md'', ''src/main.py'']. extract_text git_world ''hello'' (get_content_type f) (py_lower (snd (splitext f))) = Inr ''hello''"
    "\<forall>t. \<not> isl (git_head git_world GitHeadCommit t)"
    using git_world_extract by (simp_all add: git_world_reads)
  obtain h' u where "index_all_files git_world (sample_git, []) = (Inr (), h', [] @ u)"
    "map (\<lambda>d. (doc_path d, doc_text d)) (concat (indexed_batches u)) =
      map (\<lambda>f. (Some (JStr f), ''hello'')) (filter (\<lambda>f. ''hello'' \<noteq> '''') [''README.md'', ''src/main.py''])"
    using git_full_indexing_complete [OF wd git_world_reads(3) sample_git_files [symmetric] reads] by blast
  then show ?thesis by (intro exI [of _ h'] exI [of _ u]) simp
qed

theorem git_strategy_witness:
  "git_index git_world (sample_git, []) = index_all_files git_world (sample_git, [])"
proof -
  have cs: "gh_conditions sample_git = JList [JDict [(''type'', JStr ''AutoIndexerError''), (''status'', JStr ''True'')]]"
    "list_all is_dict [JDict [(''type'', JStr ''AutoIndexerError''), (''status'', JStr ''True'')]]"
    by (simp_all add: sample_git_def)
  show ?thesis using git_strategy [OF cs, of git_world "[]"] by (simp add: has_type_def)
qed

text \<open>C19: A run ends, reports its errors and removes its directory. For a directory made by \<open>mkdtemp\<close>, the
  run returns normally whatever fails, the errors returned are those the status will show, and the
  last calls are the check of the directory, its removal when it is there, and the end time.\<close>

theorem git_run_cleans_up:
  assumes "fs_mkdtemp E (MkDtemp ''autoindexer_git_'') (t @ [ClockNow]) = Inr d" and "d \<noteq> ''''"
  shows "\<exists>h' v. git_update_index E (h, t) =
      (Inr (gh_errors h'), h', t @ v @ [PathExists d] @
        (if fs_exists E (PathExists d) (t @ v) then [RmTree d] else []) @ [ClockNow]) \<and>
    gh_total_time h' \<noteq> None"
proof -
  let ?h1 = "h\<lparr>gh_errors := [], gh_work_dir := Some d\<rparr>"
  let ?t1 = "t @ [ClockNow, MkDtemp ''autoindexer_git_'']"
  let ?m = "py_seq (git_setup_repository E) (git_index E)"
  obtain r2 h2 t2 where blk: "?m (?h1, ?t1) = (r2, h2, t2)" by (metis prod.collapse)
  obtain w where w: "t2 = ?t1 @ w"
    by (rule runsD [OF runs_bind_any [OF git_setup_runs git_index_runs] _ blk, of ?h1]) simp
  have "keeps gh_work_dir ?m" by (intro frame_intros git_setup_keeps_work_dir git_index_keeps_work_dir)
  then have d2: "gh_work_dir h2 = Some d"
    using keepsD [of gh_work_dir ?m "(?h1, ?t1)"] blk by simp
  obtain h3 where h3: "gh_work_dir h3 = Some d"
    "git_attempt E (h\<lparr>gh_errors := []\<rparr>, t @ [ClockNow]) = (Inr (), h3, t2)"
  proof (cases r2)
    case (Inr x)
    with blk assms(1) d2 show ?thesis by (intro that [of h2]) (simp_all add: git_attempt_def py_try_def py_bind_def)
  next
    case (Inl e)
    let ?es = "case e of DataSourceError m \<Rightarrow> ''Data source error: '' @ m
      | _ \<Rightarrow> ''Unexpected error during Git indexing: '' @ exn_str e"
    show ?thesis
      by (rule that [of "h2\<lparr>gh_errors := gh_errors h2 @ [?es]\<rparr>"])
        (use Inl blk assms(1) d2 in \<open>auto simp: git_attempt_def py_try_def py_bind_def git_append_error_run split: exn.split\<close>)
  qed
  let ?ex = "fs_exists E (PathExists d) t2"
  have clean: "git_cleanup E (h3, t2) = (Inr (), h3, t2 @ [PathExists d] @ (if ?ex then [RmTree d] else []))"
    using h3(1) assms(2)
    by (cases "fs_rmtree E (RmTree d) (t2 @ [PathExists d])") (simp_all add: git_cleanup_def py_bind_def py_try_def)
  let ?t4 = "t2 @ [PathExists d] @ (if ?ex then [RmTree d] else [])"
  let ?h4 = "h3\<lparr>gh_total_time := Some (clock_now E ClockNow ?t4 - clock_now E ClockNow t)\<rparr>"
  have "git_update_index E (h, t) = (Inr (gh_errors ?h4), ?h4, ?t4 @ [ClockNow])"
    unfolding git_update_index_def
    by (simp add: py_bind_def now_def py_finally_def h3(2) clean)
  then show ?thesis
    by (intro exI [of _ ?h4] exI [of _ "[ClockNow, MkDtemp ''autoindexer_git_''] @ w"]) (simp add: w)
qed

theorem git_run_cleans_up_witness:
  "\<exists>h' v. git_update_index git_world (sample_git, []) =
      (Inr (gh_errors h'), h', v @ [PathExists ''/tmp/work'', RmTree ''/tmp/work'', ClockNow])"
proof -
  have tmp: "fs_mkdtemp git_world (MkDtemp ''autoindexer_git_'') ([] @ [ClockNow]) = Inr ''/tmp/work''"
    "''/tmp/work'' \<noteq> ''''" by (simp_all add: git_world_def sample_world_def)
  have "fs_exists git_world c t" for c t by (simp add: git_world_def sample_world_def)
  with git_run_cleans_up [OF tmp, of sample_git] show ?thesis by auto
qed

text \<open>C22: Which files are indexed. For a handler made from a configuration, a file is indexed exactly when no
  component of its path starts with a dot, its extension is not one of the binary ones, no exclude
  pattern matches it, and an include pattern matches it if there are any; excluding wins.\<close>

theorem should_index_file_iff:
  assumes "new_git_handler index_name config rag k8s credentials = Inr h"
    and "jget config ''paths'' = Some paths" and "jget config ''excludePaths'' = Some excludes"
  shows "should_index_file E h f \<longleftrightarrow>
    \<not> hidden_path f \<and> py_lower (snd (splitext f)) \<notin> set binary_extensions \<and>
    (truthy excludes \<longrightarrow> \<not> path_match E excludes f) \<and>
    (truthy paths \<longrightarrow> path_match E paths f)"
proof -
  have "is_dict config" using assms(2) by (cases config) simp_all
  then have get: "py_get config k d = Inr (case jget config k of None \<Rightarrow> d | Some v \<Rightarrow> v)" for k d by simp
  note made = assms(1) [unfolded new_git_handler_def get sum_bind_simps assms(2,3) option.case]
  from made have "truthy (case jget config ''autoindexer_name'' of None \<Rightarrow> JNull | Some v \<Rightarrow> v)"
    by (rule contrapos_pp) simp
  moreover from made this have "truthy (case jget config ''repository'' of None \<Rightarrow> JNull | Some v \<Rightarrow> v)"
    by (simp split: if_split_asm)
  ultimately have "gh_paths h = paths" "gh_exclude_paths h = excludes"
    "gh_exclude_matcher h = (if truthy excludes then Some excludes else None)"
    "gh_include_matcher h = (if truthy paths then Some paths else None)"
    using made by auto
  then show ?thesis by (auto simp: should_index_file_def)
qed

definition sample_git_config :: json where
  "sample_git_config = JDict [(''autoindexer_name'', JStr ''default_docs''),
     (''repository'', JStr ''https://example.com/docs.git''), (''paths'', JList [JStr ''docs/**'']),
     (''excludePaths'', JList [])]"

theorem should_index_file_iff_witness:
  "\<exists>h. new_git_handler (JStr ''i'') sample_git_config (new_rag_client ''http://rag'') sample_client None = Inr h \<and>
    (should_index_file (git_world\<lparr>path_match := \<lambda>ps f. prefix ''docs/'' f\<rparr>) h ''docs/guide.md'') \<and>
    \<not> (should_index_file (git_world\<lparr>path_match := \<lambda>ps f. prefix ''docs/'' f\<rparr>) h ''docs/.draft.md'')"
proof -
  have cfg: "jget sample_git_config ''paths'' = Some (JList [JStr ''docs/**''])"
    "jget sample_git_config ''excludePaths'' = Some (JList [])"
    by (simp_all add: sample_git_config_def)
  obtain h where h: "new_git_handler (JStr ''i'') sample_git_config (new_rag_client ''http://rag'') sample_client None = Inr h"
    by (simp add: new_git_handler_def sample_git_config_def)
  have "\<not> hidden_path ''docs/guide.md''" "hidden_path ''docs/.draft.md''"
    "py_lower (snd (splitext ''docs/guide.md'')) \<notin> set binary_extensions" by code_simp+
  with h should_index_file_iff [OF h cfg, of "git_world\<lparr>path_match := \<lambda>ps f. prefix ''docs/'' f\<rparr>"]
  show ?thesis by auto
qed

text \<open>C26: Deletions are never carried out. When identifiers are to be deleted at the end of incremental
  indexing, the client has no method of the name used: no deletion is sent, and the run
  has one error more, whatever the engine would answer.\<close>

theorem git_deletions_fail:
  assumes "ids \<noteq> []"
  shows "delete_documents_batch ids (h, t) = (Inr (), h\<lparr>gh_errors := gh_errors h @
    [''Failed to delete document batch: '' @ py_repr ''KAITORAGClient'' @ '' object has no attribute '' @
      py_repr ''delete_document'']\<rparr>, t)"
  using assms
  by (cases ids) (simp_all add: delete_documents_batch_def no_delete_document py_try_def git_append_error_def)

theorem git_deletions_fail_witness:
  "\<exists>m. delete_documents_batch [Some ''doc-1''] (sample_git, []) = (Inr (), sample_git\<lparr>gh_errors := [m]\<rparr>, [])"
proof -
  have ids: "[Some ''doc-1''] \<noteq> []" by simp
  have none: "gh_errors sample_git = []" by (simp add: sample_git_def)
  show ?thesis
    using git_deletions_fail [OF ids, of sample_git "[]", unfolded none append_Nil] by (rule exI)
qed

subsection \<open>The handler as a data source\<close>

lemma git_update_index_emits: "emits (\<lambda>c. \<not> is_k8s_write c) (git_update_index E)"
proof -
  have ok: "git_call_ok E h c \<Longrightarrow> \<not> is_k8s_write c" for h c by (cases c) simp_all
  have "same_settings h h" for h by simp
  then have "\<exists>u. snd (snd (git_update_index E (h, t))) = t @ u \<and> list_all (\<lambda>c. \<not> is_k8s_write c) u" for h t
    using git_update_index_runs [of h E] ok unfolding runs_def by (metis list_all_iff)
  then show ?thesis unfolding emits_def by (metis prod.collapse fst_conv snd_conv)
qed

lemma git_update_index_client: "keeps gh_autoindexer_client (git_update_index E)"
proof -
  have "same_settings h h" for h by simp
  moreover have client: "gh_autoindexer_client h' = gh_autoindexer_client h" if "same_settings h h'" for h h'
    using that by (cases h; cases h') (simp add: git_settings_def)
  ultimately have "same_settings h (fst (snd (git_update_index E (h, t))))" for h t
    using git_update_index_runs [of h E] unfolding runs_def by blast
  then show ?thesis
    unfolding keeps_def by (metis prod.collapse fst_conv client)
qed

lemma git_update_index_result:
  assumes "git_update_index E (h, t) = (Inr es, h', t')"
  shows "gh_errors h' = es"
  using assms unfolding git_update_index_def
  by (auto simp: py_bind_def now_def split: prod.splits sum.splits)


definition sample_git_fresh :: git_handler where
  "sample_git_fresh = sample_git\<lparr>gh_current_commit_hash := None, gh_commit := JStr ''c0ffee''\<rparr>"


interpretation git_source: data_source git_update_index git_update_autoindexer_status
  gh_autoindexer_client "\<lambda>h. True" "\<lambda>h. Some (gh_errors h)"
proof
  fix E :: env and h h' :: git_handler and t t' :: trace and es :: "string list" and crd :: json
  show "never_raises (git_update_index E)" by (rule git_update_index_total)
  show "emits (\<lambda>c. \<not> is_k8s_write c) (git_update_index E)" by (rule git_update_index_emits)
  show "keeps gh_autoindexer_client (git_update_index E)" by (rule git_update_index_client)
  show "Some (gh_errors h') = Some []" if "git_update_index E (h, t) = (Inr [], h', t')"
    using git_update_index_result [OF that] by simp
  show "reads_then P (git_update_autoindexer_status E)" if "\<And>p b. P (K8sPatchStatus p b)" for P
    unfolding git_update_autoindexer_status_def
    by (intro reads_then_bind emits_self write_base_status_reads that)
  show "reported (gh_autoindexer_client h) es crd (new_calls (git_update_autoindexer_status E) (h, t))"
    if "Some (gh_errors h) = Some es" "kc_name (gh_autoindexer_client h) \<noteq> ''''"
      "resource_stays E (gh_autoindexer_client h) t crd" "wf_resource crd" "jget crd ''status'' \<noteq> None"
  proof -
    let ?extra = "case gh_current_commit_hash h of None \<Rightarrow> [] | Some c \<Rightarrow> if c \<noteq> '''' then [(''lastIndexedCommit'', JStr c)] else []"
    have run: "git_update_autoindexer_status E (h, t) =
        write_base_status E (gh_index_name h) (gh_autoindexer_name h) (gh_rag_client h) (gh_autoindexer_client h) es
          (case gh_total_time h of None \<Rightarrow> 0 | Some total_time \<Rightarrow> if total_time \<noteq> 0 then td_seconds total_time else 0)
          ?extra (h, t)"
      using that(1) by (simp add: git_update_autoindexer_status_def py_bind_def)
    show ?thesis
      unfolding new_calls_def run
      by (rule write_base_status_reported [OF that(2-5), unfolded new_calls_def]) (auto split: option.split)
  qed
qed simp

end
