(* ===== verification/PyRegex.thy ===== *)
theory PyRegex
  imports PyStr
begin

section \<open>Python regular expressions\<close>

text \<open>
  The part of the module \<open>re\<close> that the code uses, as a reference for the searches of the program: a pattern is
  parsed from the text that stands in the source, and \<open>regex_search\<close> says what the group of the leftmost match is.
  A pattern is a sequence of characters and classes, some repeated by \<open>+\<close>, with one group. Other
  constructs are not parsed.
\<close>

abbreviation escape :: char where "escape \<equiv> CHR 0x5C"

subsection \<open>Patterns\<close>

text \<open>One character, or several, in a set or, where the flag is true, not in the set; the ends of the group.\<close>

datatype atom = One bool string | Many bool string | Open | Close

datatype mode = Plain | Escaped | Class bool string | ClassEscaped bool string

fun parse_regex :: "mode \<Rightarrow> atom list \<Rightarrow> string \<Rightarrow> atom list option" where
  "parse_regex Plain acc [] = Some (rev acc)"
| "parse_regex mode acc [] = None"
| "parse_regex Plain acc (c # s) =
     (if c = escape then parse_regex Escaped acc s
      else if c = CHR ''['' then
        (case s of d # r \<Rightarrow> if d = CHR ''^'' then parse_regex (Class True []) acc r else parse_regex (Class False []) acc s
         | [] \<Rightarrow> None)
      else if c = CHR ''('' then parse_regex Plain (Open # acc) s
      else if c = CHR '')'' then parse_regex Plain (Close # acc) s
      else if c = CHR ''+'' then
        (case acc of One neg cs # acc' \<Rightarrow> parse_regex Plain (Many neg cs # acc') s | _ \<Rightarrow> None)
      else if c \<in> set '']{}.*?^$|'' then None
      else parse_regex Plain (One False [c] # acc) s)"
| "parse_regex Escaped acc (c # s) =
     (if c \<in> set ''().'' then parse_regex Plain (One False [c] # acc) s else None)"
| "parse_regex (Class neg cs) acc (c # s) =
     (if c = CHR '']'' then parse_regex Plain (One neg cs # acc) s
      else if c = escape then parse_regex (ClassEscaped neg cs) acc s
      else if c = CHR ''-'' then None
      else parse_regex (Class neg (c # cs)) acc s)"
| "parse_regex (ClassEscaped neg cs) acc (c # s) =
     (if c \<in> {squote, dquote} then parse_regex (Class neg (c # cs)) acc s else None)"

subsection \<open>Matches\<close>

definition in_class :: "bool \<Rightarrow> string \<Rightarrow> char \<Rightarrow> bool" where
  "in_class neg cs c \<longleftrightarrow> (c \<in> set cs) \<noteq> neg"

text \<open>\<open>reads as inside s g\<close>: the pattern \<open>as\<close> matches a beginning of \<open>s\<close>, and the text of the group is \<open>g\<close>; \<open>inside\<close> says whether
  the beginning of the pattern is in the group.\<close>

fun reads :: "atom list \<Rightarrow> bool \<Rightarrow> string \<Rightarrow> string \<Rightarrow> bool" where
  "reads [] inside s g \<longleftrightarrow> \<not> inside \<and> g = []"
| "reads (One neg cs # as) inside s g \<longleftrightarrow>
     (\<exists>c r h. s = c # r \<and> in_class neg cs c \<and> reads as inside r h \<and> g = (if inside then c # h else h))"
| "reads (Many neg cs # as) inside s g \<longleftrightarrow>
     (\<exists>w r h. w \<noteq> [] \<and> s = w @ r \<and> (\<forall>c\<in>set w. in_class neg cs c) \<and> reads as inside r h \<and>
       g = (if inside then w @ h else h))"
| "reads (Open # as) inside s g \<longleftrightarrow> \<not> inside \<and> reads as True s g"
| "reads (Close # as) inside s g \<longleftrightarrow> inside \<and> reads as False s g"

text \<open>\<open>re.search(pattern, s).group(1)\<close>.\<close>

definition regex_search :: "string \<Rightarrow> string \<Rightarrow> string \<Rightarrow> bool" where
  "regex_search pattern s g \<longleftrightarrow>
     (case parse_regex Plain [] pattern of
        None \<Rightarrow> False
      | Some as \<Rightarrow> \<exists>i\<le>length s. reads as False (drop i s) g \<and> (\<forall>j<i. \<forall>h. \<not> reads as False (drop j s) h))"

lemma reads_literal:
  "reads (map (\<lambda>c. One False [c]) name @ as) False s g \<longleftrightarrow> (\<exists>r. s = name @ r \<and> reads as False r g)"
  by (induction name arbitrary: s) (auto simp: in_class_def)

text \<open>A name and a quoted text in parentheses.\<close>

definition call_atoms :: "string \<Rightarrow> string \<Rightarrow> string \<Rightarrow> atom list" where
  "call_atoms name quotes stops = map (\<lambda>c. One False [c]) (name @ ''('') @
     [One False quotes, Open, Many True stops, Close, One False quotes, One False '')'']"

lemma reads_call:
  "reads (call_atoms name quotes stops) False s g \<longleftrightarrow>
     (\<exists>q q' post. s = name @ ''('' @ [q] @ g @ [q'] @ '')'' @ post \<and> q \<in> set quotes \<and> q' \<in> set quotes \<and>
        g \<noteq> [] \<and> (\<forall>c\<in>set g. c \<notin> set stops))"
  unfolding call_atoms_def reads_literal by (auto simp: in_class_def) (rule exI [of _ g], auto)

end
