(* ===== verification/KustoHandler.thy ===== *)
theory KustoHandler
  imports Protocol Batching Credentials PyRegex
begin

section \<open>The Kusto data source handler\<close>

text \<open>
  \<open>jobs/autoindexer/data_source_handler/kusto_handler.py\<close>: \<open>KustoDataSourceHandler\<close> runs a query
  against Azure Data Explorer and indexes its rows in batches of fifty. The Kusto client is a
  parameter; a cell is \<open>None\<close> or the text \<open>str()\<close> gives for it. The run leaves out its log;
  the lines of the sample of the records are \<open>display_sample_records\<close>.
\<close>

subsection \<open>The object\<close>

record kusto_handler =
  kh_index_name :: json
  kh_config :: json
  kh_credentials :: "credential_provider option"
  kh_rag_client :: rag_client
  kh_autoindexer_client :: k8s_client
  kh_autoindexer_name :: json
  kh_language :: json
  kh_initial_query :: json
  kh_incremental_query :: json
  kh_conditions :: json
  kh_errors :: "string list"
  kh_total_time :: "int option"

definition missing_database_value :: "string \<Rightarrow> exn" where
  "missing_database_value key =
     DataSourceError (''Database data source configuration missing '' @ py_repr key @ '' value'')"

definition new_kusto_handler ::
  "json \<Rightarrow> json \<Rightarrow> rag_client \<Rightarrow> k8s_client \<Rightarrow> credential_provider option \<Rightarrow> exn + kusto_handler" where
  "new_kusto_handler index_name config rag k8s credentials =
     sum_bind (py_get config ''autoindexer_name'' JNull) (\<lambda>name.
     if \<not> truthy name then Inl (missing_database_value ''autoindexer_name'')
     else sum_bind (py_get config ''language'' JNull) (\<lambda>language.
     if \<not> truthy language then Inl (missing_database_value ''language'')
     else if language \<noteq> JStr ''Kusto''
     then Inl (DataSourceError (''Unsupported database language: '' @ py_format language @ ''. Only '' @
         py_repr ''Kusto'' @ '' is currently supported.''))
     else sum_bind (py_get config ''initialQuery'' JNull) (\<lambda>initial_query.
     if \<not> truthy initial_query then Inl (missing_database_value ''initialQuery'')
     else sum_bind (py_get config ''incrementalQuery'' JNull) (\<lambda>incremental_query.
     sum_bind (py_get config ''conditions'' (JList [])) (\<lambda>conditions.
       Inr \<lparr>kh_index_name = index_name, kh_config = config, kh_credentials = credentials,
            kh_rag_client = rag, kh_autoindexer_client = k8s, kh_autoindexer_name = name,
            kh_language = language, kh_initial_query = initial_query,
            kh_incremental_query = incremental_query, kh_conditions = conditions,
            kh_errors = [], kh_total_time = None\<rparr>)))))"

subsection \<open>The query\<close>

definition checkpoint_of :: "json \<Rightarrow> exn + json" where
  "checkpoint_of autoindexer =
     (if \<not> truthy autoindexer then Inr JNull
      else sum_bind (py_get autoindexer ''status'' (JDict [])) (\<lambda>status.
           sum_bind (py_get status ''lastIndexingTimestamp'' JNull) (\<lambda>last_timestamp.
             Inr (if truthy last_timestamp then last_timestamp else JNull))))"

definition get_last_checkpoint_time :: "env \<Rightarrow> (kusto_handler, json) py" where
  "get_last_checkpoint_time E =
     py_bind (py_self kh_autoindexer_client) (\<lambda>client.
       py_try
         (py_bind (get_autoindexer E client) (\<lambda>autoindexer. py_lift (checkpoint_of autoindexer)))
         (\<lambda>e. py_return JNull))"

definition placeholder :: string where
  "placeholder = ''$LAST_INDEXING_TIMESTAMP''"

text \<open>\<open>incremental_query.replace(placeholder, last_timestamp)\<close>.\<close>

fun incremental :: "json \<Rightarrow> json \<Rightarrow> exn + json" where
  "incremental (JStr q) (JStr ts) = Inr (JStr (py_replace q placeholder ts))"
| "incremental (JStr q) x = Inl (TypeError (''replace() argument 2 must be str, not '' @ type_name x))"
| "incremental q x = Inl (no_attribute q ''replace'')"

definition build_query :: "env \<Rightarrow> (kusto_handler, json) py" where
  "build_query E =
     py_bind (get_last_checkpoint_time E) (\<lambda>last_timestamp.
     py_bind (py_self (\<lambda>h. h)) (\<lambda>h.
     py_bind (py_lift (last_indexing_had_errors (kh_conditions h))) (\<lambda>had_errors.
       if last_timestamp = JNull \<or> had_errors then py_return (kh_initial_query h)
       else py_lift (incremental (kh_incremental_query h) last_timestamp))))"

subsection \<open>The regular expressions\<close>

definition is_quote :: "char \<Rightarrow> bool" where
  "is_quote c \<longleftrightarrow> c = squote \<or> c = dquote"

text \<open>A match at the start of a text: \<open>name\<close>, an opening parenthesis and a quote, a non-empty run of
  characters that are not in \<open>stop\<close>, a quote and a closing parenthesis. As \<open>stop\<close> contains the
  quotes, the run is the longest possible and there is nothing to backtrack.\<close>

definition match_here :: "string \<Rightarrow> (char \<Rightarrow> bool) \<Rightarrow> string \<Rightarrow> string option" where
  "match_here name stop s =
     (if prefix (name @ ''('') s
      then (case drop (length name + 1) s of
              [] \<Rightarrow> None
            | q # r \<Rightarrow>
                let g = takeWhile (\<lambda>c. \<not> stop c) r
                in if is_quote q \<and> g \<noteq> [] \<and>
                     (case drop (length g) r of q' # p # _ \<Rightarrow> is_quote q' \<and> p = CHR '')'' | _ \<Rightarrow> False)
                   then Some g else None)
      else None)"

fun search_call :: "string \<Rightarrow> (char \<Rightarrow> bool) \<Rightarrow> string \<Rightarrow> string option" where
  "search_call name stop [] = match_here name stop []"
| "search_call name stop (c # s) =
     (case match_here name stop (c # s) of Some g \<Rightarrow> Some g | None \<Rightarrow> search_call name stop s)"

definition cluster_stop :: "char \<Rightarrow> bool" where
  "cluster_stop c \<longleftrightarrow> is_quote c \<or> c = CHR ''('' \<or> c = CHR '')''"

definition cluster_match :: "string \<Rightarrow> string option" where
  "cluster_match query = search_call ''cluster'' cluster_stop query"

definition database_match :: "string \<Rightarrow> string option" where
  "database_match query = search_call ''.database'' is_quote query"

subsection \<open>Executing the query\<close>

definition kusto_suffix :: string where
  "kusto_suffix = ''.kusto.windows.net''"

definition cluster_url :: "string \<Rightarrow> string" where
  "cluster_url grp =
     (let url0 = py_strip grp;
          url1 = (if prefix ''http'' url0 then url0 else ''https://'' @ url0)
      in if suffix kusto_suffix url1 then url1
         else ''https://'' @ py_replace (py_replace url1 ''https://'' '''') ''http://'' '''' @ kusto_suffix)"

type_synonym kusto_record = "(string \<times> string option) list"

text \<open>The cells of a row under the names of the columns; a row that is too short raises.\<close>

fun row_record :: "kusto_record \<Rightarrow> string list \<Rightarrow> string option list \<Rightarrow> exn + kusto_record" where
  "row_record record [] row = Inr record"
| "row_record record (col # cols) [] = Inl (IndexError ''list index out of range'')"
| "row_record record (col # cols) (cell # row) = row_record (dict_set col cell record) cols row"

fun table_records :: "string list \<Rightarrow> string option list list \<Rightarrow> exn + kusto_record list" where
  "table_records cols [] = Inr []"
| "table_records cols (row # rows) =
     sum_bind (row_record [] cols row) (\<lambda>record.
     sum_bind (table_records cols rows) (\<lambda>records. Inr (record # records)))"

definition set_kusto_credentials :: "credential_provider \<Rightarrow> kusto_handler \<Rightarrow> kusto_handler" where
  "set_kusto_credentials c h = h\<lparr>kh_credentials := Some c\<rparr>"

definition kusto_token :: "env \<Rightarrow> (kusto_handler, string) py" where
  "kusto_token E =
     py_bind (py_self kh_credentials) (\<lambda>credentials. case credentials of
        None \<Rightarrow> py_raise (DataSourceError ''Credentials are required for Kusto authentication'')
      | Some c \<Rightarrow>
          py_bind (py_on (\<lambda>_. c) set_kusto_credentials (get_token E)) (\<lambda>access_token.
            if access_token = ''''
            then py_raise (DataSourceError ''Failed to retrieve access token for Kusto authentication'')
            else py_return access_token))"

definition run_query :: "env \<Rightarrow> string \<Rightarrow> (kusto_handler, kusto_record list) py" where
  "run_query E query =
     py_try
       (py_bind (py_call (KustoExecute (case database_match query of None \<Rightarrow> ''NetDefaultDB'' | Some d \<Rightarrow> d) query)
            (kusto_execute E)) (\<lambda>table.
          py_lift (table_records (kt_columns table) (kt_rows table))))
       (\<lambda>e. py_raise (DataSourceError (''Kusto query execution failed: '' @ exn_str e)))"

text \<open>A query that is not a string makes the search for the cluster raise.\<close>

fun query_text :: "json \<Rightarrow> exn + string" where
  "query_text (JStr q) = Inr q"
| "query_text x = Inl (TypeError (''expected string or bytes-like object, got '' @ py_repr (type_name x)))"

definition execute_kusto_query :: "env \<Rightarrow> json \<Rightarrow> (kusto_handler, kusto_record list) py" where
  "execute_kusto_query E query0 =
     py_seq
       (py_try (py_lift (kusto_import E))
         (\<lambda>e. case e of
            ImportError m \<Rightarrow> py_raise (DataSourceError ''azure-kusto-data package is required for Kusto data source'')
          | _ \<Rightarrow> py_raise e))
     (py_bind (py_lift (query_text query0)) (\<lambda>query.
      case cluster_match query of
        None \<Rightarrow> py_raise (DataSourceError (''Query must include at least one cluster('' @ [squote] @ ''...'' @
            [squote] @ '') specification''))
      | Some grp \<Rightarrow>
          py_bind (kusto_token E) (\<lambda>access_token.
          py_bind (py_call (KustoConnect (cluster_url grp) access_token) (kusto_connect E)) (\<lambda>kcsb.
            if \<not> kcsb then py_raise (DataSourceError ''Failed to build Kusto connection string'')
            else py_seq (py_call (KustoNewClient (cluster_url grp)) (kusto_client E)) (run_query E query)))))"

subsection \<open>The sample in the log\<close>

text \<open>
  The lines that \<open>_display_sample_records\<close> writes to the log. A slice of a string counts characters, which
  are the bytes that do not continue one.
\<close>

definition char_count :: "string \<Rightarrow> nat" where
  "char_count s = length (filter (\<lambda>c. \<not> cont c) s)"

fun take_chars :: "nat \<Rightarrow> string \<Rightarrow> string" where
  "take_chars n [] = []"
| "take_chars n (c # s) =
     (if cont c then c # take_chars n s
      else case n of 0 \<Rightarrow> [] | Suc m \<Rightarrow> c # take_chars m s)"

definition sample_value :: "string option \<Rightarrow> string" where
  "sample_value v =
     (let value_str = (case v of None \<Rightarrow> ''None'' | Some s \<Rightarrow> s)
      in if char_count value_str > 100 then take_chars 100 value_str @ ''...'' else value_str)"

definition display_sample_records :: "kusto_record list \<Rightarrow> nat \<Rightarrow> string list" where
  "display_sample_records records sample_size =
     (let nl = [CHR 0x0A]; line = replicate 80 (CHR ''='')
      in if records = [] then [''No records to display'']
         else [nl @ line,
             ''Sample Records (showing '' @ nat_str (min sample_size (length records)) @ '' of '' @
               nat_str (length records) @ '' total)'', line] @
           concat (map (\<lambda>(i, record). (nl @ ''Record '' @ nat_str (i + 1) @ '':'') #
             map (\<lambda>(key, value). ''  '' @ key @ '': '' @ sample_value value) record)
             (enumerate 0 (take sample_size records))) @ [line @ nl])"

lemma take_chars_count: "char_count (take_chars n s) = min n (char_count s)"
  by (induction n s rule: take_chars.induct) (auto simp: char_count_def split: nat.split)

lemma take_chars_prefix: "prefix (take_chars n s) s"
  by (induction n s rule: take_chars.induct) (auto split: nat.split)

lemma sample_value_bounded: "char_count (sample_value v) \<le> 103"
  and sample_value_short: "char_count s \<le> 100 \<Longrightarrow> sample_value (Some s) = s"
proof -
  have append: "char_count (s @ t) = char_count s + char_count t" for s t by (simp add: char_count_def)
  have dots: "char_count ''...'' = 3" by code_simp
  show "char_count (sample_value v) \<le> 103"
    by (simp add: sample_value_def Let_def append dots take_chars_count)
  show "char_count s \<le> 100 \<Longrightarrow> sample_value (Some s) = s" by (simp add: sample_value_def)
qed

subsection \<open>Documents\<close>

definition record_parts :: "kusto_record \<Rightarrow> string list" where
  "record_parts record =
     concat (map (\<lambda>(key, value). case value of
        None \<Rightarrow> []
      | Some v \<Rightarrow> if py_strip v \<noteq> '''' then [key @ '': '' @ v] else []) record)"

definition kusto_document :: "json \<Rightarrow> string list \<Rightarrow> string \<Rightarrow> document" where
  "kusto_document autoindexer_name text_parts timestamp =
     \<lparr>doc_text = py_join [CHR 0x0A] text_parts,
      doc_metadata = [(''autoindexer'', autoindexer_name), (''source_type'', JStr ''kusto''),
        (''timestamp'', JStr timestamp)],
      doc_id = None\<rparr>"

definition format_step :: "env \<Rightarrow> kusto_record \<Rightarrow> document list \<Rightarrow> (kusto_handler, document list) py" where
  "format_step E record documents =
     (if record_parts record = [] then py_return documents
      else py_bind (py_self kh_autoindexer_name) (\<lambda>name.
           py_bind (now_iso E) (\<lambda>timestamp.
             py_return (documents @ [kusto_document name (record_parts record) timestamp]))))"

definition format_documents :: "env \<Rightarrow> kusto_record list \<Rightarrow> (kusto_handler, document list) py" where
  "format_documents E records = py_for (format_step E) records []"

subsection \<open>Indexing\<close>

text \<open>The slices \<open>documents[i:i + batch_size]\<close> for \<open>i\<close> in \<open>range(0, len(documents), batch_size)\<close>.\<close>

function slices :: "nat \<Rightarrow> 'a list \<Rightarrow> 'a list list" where
  "slices n xs = (if xs = [] \<or> n = 0 then [] else take n xs # slices n (drop n xs))"
  by auto
termination by (relation "measure (\<lambda>(n, xs). length xs)") auto

declare slices.simps [simp del]

definition batch_size :: nat where "batch_size = 50"

definition index_slice :: "env \<Rightarrow> nat \<times> document list \<Rightarrow> string list \<Rightarrow> (kusto_handler, string list) py" where
  "index_slice E b errors = (case b of (i, batch) \<Rightarrow>
     py_bind (py_self (\<lambda>h. h)) (\<lambda>h.
     py_try
       (py_seq (index_documents E (kh_rag_client h) (kh_index_name h) batch) (py_return errors))
       (\<lambda>e. let m = ''Failed to index batch '' @ nat_str (i + 1) @ '': '' @ exn_str e
            in py_seq (py_set (\<lambda>h. h\<lparr>kh_errors := kh_errors h @ [m]\<rparr>)) (py_return (errors @ [m])))))"

definition set_total_time :: "env \<Rightarrow> int \<Rightarrow> (kusto_handler, unit) py" where
  "set_total_time E start_time =
     py_bind (now E) (\<lambda>end_time. py_set (\<lambda>h. h\<lparr>kh_total_time := Some (end_time - start_time)\<rparr>))"

text \<open>The \<open>try\<close> block: every return in it sets the duration first.\<close>

definition kusto_index :: "env \<Rightarrow> int \<Rightarrow> (kusto_handler, string list) py" where
  "kusto_index E start_time =
     py_bind (build_query E) (\<lambda>query.
     py_bind (execute_kusto_query E query) (\<lambda>records.
       if records = [] then py_seq (set_total_time E start_time) (py_return [])
       else py_bind (format_documents E records) (\<lambda>documents.
         if documents = [] then py_seq (set_total_time E start_time) (py_return [])
         else py_bind (py_for (index_slice E) (enumerate 0 (slices batch_size documents)) []) (\<lambda>errors.
           py_seq (set_total_time E start_time) (py_return errors)))))"

definition kusto_failure :: "exn \<Rightarrow> string" where
  "kusto_failure e = (case e of
     DataSourceError m \<Rightarrow> ''Kusto data source error: '' @ m
   | _ \<Rightarrow> ''Unexpected error in Kusto handler: '' @ exn_str e)"

definition kusto_update_index :: "env \<Rightarrow> (kusto_handler, string list) py" where
  "kusto_update_index E =
     py_bind (now E) (\<lambda>start_time.
       py_try (kusto_index E start_time)
         (\<lambda>e. py_seq (set_total_time E start_time) (py_return [kusto_failure e])))"

subsection \<open>Status\<close>

definition kusto_update_autoindexer_status :: "env \<Rightarrow> (kusto_handler, unit) py" where
  "kusto_update_autoindexer_status E =
     py_bind (py_self (\<lambda>h. h)) (\<lambda>h.
       write_base_status E (kh_index_name h) (kh_autoindexer_name h) (kh_rag_client h) (kh_autoindexer_client h)
         (kh_errors h)
         (case kh_total_time h of None \<Rightarrow> 0 | Some total_time \<Rightarrow> if total_time \<noteq> 0 then trunc_seconds total_time else 0)
         [])"

subsection \<open>Facts\<close>

lemma slices_concat: "0 < n \<Longrightarrow> concat (slices n xs) = xs"
proof (induction n xs rule: slices.induct)
  case (1 n xs)
  then show ?case by (subst slices.simps) (auto simp: append_take_drop_id)
qed

lemma slices_sizes: "list_all (\<lambda>b. b \<noteq> [] \<and> length b \<le> n) (slices n xs)"
proof (induction n xs rule: slices.induct)
  case (1 n xs)
  then show ?case by (subst slices.simps) auto
qed

text \<open>The contract of the search: the group of the leftmost match.\<close>

definition is_match :: "string \<Rightarrow> (char \<Rightarrow> bool) \<Rightarrow> string \<Rightarrow> string \<Rightarrow> bool" where
  "is_match name stop g s \<longleftrightarrow>
     (\<exists>q q' post. s = name @ ''('' @ [q] @ g @ [q'] @ '')'' @ post \<and> is_quote q \<and> is_quote q' \<and>
        g \<noteq> [] \<and> (\<forall>c\<in>set g. \<not> stop c))"

lemma takeWhile_run: "(\<forall>c\<in>set g. \<not> P c) \<Longrightarrow> P q \<Longrightarrow> takeWhile (\<lambda>c. \<not> P c) (g @ q # r) = g"
  by (induction g) auto

lemma match_here_iff:
  assumes stop: "\<And>c. is_quote c \<Longrightarrow> stop c"
  shows "match_here name stop s = Some g \<longleftrightarrow> is_match name stop g s"
proof
  assume "is_match name stop g s"
  then obtain q q' post where m: "s = name @ ''('' @ [q] @ g @ [q'] @ '')'' @ post" "is_quote q" "is_quote q'"
    "g \<noteq> []" "\<forall>c\<in>set g. \<not> stop c" by (auto simp: is_match_def)
  have "takeWhile (\<lambda>c. \<not> stop c) (g @ q' # CHR '')'' # post) = g"
    using m(5) stop [OF m(3)] by (rule takeWhile_run)
  then show "match_here name stop s = Some g"
    using m by (simp add: match_here_def Let_def)
next
  assume "match_here name stop s = Some g"
  then obtain q r where s: "prefix (name @ ''('') s" "drop (length name + 1) s = q # r" "is_quote q"
    "g = takeWhile (\<lambda>c. \<not> stop c) r" "g \<noteq> []"
    "case drop (length g) r of q' # p # _ \<Rightarrow> is_quote q' \<and> p = CHR '')'' | _ \<Rightarrow> False"
    by (auto simp: match_here_def Let_def split: if_splits list.splits)
  from s(6) obtain q' post where q': "drop (length g) r = q' # CHR '')'' # post" "is_quote q'"
    by (auto split: list.splits)
  have "r = g @ q' # CHR '')'' # post"
    using q'(1) s(4) by (metis append_take_drop_id takeWhile_eq_take)
  moreover from s(1) obtain z where z: "s = (name @ ''('') @ z" by (auto simp: prefix_def)
  then have "z = q # r" using s(2) by simp
  moreover have "\<forall>c\<in>set g. \<not> stop c" using s(4) by (auto dest: set_takeWhileD)
  ultimately show "is_match name stop g s"
    unfolding is_match_def using z s(3,5) q'(2)
    by (intro exI [of _ q] exI [of _ q'] exI [of _ post]) simp
qed

lemma search_call_Some:
  assumes "\<And>c. is_quote c \<Longrightarrow> stop c"
  shows "search_call name stop s = Some g \<longleftrightarrow>
    (\<exists>i\<le>length s. is_match name stop g (drop i s) \<and> (\<forall>j<i. \<forall>g'. \<not> is_match name stop g' (drop j s)))"
proof (induction s)
  case Nil
  show ?case by (auto simp: match_here_iff [OF assms])
next
  case (Cons c s)
  show ?case
  proof (cases "match_here name stop (c # s)")
    case (Some g0)
    have "g0 = g" if "match_here name stop (drop i (c # s)) = Some g"
      "\<forall>j<i. match_here name stop (drop j (c # s)) = None" for i
      using that Some by (cases i) (auto dest: spec [of _ 0])
    with Some show ?thesis
      by (auto simp: match_here_iff [OF assms, symmetric] intro: exI [of _ 0])
  next
    case None
    then have no: "\<not> is_match name stop g' (c # s)" for g' by (simp add: match_here_iff [OF assms, symmetric])
    have "(\<exists>i\<le>length s. is_match name stop g (drop i s) \<and> (\<forall>j<i. \<forall>g'. \<not> is_match name stop g' (drop j s))) \<longleftrightarrow>
        (\<exists>i\<le>length (c # s). is_match name stop g (drop i (c # s)) \<and> (\<forall>j<i. \<forall>g'. \<not> is_match name stop g' (drop j (c # s))))"
      (is "?L \<longleftrightarrow> ?R")
    proof
      assume ?L
      then obtain i where i: "i \<le> length s" "is_match name stop g (drop i s)"
        "\<forall>j<i. \<forall>g'. \<not> is_match name stop g' (drop j s)" by blast
      have "\<not> is_match name stop g' (drop j (c # s))" if "j < Suc i" for j g'
        using that no i(3) by (cases j) auto
      with i show ?R by (intro exI [of _ "Suc i"]) simp
    next
      assume ?R
      then obtain i where i: "i \<le> length (c # s)" "is_match name stop g (drop i (c # s))"
        "\<forall>j<i. \<forall>g'. \<not> is_match name stop g' (drop j (c # s))" by blast
      from i(2) no obtain k where k: "i = Suc k" by (cases i) auto
      have "\<not> is_match name stop g' (drop j s)" if "j < k" for j g'
        using i(3) [rule_format, of "Suc j" g'] that k by simp
      with i k show ?L by (intro exI [of _ k]) simp
    qed
    with None Cons.IH show ?thesis by simp
  qed
qed

subsection \<open>The run\<close>

definition kusto_fixed :: "kusto_handler \<Rightarrow> kusto_handler" where
  "kusto_fixed h = h\<lparr>kh_errors := [], kh_total_time := None, kh_credentials := None\<rparr>"

lemma kusto_fixed_simps [simp]:
  "kusto_fixed (h\<lparr>kh_errors := es\<rparr>) = kusto_fixed h"
  "kusto_fixed (h\<lparr>kh_total_time := tt\<rparr>) = kusto_fixed h"
  "kusto_fixed (set_kusto_credentials c h) = kusto_fixed h"
  by (simp_all add: kusto_fixed_def set_kusto_credentials_def)

lemma kusto_is_azure_quiet: "is_azure c \<Longrightarrow> quiet c"
  by (cases c) simp_all

lemma build_query_emits:
  assumes "\<And>p. P (K8sGet p)"
  shows "emits P (build_query E)"
  unfolding build_query_def get_last_checkpoint_time_def
  by (intro emits_intros get_autoindexer_emits assms)

lemma import_handler_emits:
  "emits P ((case e of
      ImportError m \<Rightarrow> py_raise (DataSourceError ''azure-kusto-data package is required for Kusto data source'')
    | _ \<Rightarrow> py_raise e) :: (kusto_handler, unit) py)"
  by (cases e) (simp_all add: emits_raise)

lemma import_handler_keeps:
  "keeps f ((case e of
      ImportError m \<Rightarrow> py_raise (DataSourceError ''azure-kusto-data package is required for Kusto data source'')
    | _ \<Rightarrow> py_raise e) :: (kusto_handler, unit) py)"
  by (cases e) (simp_all add: keeps_basic)

lemma execute_emits:
  assumes "\<And>c. is_azure c \<Longrightarrow> P c" "\<And>u k. P (KustoConnect u k)" "\<And>u. P (KustoNewClient u)" "\<And>d q. P (KustoExecute d q)"
  shows "emits P (execute_kusto_query E q)"
  unfolding execute_kusto_query_def kusto_token_def run_query_def
  by (intro emits_intros import_handler_emits assms)

lemma execute_quiet: "emits quiet (execute_kusto_query E q)"
  by (rule execute_emits) (simp_all add: kusto_is_azure_quiet)

lemma format_emits: "emits quiet (format_documents E records)"
  unfolding format_documents_def format_step_def by (intro emits_intros) simp

lemma kusto_errors_keeps:
  "keeps kh_errors (build_query E)" "keeps kh_errors (execute_kusto_query E q)"
  "keeps kh_errors (format_documents E records)" "keeps kh_errors (set_total_time E start)"
proof -
  show "keeps kh_errors (build_query E)"
    unfolding build_query_def get_last_checkpoint_time_def by (intro frame_intros)
  show "keeps kh_errors (execute_kusto_query E q)"
    unfolding execute_kusto_query_def kusto_token_def run_query_def
    by (intro frame_intros import_handler_keeps) (simp add: set_kusto_credentials_def)
  show "keeps kh_errors (format_documents E records)"
    unfolding format_documents_def format_step_def by (intro frame_intros)
  show "keeps kh_errors (set_total_time E start)"
    unfolding set_total_time_def by (intro frame_intros) simp
qed

lemma kusto_fixed_keeps:
  "keeps kusto_fixed (build_query E)" "keeps kusto_fixed (execute_kusto_query E q)"
  "keeps kusto_fixed (format_documents E records)" "keeps kusto_fixed (set_total_time E start)"
proof -
  show "keeps kusto_fixed (build_query E)"
    unfolding build_query_def get_last_checkpoint_time_def by (intro frame_intros)
  show "keeps kusto_fixed (execute_kusto_query E q)"
    unfolding execute_kusto_query_def kusto_token_def run_query_def
    by (intro frame_intros import_handler_keeps) simp
  show "keeps kusto_fixed (format_documents E records)"
    unfolding format_documents_def format_step_def by (intro frame_intros)
  show "keeps kusto_fixed (set_total_time E start)"
    unfolding set_total_time_def by (intro frame_intros) simp
qed

text \<open>The documents of the records: one for each record that has a text, in order.\<close>

lemma format_loop_run:
  "\<exists>tss. py_for (format_step E) records docs (h, t) =
      (Inr (docs @ map (\<lambda>(r, ts). kusto_document (kh_autoindexer_name h) (record_parts r) ts)
        (zip (filter (\<lambda>r. record_parts r \<noteq> []) records) tss)), h, t @ replicate (length tss) ClockNow) \<and>
    length tss = length (filter (\<lambda>r. record_parts r \<noteq> []) records)"
proof (induction records arbitrary: docs t)
  case Nil
  then show ?case by simp
next
  case (Cons r records)
  show ?case
  proof (cases "record_parts r = []")
    case True
    then show ?thesis using Cons.IH [of docs t] by (simp add: format_step_def)
  next
    case False
    let ?ts = "iso_utc (clock_now E ClockNow t)"
    let ?d = "kusto_document (kh_autoindexer_name h) (record_parts r) ?ts"
    have step: "format_step E r docs (h, t) = (Inr (docs @ [?d]), h, t @ [ClockNow])"
      using False by (simp add: format_step_def py_bind_def)
    obtain tss where tss: "py_for (format_step E) records (docs @ [?d]) (h, t @ [ClockNow]) =
        (Inr ((docs @ [?d]) @ map (\<lambda>(r, ts). kusto_document (kh_autoindexer_name h) (record_parts r) ts)
          (zip (filter (\<lambda>r. record_parts r \<noteq> []) records) tss)), h,
         (t @ [ClockNow]) @ replicate (length tss) ClockNow)"
      "length tss = length (filter (\<lambda>r. record_parts r \<noteq> []) records)"
      using Cons.IH by blast
    show ?thesis
      using step tss False by (intro exI [of _ "?ts # tss"]) (simp add: py_bind_def)
  qed
qed

text \<open>Sending the slices: one call each, and one error for each that is refused.\<close>

definition slice_call :: "kusto_handler \<Rightarrow> nat \<times> document list \<Rightarrow> call" where
  "slice_call h b = RagIndex (rc_base_url (kh_rag_client h)) (kh_index_name h) (snd b)"

lemma slice_call_fixed: "kusto_fixed h' = kusto_fixed h \<Longrightarrow> slice_call h' = slice_call h"
  by (auto simp: kusto_fixed_def slice_call_def fun_eq_iff dest: arg_cong [of _ _ kh_rag_client] arg_cong [of _ _ kh_index_name])

lemma index_slice_run:
  obtains h' es where "index_slice E b errors (h, t) = (Inr (errors @ es), h', t @ [slice_call h b])"
    and "kh_errors h' = kh_errors h @ es" and "kusto_fixed h' = kusto_fixed h"
    and "length es = refused E t [slice_call h b]"
proof (cases b)
  case (Pair i ds)
  show ?thesis
  proof (cases "rag_write E (slice_call h b) t")
    case (Inl e)
    let ?m = "''Failed to index batch '' @ nat_str (i + 1) @ '': '' @ exn_str e"
    show ?thesis
      by (rule that [of "[?m]" "h\<lparr>kh_errors := kh_errors h @ [?m]\<rparr>"])
        (use Inl Pair in \<open>simp_all add: index_slice_def slice_call_def index_documents_def py_bind_def py_try_def Let_def\<close>)
  next
    case (Inr x)
    show ?thesis
      by (rule that [of "[]" h])
        (use Inr Pair in \<open>simp_all add: index_slice_def slice_call_def index_documents_def py_bind_def py_try_def\<close>)
  qed
qed

lemma index_slices_run:
  "\<exists>h' es. py_for (index_slice E) bs errors (h, t) = (Inr (errors @ es), h', t @ map (slice_call h) bs) \<and>
    kh_errors h' = kh_errors h @ es \<and> kusto_fixed h' = kusto_fixed h \<and>
    length es = refused E t (map (slice_call h) bs)"
proof (induction bs arbitrary: errors h t)
  case Nil
  then show ?case by (auto intro: exI [of _ "[]"])
next
  case (Cons b bs)
  obtain h1 es1 where step: "index_slice E b errors (h, t) = (Inr (errors @ es1), h1, t @ [slice_call h b])"
    "kh_errors h1 = kh_errors h @ es1" "kusto_fixed h1 = kusto_fixed h" "length es1 = refused E t [slice_call h b]"
    by (rule index_slice_run)
  obtain h' es where rest: "py_for (index_slice E) bs (errors @ es1) (h1, t @ [slice_call h b]) =
      (Inr ((errors @ es1) @ es), h', (t @ [slice_call h b]) @ map (slice_call h) bs)"
    "kh_errors h' = kh_errors h1 @ es" "kusto_fixed h' = kusto_fixed h1"
    "length es = refused E (t @ [slice_call h b]) (map (slice_call h) bs)"
    using Cons.IH [of "errors @ es1" h1 "t @ [slice_call h b]"] unfolding slice_call_fixed [OF step(3)] by blast
  show ?case
    by (rule exI [of _ h'], rule exI [of _ "es1 @ es"]) (use step rest in \<open>simp add: py_bind_def\<close>)
qed

subsection \<open>The outcome of a run\<close>

text \<open>The records of a run: the query is chosen and executed.\<close>

definition kusto_records :: "env \<Rightarrow> (kusto_handler, kusto_record list) py" where
  "kusto_records E = py_bind (build_query E) (execute_kusto_query E)"

definition kusto_send :: "env \<Rightarrow> int \<Rightarrow> kusto_record list \<Rightarrow> (kusto_handler, string list) py" where
  "kusto_send E start_time records =
     (if records = [] then py_seq (set_total_time E start_time) (py_return [])
      else py_bind (format_documents E records) (\<lambda>documents.
        if documents = [] then py_seq (set_total_time E start_time) (py_return [])
        else py_bind (py_for (index_slice E) (enumerate 0 (slices batch_size documents)) []) (\<lambda>errors.
          py_seq (set_total_time E start_time) (py_return errors))))"

lemma kusto_index_eq: "kusto_index E start = py_bind (kusto_records E) (kusto_send E start)"
  by (simp add: kusto_index_def kusto_records_def kusto_send_def [abs_def])

lemma kusto_records_quiet: "emits quiet (kusto_records E)"
  unfolding kusto_records_def by (intro emits_bind build_query_emits execute_quiet) simp

lemma kusto_records_keeps: "keeps kh_errors (kusto_records E)" "keeps kusto_fixed (kusto_records E)"
  unfolding kusto_records_def by (intro keeps_bind kusto_errors_keeps kusto_fixed_keeps)+

lemma set_total_time_run:
  "set_total_time E start (h, t) =
    (Inr (), h\<lparr>kh_total_time := Some (clock_now E ClockNow t - start)\<rparr>, t @ [ClockNow])"
  by (simp add: set_total_time_def now_def py_bind_def)

lemma indexed_clock [simp]: "indexed_batches (replicate n ClockNow) = []"
  by (induction n) simp_all

lemma refused_clock [simp]: "refused E t (replicate n ClockNow) = 0"
  by (rule no_write_none_refused) (simp add: list_all_iff)

lemma indexed_slices [simp]: "indexed_batches (map (slice_call h) bs) = map snd bs"
  by (induction bs) (simp_all add: slice_call_def)

lemma format_run:
  obtains docs n where "format_documents E records (h, t) = (Inr docs, h, t @ replicate n ClockNow)"
    and "map doc_text docs = map (py_join [CHR 0x0A]) (filter (\<lambda>p. p \<noteq> []) (map record_parts records))"
proof -
  let ?rs = "filter (\<lambda>r. record_parts r \<noteq> []) records"
  obtain tss where tss: "format_documents E records (h, t) =
      (Inr (map (\<lambda>(r, ts). kusto_document (kh_autoindexer_name h) (record_parts r) ts) (zip ?rs tss)), h,
       t @ replicate (length tss) ClockNow)" "length tss = length ?rs"
    using format_loop_run [of E records "[]" h t] by (auto simp: format_documents_def)
  have "map doc_text (map (\<lambda>(r, ts). kusto_document (kh_autoindexer_name h) (record_parts r) ts) (zip ?rs tss)) =
      map (py_join [CHR 0x0A]) (map record_parts (map fst (zip ?rs tss)))"
    by (simp add: kusto_document_def case_prod_beta)
  also have "\<dots> = map (py_join [CHR 0x0A]) (filter (\<lambda>p. p \<noteq> []) (map record_parts records))"
    using tss(2) by (simp add: filter_map comp_def)
  finally show ?thesis by (rule that [OF tss(1)])
qed

lemma kusto_send_run:
  obtains r h' u where "kusto_send E start records (h, t) = (Inr r, h', t @ u)"
    and "kh_total_time h' \<noteq> None" and "kh_errors h' = kh_errors h @ r" and "length r = refused E t u"
    and "map doc_text (concat (indexed_batches u)) =
      map (py_join [CHR 0x0A]) (filter (\<lambda>p. p \<noteq> []) (map record_parts records))"
    and "list_all (\<lambda>b. b \<noteq> [] \<and> length b \<le> batch_size) (indexed_batches u)"
proof (cases "records = []")
  case True
  show ?thesis
    by (rule that [of "[]" "h\<lparr>kh_total_time := Some (clock_now E ClockNow t - start)\<rparr>" "[ClockNow]"])
      (simp_all add: kusto_send_def True py_bind_def set_total_time_run)
next
  case False
  obtain docs n where docs: "format_documents E records (h, t) = (Inr docs, h, t @ replicate n ClockNow)"
    "map doc_text docs = map (py_join [CHR 0x0A]) (filter (\<lambda>p. p \<noteq> []) (map record_parts records))"
    by (rule format_run)
  let ?bs = "enumerate 0 (slices batch_size docs)" and ?t = "t @ replicate n ClockNow"
  obtain h1 es where sent: "py_for (index_slice E) ?bs [] (h, ?t) = (Inr es, h1, ?t @ map (slice_call h) ?bs)"
    "kh_errors h1 = kh_errors h @ es" "length es = refused E ?t (map (slice_call h) ?bs)"
    using index_slices_run [of E ?bs "[]" h ?t] by auto
  let ?u = "replicate n ClockNow @ map (slice_call h) ?bs"
  have none: "es = []" "h1 = h" if "docs = []"
    using sent(1) that by (simp_all add: slices.simps)
  have run: "kusto_send E start records (h, t) =
      (Inr es, h1\<lparr>kh_total_time := Some (clock_now E ClockNow (t @ ?u) - start)\<rparr>, t @ ?u @ [ClockNow])"
    using False docs(1) sent(1) none
    by (cases "docs = []") (simp_all add: kusto_send_def py_bind_def set_total_time_run slices.simps)
  show ?thesis
    by (rule that [OF run])
      (use docs(2) sent(2,3) slices_sizes [of batch_size docs] slices_concat [of batch_size docs]
        in \<open>simp_all add: batch_size_def enumerate_eq_zip\<close>)
qed

lemma kusto_update_index_run:
  "\<exists>r h' u. kusto_update_index E (h, t) = (Inr r, h', t @ u) \<and> kh_total_time h' \<noteq> None \<and>
    (case fst (kusto_records E (h, t @ [ClockNow])) of
       Inl e \<Rightarrow> r = [kusto_failure e] \<and> kh_errors h' = kh_errors h \<and> indexed_batches u = []
     | Inr records \<Rightarrow>
         map doc_text (concat (indexed_batches u)) =
           map (py_join [CHR 0x0A]) (filter (\<lambda>p. p \<noteq> []) (map record_parts records)) \<and>
         list_all (\<lambda>b. b \<noteq> [] \<and> length b \<le> 50) (indexed_batches u) \<and>
         kh_errors h' = kh_errors h @ r \<and> length r = refused E t u)"
proof -
  let ?t = "t @ [ClockNow]" and ?start = "clock_now E ClockNow t"
  obtain res h1 t1 where rec: "kusto_records E (h, ?t) = (res, h1, t1)" by (metis prod.collapse)
  obtain v where v: "t1 = ?t @ v" "list_all quiet v"
    using emitsD [OF kusto_records_quiet [of E], of "(h, ?t)"] rec by auto
  have err: "kh_errors h1 = kh_errors h" using keepsD [OF kusto_records_keeps(1) rec] by simp
  have still: "indexed_batches v = []" "refused E s v = 0" for s
    using v(2) no_index_no_batches [of v] no_write_none_refused [of v E s] by (simp_all add: list_all_iff)
  show ?thesis
  proof (cases res)
    case (Inl e)
    have run: "kusto_update_index E (h, t) = (Inr [kusto_failure e],
        h1\<lparr>kh_total_time := Some (clock_now E ClockNow t1 - ?start)\<rparr>, t @ [ClockNow] @ v @ [ClockNow])"
      using rec Inl v(1) by (simp add: kusto_update_index_def kusto_index_eq now_def py_bind_def py_try_def set_total_time_run)
    show ?thesis
      by (rule exI, rule exI, rule exI, rule conjI [OF run]) (use rec Inl err still in simp_all)
  next
    case (Inr records)
    obtain r h' u where send: "kusto_send E ?start records (h1, t1) = (Inr r, h', t1 @ u)"
      "kh_total_time h' \<noteq> None" "kh_errors h' = kh_errors h1 @ r" "length r = refused E t1 u"
      "map doc_text (concat (indexed_batches u)) =
        map (py_join [CHR 0x0A]) (filter (\<lambda>p. p \<noteq> []) (map record_parts records))"
      "list_all (\<lambda>b. b \<noteq> [] \<and> length b \<le> batch_size) (indexed_batches u)" by (rule kusto_send_run)
    have run: "kusto_update_index E (h, t) = (Inr r, h', t @ [ClockNow] @ v @ u)"
      using rec Inr v(1) send(1) by (simp add: kusto_update_index_def kusto_index_eq now_def py_bind_def py_try_def)
    show ?thesis
      by (rule exI, rule exI, rule exI, rule conjI [OF run]) (use rec Inr err still v(1) send in \<open>simp_all add: batch_size_def\<close>)
  qed
qed

text \<open>C11: A run of a query. It never raises and always records its duration. When the query is chosen and
  executed, every record that has a text is sent, once and in order, in batches of one to fifty, and
  there is one error for each batch the engine refuses, both in the result and in the status. When it is not,
  nothing is sent, the failure is the only error of the result, and the errors of the status stay as
  they were.\<close>

theorem kusto_run_outcome:
  "\<exists>r h' u. kusto_update_index E (h, t) = (Inr r, h', t @ u) \<and> kh_total_time h' \<noteq> None \<and>
    (case fst (kusto_records E (h, t @ [ClockNow])) of
       Inl e \<Rightarrow> r = [kusto_failure e] \<and> kh_errors h' = kh_errors h \<and> indexed_batches u = []
     | Inr records \<Rightarrow>
         map doc_text (concat (indexed_batches u)) =
           map (py_join [CHR 0x0A]) (filter (\<lambda>p. p \<noteq> []) (map record_parts records)) \<and>
         list_all (\<lambda>b. b \<noteq> [] \<and> length b \<le> 50) (indexed_batches u) \<and>
         kh_errors h' = kh_errors h @ r \<and> length r = refused E t u)"
  by (rule kusto_update_index_run)

lemma index_slice_keeps: "keeps kusto_fixed (index_slice E b errors)"
  unfolding index_slice_def index_documents_def
  by (cases b) (simp only: prod.case, intro frame_intros, simp)

lemma kusto_update_index_fixed: "keeps kusto_fixed (kusto_update_index E)"
  unfolding kusto_update_index_def kusto_index_def
  by (intro frame_intros kusto_fixed_keeps index_slice_keeps)

lemma kusto_update_index_emits: "emits (\<lambda>c. \<not> is_k8s_write c) (kusto_update_index E)"
proof -
  have "emits (\<lambda>c. \<not> is_k8s_write c) (execute_kusto_query E q)" for q
    by (rule emits_mono [OF execute_quiet]) simp
  moreover have "emits (\<lambda>c. \<not> is_k8s_write c) (format_documents E records)" for records
    by (rule emits_mono [OF format_emits]) simp
  moreover have "emits (\<lambda>c. \<not> is_k8s_write c) (index_slice E b errors)" for b errors
    unfolding index_slice_def index_documents_def
    by (cases b) (simp only: prod.case, intro emits_intros, simp_all)
  ultimately show ?thesis
    unfolding kusto_update_index_def kusto_index_def set_total_time_def
    by (intro emits_intros build_query_emits) simp_all
qed

subsection \<open>The choice of the query\<close>

text \<open>The time of the last indexing that a status holds, if it is a non-empty text.\<close>

definition recorded_time :: "json \<Rightarrow> string option" where
  "recorded_time crd =
     (case jget (resource_status crd) ''lastIndexingTimestamp'' of
        Some (JStr ts) \<Rightarrow> if ts = '''' then None else Some ts | _ \<Rightarrow> None)"

lemma checkpoint_run:
  assumes "kc_name (kh_autoindexer_client h) \<noteq> ''''"
    and "k8s_get E (K8sGet (object_path (kh_autoindexer_client h))) t = Inr crd" and "wf_resource crd"
    and "case jget (resource_status crd) ''lastIndexingTimestamp'' of
        None \<Rightarrow> True | Some v \<Rightarrow> v = JNull \<or> (\<exists>ts. v = JStr ts)"
  shows "get_last_checkpoint_time E (h, t) =
    (Inr (case recorded_time crd of None \<Rightarrow> JNull | Some ts \<Rightarrow> JStr ts), h,
     t @ [K8sGet (object_path (kh_autoindexer_client h))])"
proof -
  have d: "is_dict crd" "truthy crd" "is_dict (resource_status crd)"
    using assms(3) by (auto simp: wf_resource_def wf_status_def)
  have st: "py_get crd ''status'' (JDict []) = Inr (resource_status crd)"
    using d(1) by (simp add: resource_status_def split: option.split)
  have "checkpoint_of crd = Inr (case recorded_time crd of None \<Rightarrow> JNull | Some ts \<Rightarrow> JStr ts)"
    using d(2,3) st assms(4)
    by (auto simp: checkpoint_of_def recorded_time_def split: option.splits)
  then show ?thesis
    using assms(1,2) by (simp add: get_last_checkpoint_time_def py_bind_def py_try_def get_autoindexer_Inr)
qed

text \<open>C23: The choice between the initial and the incremental query. The initial one runs when no indexing is
  recorded in the resource or when the last run has left a true \<open>AutoIndexerError\<close> condition;
  otherwise the incremental one, with the recorded time in the place of each \<open>$LAST_INDEXING_TIMESTAMP\<close>. A query without
  this placeholder is sent as it is, as the one in \<open>README.md\<close>, which has \<open>{last_run}\<close> instead.\<close>

theorem kusto_query_choice:
  assumes "kc_name (kh_autoindexer_client h) \<noteq> ''''"
    and "k8s_get E (K8sGet (object_path (kh_autoindexer_client h))) t = Inr crd" and "wf_resource crd"
    and "case jget (resource_status crd) ''lastIndexingTimestamp'' of
        None \<Rightarrow> True | Some v \<Rightarrow> v = JNull \<or> (\<exists>ts. v = JStr ts)"
    and "kh_conditions h = JList cs" and "list_all is_dict cs" and "kh_incremental_query h = JStr q"
  shows "fst (build_query E (h, t)) = Inr
    (case recorded_time crd of
       None \<Rightarrow> kh_initial_query h
     | Some ts \<Rightarrow>
         if \<exists>c\<in>set cs. has_type ''AutoIndexerError'' c \<and> jget c ''status'' = Some (JStr ''True'')
         then kh_initial_query h
         else JStr (if sublist ''$LAST_INDEXING_TIMESTAMP'' q then py_replace q ''$LAST_INDEXING_TIMESTAMP'' ts else q))"
proof (cases "\<exists>c\<in>set cs. has_type ''AutoIndexerError'' c \<and> jget c ''status'' = Some (JStr ''True'')")
  case True
  then have "last_indexing_had_errors (kh_conditions h) = Inr True"
    using assms(5,6) by (simp add: last_indexing_had_errors_def any_indexing_error_iff)
  with True checkpoint_run [OF assms(1-4)] show ?thesis
    by (simp add: build_query_def py_bind_def split: option.split)
next
  case False
  then have "last_indexing_had_errors (kh_conditions h) = Inr False"
    using assms(5,6) by (auto simp: last_indexing_had_errors_def any_indexing_error_iff)
  with False checkpoint_run [OF assms(1-4)] assms(7) show ?thesis
    by (auto simp: build_query_def py_bind_def placeholder_def split: option.split)
qed

definition sample_kusto :: "json list \<Rightarrow> kusto_handler" where
  "sample_kusto cs = \<lparr>kh_index_name = JStr ''documentation-index'', kh_config = JDict [], kh_credentials = None,
     kh_rag_client = new_rag_client ''http://rag'', kh_autoindexer_client = sample_client,
     kh_autoindexer_name = JStr ''default_docs'', kh_language = JStr ''Kusto'',
     kh_initial_query = JStr ''cluster('', kh_incremental_query = JStr ''since $LAST_INDEXING_TIMESTAMP'',
     kh_conditions = JList cs, kh_errors = [], kh_total_time = None\<rparr>"

definition indexed_resource :: json where
  "indexed_resource = JDict [(''status'', JDict [(''lastIndexingTimestamp'', JStr ''2024'')])]"

theorem kusto_query_choice_witness:
  "fst (build_query (sample_world indexed_resource) (sample_kusto [], [])) = Inr (JStr ''since 2024'')"
proof -
  have "kc_name (kh_autoindexer_client (sample_kusto [])) \<noteq> ''''" "wf_resource indexed_resource"
    "k8s_get (sample_world indexed_resource) (K8sGet (object_path (kh_autoindexer_client (sample_kusto [])))) [] = Inr indexed_resource"
    "case jget (resource_status indexed_resource) ''lastIndexingTimestamp'' of
        None \<Rightarrow> True | Some v \<Rightarrow> v = JNull \<or> (\<exists>ts. v = JStr ts)"
    "kh_conditions (sample_kusto []) = JList []" "list_all is_dict []"
    "kh_incremental_query (sample_kusto []) = JStr ''since $LAST_INDEXING_TIMESTAMP''"
    by (simp add: sample_kusto_def sample_client_def, code_simp, simp add: sample_world_def,
        simp add: indexed_resource_def resource_status_def, simp_all add: sample_kusto_def)
  note choice = kusto_query_choice [OF this(1,3,2,4-7)]
  have "recorded_time indexed_resource = Some ''2024''" by code_simp
  moreover have "py_replace ''since $LAST_INDEXING_TIMESTAMP'' ''$LAST_INDEXING_TIMESTAMP'' ''2024'' = ''since 2024''"
    "sublist ''$LAST_INDEXING_TIMESTAMP'' ''since $LAST_INDEXING_TIMESTAMP''"
    by code_simp+
  ultimately show ?thesis using choice by simp
qed

text \<open>The patterns as they stand in the source, and that they are parsed to what the searches look for.\<close>

definition cluster_pattern :: string where
  "cluster_pattern =
     ''cluster'' @ [escape] @ ''(['' @ [squote, escape, dquote] @ ''](['' @ ''^'' @ [squote, escape, dquote] @ ''()]+)['' @
       [squote, escape, dquote] @ '']'' @ [escape] @ '')''"

definition database_pattern :: string where
  "database_pattern =
     [escape] @ ''.database'' @ [escape] @ ''(['' @ [squote, escape, dquote] @ ''](['' @ ''^'' @ [squote, escape, dquote] @ '']+)['' @
       [squote, escape, dquote] @ '']'' @ [escape] @ '')''"

lemma patterns_parsed:
  "parse_regex Plain [] cluster_pattern = Some (call_atoms ''cluster'' [dquote, squote] [CHR '')'', CHR ''('', dquote, squote])"
  "parse_regex Plain [] database_pattern = Some (call_atoms ''.database'' [dquote, squote] [dquote, squote])"
  by code_simp+

lemma reads_is_match:
  assumes "\<And>c. stop c \<longleftrightarrow> c \<in> set stops"
  shows "reads (call_atoms name [dquote, squote] stops) False s g \<longleftrightarrow> is_match name stop g s"
  unfolding reads_call is_match_def is_quote_def using assms by auto

text \<open>C31: The searches in a query. The cluster is the group of the leftmost match of the regular expression of the source,
  \<open>cluster\<close> with a quoted text without quotes and parentheses, and the database that of the second one, \<open>.database\<close> with a quoted
  text without quotes; there is none exactly when the expression matches nowhere.\<close>

theorem cluster_match_leftmost:
  "(cluster_match query = Some g \<longleftrightarrow> regex_search cluster_pattern query g) \<and>
   (database_match query = Some g \<longleftrightarrow> regex_search database_pattern query g)"
proof
  have "cluster_stop c \<longleftrightarrow> c \<in> set [CHR '')'', CHR ''('', dquote, squote]" for c
    by (auto simp: cluster_stop_def is_quote_def)
  note reads = reads_is_match [OF this]
  show "cluster_match query = Some g \<longleftrightarrow> regex_search cluster_pattern query g"
    unfolding cluster_match_def regex_search_def patterns_parsed option.case reads
    by (rule search_call_Some) (simp add: cluster_stop_def)
next
  have "is_quote c \<longleftrightarrow> c \<in> set [dquote, squote]" for c by (auto simp: is_quote_def)
  note reads = reads_is_match [OF this]
  show "database_match query = Some g \<longleftrightarrow> regex_search database_pattern query g"
    unfolding database_match_def regex_search_def patterns_parsed option.case reads
    by (rule search_call_Some)
qed

lemma cluster_match_sample:
  "cluster_match (''cluster('' @ [squote] @ ''help'' @ [squote] @ '')'' @ '' | take 5'') = Some ''help''"
  by code_simp

subsection \<open>The address of the cluster\<close>

lemma dropWhile_all_or: "dropWhile P s = [] \<or> \<not> P (hd (dropWhile P s))"
  by (meson hd_dropWhile)

lemma suffix_bare: "suffix kusto_suffix (''https://'' @ n) \<longleftrightarrow> suffix kusto_suffix n"
proof
  assume "suffix kusto_suffix (''https://'' @ n)"
  then consider "suffix kusto_suffix n" | x where "kusto_suffix = x @ n" "suffix x ''https://''"
    unfolding suffix_append by blast
  then show "suffix kusto_suffix n"
  proof cases
    case 2
    have "CHR ''.'' \<notin> set x" using set_mono_suffix [OF 2(2)] by auto
    with 2(1) have "x = []" by (cases x) (auto simp: kusto_suffix_def)
    with 2(1) show ?thesis by simp
  qed
qed (rule suffix_appendI)

lemma https_removed: "\<not> sublist ''https://'' n \<Longrightarrow> py_replace (''https://'' @ n) ''https://'' '''' = n"
  using replace_from_absent [of "''https://''" n "''''"] by (simp add: py_replace_def numeral_eq_Suc)

text \<open>C32: The address queried. It ends in the domain of the service, and normalising it again changes nothing. A name that starts with
  \<open>http\<close> and ends in the domain is used as it is, also when it has no scheme; every other name gives an address that
  starts with \<open>https://\<close>; and a name without an address in it gets the scheme, and the domain unless it has it already.\<close>

theorem cluster_url_normal:
  "suffix kusto_suffix (cluster_url g) \<and> cluster_url (cluster_url g) = cluster_url g \<and>
   (if prefix ''http'' (py_strip g) \<and> suffix kusto_suffix (py_strip g) then cluster_url g = py_strip g
    else prefix ''https://'' (cluster_url g)) \<and>
   (\<not> prefix ''http'' (py_strip g) \<and> \<not> sublist ''https://'' (py_strip g) \<and> \<not> sublist ''http://'' (py_strip g) \<longrightarrow>
     cluster_url g = ''https://'' @ py_strip g @ (if suffix kusto_suffix (py_strip g) then '''' else kusto_suffix))"
proof (intro conjI)
  have p: "prefix ''http'' (cluster_url g)"
    by (simp add: cluster_url_def Let_def prefix_def)
  show s: "suffix kusto_suffix (cluster_url g)"
    by (simp add: cluster_url_def Let_def suffix_def)
  from p obtain z where z: "cluster_url g = CHR ''h'' # z" by (auto simp: prefix_def)
  from s obtain y where y: "cluster_url g = (y @ ''.kusto.windows.ne'') @ [CHR ''t'']"
    by (auto simp: suffix_def kusto_suffix_def)
  have "\<not> is_space CHR ''h''" "\<not> is_space CHR ''t''" "code CHR ''h'' < 128" "code CHR ''t'' < 128" by code_simp+
  from py_strip_id [OF z y this] have "py_strip (cluster_url g) = cluster_url g" .
  with p s show "cluster_url (cluster_url g) = cluster_url g" by (simp add: cluster_url_def [of "cluster_url g"] Let_def)
  show "if prefix ''http'' (py_strip g) \<and> suffix kusto_suffix (py_strip g) then cluster_url g = py_strip g
    else prefix ''https://'' (cluster_url g)"
    by (simp add: cluster_url_def Let_def)
  show "\<not> prefix ''http'' (py_strip g) \<and> \<not> sublist ''https://'' (py_strip g) \<and> \<not> sublist ''http://'' (py_strip g) \<longrightarrow>
     cluster_url g = ''https://'' @ py_strip g @ (if suffix kusto_suffix (py_strip g) then '''' else kusto_suffix)"
    using suffix_bare [of "py_strip g"] https_removed [of "py_strip g"] by (auto simp: cluster_url_def Let_def)
qed

theorem cluster_url_normal_witness:
  "cluster_url '' help '' = ''https://help.kusto.windows.net''"
proof -
  have "py_strip '' help '' = ''help''" "\<not> prefix ''http'' ''help''" "\<not> sublist ''https://'' ''help''" "\<not> sublist ''http://'' ''help''"
    "\<not> suffix kusto_suffix ''help''"
    by code_simp+
  with cluster_url_normal [of "'' help ''"] show ?thesis by (simp add: kusto_suffix_def)
qed

text \<open>A name that starts with \<open>http\<close> does not get a scheme.\<close>

lemma cluster_url_no_scheme: "cluster_url ''httplogs.kusto.windows.net'' = ''httplogs.kusto.windows.net''"
  by code_simp

text \<open>An address that ends in a slash gets the domain a second time.\<close>

text \<open>What modelling showed of the handler: an address with a trailing slash, and a source without an incremental
  query.\<close>

lemma no_incremental_query: "incremental JNull ts = Inl (no_attribute JNull ''replace'')"
  by simp

lemma cluster_url_slash:
  "cluster_url ''https://c.kusto.windows.net/'' = ''https://c.kusto.windows.net/.kusto.windows.net''"
  by code_simp

subsection \<open>The status after a run\<close>

lemma kusto_status_error:
  assumes "kc_name (kh_autoindexer_client h) \<noteq> ''''"
    and "resource_stays E (kh_autoindexer_client h) t crd" and "wf_resource crd" and "jget crd ''status'' \<noteq> None"
  shows "\<exists>body c. patched (new_calls (kusto_update_autoindexer_status E) (h, t)) = [body] \<and>
    lookup_condition ''AutoIndexerError'' (resource_conditions body) = Some c \<and>
    jget c ''status'' = Some (JStr (error_status (kh_errors h)))"
proof -
  let ?d = "case kh_total_time h of None \<Rightarrow> 0 | Some tt \<Rightarrow> if tt \<noteq> 0 then trunc_seconds tt else 0"
  have run: "kusto_update_autoindexer_status E (h, t) =
      write_base_status E (kh_index_name h) (kh_autoindexer_name h) (kh_rag_client h) (kh_autoindexer_client h)
        (kh_errors h) ?d [] (h, t)"
    by (simp add: kusto_update_autoindexer_status_def py_bind_def)
  have extra: "distinct (map fst ([] :: (string \<times> json) list))" "fst ` set ([] :: (string \<times> json) list) \<inter> base_fields = {}"
    by simp_all
  obtain body where body: "patched (new_calls (write_base_status E (kh_index_name h) (kh_autoindexer_name h)
        (kh_rag_client h) (kh_autoindexer_client h) (kh_errors h) ?d []) (h, t)) = [body]"
    and look: "\<forall>ty. case map_of (base_statuses (kh_errors h)) ty of
        None \<Rightarrow> lookup_condition ty (resource_conditions body) = lookup_condition ty (resource_conditions crd)
      | Some v \<Rightarrow> \<exists>c. lookup_condition ty (resource_conditions body) = Some c \<and> jget c ''status'' = Some (JStr v)"
    using write_base_status_sends [OF assms extra, of "kh_index_name h" "kh_autoindexer_name h"
        "kh_rag_client h" "kh_errors h" ?d h]
    by (elim exE conjE) (rule that)
  have err: "map_of (base_statuses (kh_errors h)) ''AutoIndexerError'' = Some (error_status (kh_errors h))"
    by (simp add: base_statuses_def)
  from look [THEN spec, of "''AutoIndexerError''", unfolded err option.case] obtain c where
    c: "lookup_condition ''AutoIndexerError'' (resource_conditions body) = Some c"
      "jget c ''status'' = Some (JStr (error_status (kh_errors h)))" by blast
  have sent: "patched (new_calls (kusto_update_autoindexer_status E) (h, t)) = [body]"
    using body unfolding new_calls_def run .
  show ?thesis by (rule exI [of _ body], rule exI [of _ c]) (intro conjI sent c)
qed

text \<open>C25: A failed query is not reported. When the query cannot be chosen or executed, the run returns an
  error, and yet the status the handler writes after it says that there was none.\<close>

theorem kusto_failure_not_in_status:
  assumes "kc_name (kh_autoindexer_client h) \<noteq> ''''" and "kh_errors h = []"
    and "fst (kusto_records E (h, t @ [ClockNow])) = Inl e"
    and "kusto_update_index E (h, t) = (r, h', t')"
    and "resource_stays E (kh_autoindexer_client h) t' crd" and "wf_resource crd" and "jget crd ''status'' \<noteq> None"
  shows "r = Inr [kusto_failure e] \<and>
    (\<exists>body c. patched (new_calls (kusto_update_autoindexer_status E) (h', t')) = [body] \<and>
      lookup_condition ''AutoIndexerError'' (resource_conditions body) = Some c \<and>
      jget c ''status'' = Some (JStr ''False''))"
proof -
  have r: "r = Inr [kusto_failure e]" "kh_errors h' = []"
    using kusto_update_index_run [of E h t] assms(2-4) by auto
  have "kusto_fixed h' = kusto_fixed h" using keepsD [OF kusto_update_index_fixed assms(4)] by simp
  then have "kh_autoindexer_client h' = kh_autoindexer_client h"
    by (auto simp: kusto_fixed_def dest: arg_cong [of _ _ kh_autoindexer_client])
  with kusto_status_error [of h' E t' crd] assms(1,5-7) r show ?thesis
    by (simp add: error_status_def)
qed

theorem kusto_failure_not_in_status_witness:
  "\<exists>r h' t' body c. kusto_update_index (sample_world sample_resource) (sample_kusto [], []) = (Inr r, h', t') \<and>
     r = [''Kusto data source error: '' @ ''Query must include at least one cluster('' @ [squote] @ ''...'' @ [squote] @ '') specification''] \<and>
     patched (new_calls (kusto_update_autoindexer_status (sample_world sample_resource)) (h', t')) = [body] \<and>
     lookup_condition ''AutoIndexerError'' (resource_conditions body) = Some c \<and>
     jget c ''status'' = Some (JStr ''False'')"
proof -
  let ?E = "sample_world sample_resource" and ?h = "sample_kusto []"
  let ?m = "''Query must include at least one cluster('' @ [squote] @ ''...'' @ [squote] @ '') specification''"
  have name: "kc_name (kh_autoindexer_client ?h) \<noteq> ''''" by (simp add: sample_kusto_def sample_client_def)
  have errs: "kh_errors ?h = []" by (simp add: sample_kusto_def)
  have rec: "fst (kusto_records ?E (?h, [] @ [ClockNow])) = Inl (DataSourceError ?m)" by code_simp
  obtain r h' t' where run: "kusto_update_index ?E (?h, []) = (r, h', t')" by (metis prod.collapse)
  have "list_all (\<lambda>c. \<not> is_k8s_write c) t'"
    using emitsD [OF kusto_update_index_emits [of ?E], of "(?h, [])"] run by simp
  then have stays: "resource_stays ?E (kh_autoindexer_client ?h) t' sample_resource"
    unfolding resource_stays_def sample_world_def by (simp add: last_patched_patched no_write_no_patch)
  have status: "jget sample_resource ''status'' \<noteq> None" by (simp add: sample_resource_def)
  have failure: "kusto_failure (DataSourceError ?m) = ''Kusto data source error: '' @ ?m"
    unfolding kusto_failure_def by (simp only: exn.case)
  note claim = kusto_failure_not_in_status [OF name errs rec run stays sample_resource_wf status, unfolded failure]
  show ?thesis using claim run by blast
qed

subsection \<open>The handler as a data source\<close>

interpretation kusto_source: data_source kusto_update_index kusto_update_autoindexer_status
  kh_autoindexer_client "\<lambda>h. kh_errors h = []" "\<lambda>h. Some (kh_errors h)"
proof
  fix E :: env and h h' :: kusto_handler and t t' :: trace and es :: "string list" and crd :: json
  show "never_raises (kusto_update_index E)"
    unfolding never_raises_def using kusto_update_index_run [of E] by (metis fst_conv prod.collapse sum.disc(2))
  show "emits (\<lambda>c. \<not> is_k8s_write c) (kusto_update_index E)" by (rule kusto_update_index_emits)
  have client: "kh_autoindexer_client (kusto_fixed h) = kh_autoindexer_client h" for h
    by (simp add: kusto_fixed_def)
  show "keeps kh_autoindexer_client (kusto_update_index E)"
    using kusto_update_index_fixed [of E] unfolding keeps_def by (metis client)
  show "Some (kh_errors h') = Some []" if "kh_errors h = []" "kusto_update_index E (h, t) = (Inr [], h', t')"
    using kusto_update_index_run [of E h t] that
    by (cases "fst (kusto_records E (h, t @ [ClockNow]))") auto
  show "reads_then P (kusto_update_autoindexer_status E)" if "\<And>p b. P (K8sPatchStatus p b)" for P
    unfolding kusto_update_autoindexer_status_def
    by (intro reads_then_bind emits_self write_base_status_reads that)
  show "reported (kh_autoindexer_client h) es crd (new_calls (kusto_update_autoindexer_status E) (h, t))"
    if "Some (kh_errors h) = Some es" "kc_name (kh_autoindexer_client h) \<noteq> ''''"
      "resource_stays E (kh_autoindexer_client h) t crd" "wf_resource crd" "jget crd ''status'' \<noteq> None"
  proof -
    have run: "kusto_update_autoindexer_status E (h, t) =
        write_base_status E (kh_index_name h) (kh_autoindexer_name h) (kh_rag_client h) (kh_autoindexer_client h) es
          (case kh_total_time h of None \<Rightarrow> 0 | Some total_time \<Rightarrow> if total_time \<noteq> 0 then trunc_seconds total_time else 0)
          [] (h, t)"
      using that(1) by (simp add: kusto_update_autoindexer_status_def py_bind_def)
    show ?thesis
      unfolding new_calls_def run
      by (rule write_base_status_reported [OF that(2-5), unfolded new_calls_def]) simp_all
  qed
qed simp

subsection \<open>Accepted configurations\<close>

definition json_field :: "json \<Rightarrow> string \<Rightarrow> json" where
  "json_field d k = (case jget d k of None \<Rightarrow> JNull | Some v \<Rightarrow> v)"

text \<open>C33: The configurations that are accepted. A handler is made exactly when there are a name and an initial
  query and the language is \<open>Kusto\<close>; every other configuration is refused with a \<open>DataSourceError\<close>.\<close>

theorem kusto_config_accepted:
  assumes "is_dict config"
  shows "case new_kusto_handler index_name config rag k8s credentials of
      Inr h \<Rightarrow> truthy (json_field config ''autoindexer_name'') \<and> json_field config ''language'' = JStr ''Kusto'' \<and>
        truthy (json_field config ''initialQuery'') \<and> kh_initial_query h = json_field config ''initialQuery'' \<and> kh_errors h = []
    | Inl e \<Rightarrow> (\<exists>m. e = DataSourceError m) \<and> \<not> (truthy (json_field config ''autoindexer_name'') \<and>
        json_field config ''language'' = JStr ''Kusto'' \<and> truthy (json_field config ''initialQuery''))"
proof -
  have get: "py_get config k JNull = Inr (json_field config k)" for k
    using assms by (simp add: json_field_def)
  have "\<exists>v. py_get config ''conditions'' (JList []) = Inr v" using assms by simp
  then obtain v where v: "py_get config ''conditions'' (JList []) = Inr v" ..
  show ?thesis
    unfolding new_kusto_handler_def get v missing_database_value_def by auto
qed

theorem kusto_config_accepted_witness:
  "\<exists>m. new_kusto_handler JNull (JDict [(''autoindexer_name'', JStr ''docs''), (''language'', JStr ''Postgres'')])
      (new_rag_client ''http://rag'') sample_client None = Inl (DataSourceError m)"
proof -
  let ?c = "JDict [(''autoindexer_name'', JStr ''docs''), (''language'', JStr ''Postgres'')]"
  have "is_dict ?c" and "json_field ?c ''language'' \<noteq> JStr ''Kusto''" by (simp_all add: json_field_def)
  with kusto_config_accepted [of ?c JNull "new_rag_client ''http://rag''" sample_client None]
  show ?thesis by (auto split: sum.splits)
qed

end
