(* ===== verification/GitIncremental.thy ===== *)
theory GitIncremental
  imports GitHandler
begin

section \<open>Incremental indexing\<close>

text \<open>
  What \<open>_index_diff_files\<close> of \<open>git_handler.py\<close> does to the engine, against an abstract specification:
  each item of the diff stands for at most one action on the index, and the loop with its three
  collections and its batches carries out the actions.
\<close>

subsection \<open>The specification\<close>

datatype action =
    Create string string
  | Replace "string option" string string
  | Remove "string option"

text \<open>The text of a file, empty when there is none to index, and the document the engine has for a path.\<close>

definition file_text :: "env \<Rightarrow> trace \<Rightarrow> git_handler \<Rightarrow> string \<Rightarrow> string" where
  "file_text E t0 h f =
     (case gh_work_dir h of
        None \<Rightarrow> ''''
      | Some d \<Rightarrow> (case fs_read E (ReadFile (path_join d f)) t0 of
          Inl e \<Rightarrow> ''''
        | Inr raw \<Rightarrow> (case extract_text E raw (get_content_type f) (py_lower (snd (splitext f))) of
            Inl e \<Rightarrow> ''''
          | Inr content \<Rightarrow> content)))"

text \<open>The listing that asks for the document of a path.\<close>

definition path_lookup :: "git_handler \<Rightarrow> string \<Rightarrow> call" where
  "path_lookup h f = RagList (rc_base_url (gh_rag_client h)) (gh_index_name h) (json_dumps (JDict [(''file_path'', JStr f)])) 1 0"

definition engine_has :: "env \<Rightarrow> trace \<Rightarrow> git_handler \<Rightarrow> string \<Rightarrow> document option" where
  "engine_has E t0 h f =
     (case rag_list E (path_lookup h f) t0 of
        Inr (Some l) \<Rightarrow> (case ld_documents l of [] \<Rightarrow> None | d # ds \<Rightarrow> Some d)
      | _ \<Rightarrow> None)"

definition store_as :: "env \<Rightarrow> trace \<Rightarrow> git_handler \<Rightarrow> string \<Rightarrow> string \<Rightarrow> action" where
  "store_as E t0 h f old = (case engine_has E t0 h old of
      None \<Rightarrow> Create f (file_text E t0 h f)
    | Some d \<Rightarrow> Replace (doc_id d) f (file_text E t0 h f))"

fun action_on :: "env \<Rightarrow> trace \<Rightarrow> git_handler \<Rightarrow> string \<Rightarrow> diff_item \<Rightarrow> action list" where
  "action_on E t0 h f item =
     (if \<not> should_index_file E h f then []
      else if di_change_type item = Some ''D''
      then (case engine_has E t0 h f of None \<Rightarrow> [] | Some d \<Rightarrow> [Remove (doc_id d)])
      else if file_text E t0 h f = '''' then []
      else if di_change_type item = Some ''A'' then [Create f (file_text E t0 h f)]
      else if di_change_type item = Some ''M'' then [store_as E t0 h f f]
      else if di_change_type item = Some ''R''
      then (case di_a_path item of None \<Rightarrow> [] | Some a \<Rightarrow> if a = '''' then [] else [store_as E t0 h f a])
      else [])"

declare action_on.simps [simp del]

definition actions_of :: "env \<Rightarrow> trace \<Rightarrow> git_handler \<Rightarrow> diff_item \<Rightarrow> action list" where
  "actions_of E t0 h item = (case diff_file_path item of Inl e \<Rightarrow> [] | Inr f \<Rightarrow> action_on E t0 h f item)"

text \<open>The documents of the two kinds of batches that actions call for: identifier, path and text.\<close>

type_synonym doc_view = "string option \<times> json option \<times> string"

fun created :: "action list \<Rightarrow> doc_view list" where
  "created [] = []"
| "created (Create f c # acts) = (None, Some (JStr f), c) # created acts"
| "created (_ # acts) = created acts"

fun replaced :: "action list \<Rightarrow> doc_view list" where
  "replaced [] = []"
| "replaced (Replace i f c # acts) = (i, Some (JStr f), c) # replaced acts"
| "replaced (_ # acts) = replaced acts"

fun removed :: "action list \<Rightarrow> string option list" where
  "removed [] = []"
| "removed (Remove i # acts) = i # removed acts"
| "removed (_ # acts) = removed acts"

lemma actions_append [simp]:
  "created (as @ bs) = created as @ created bs"
  "replaced (as @ bs) = replaced as @ replaced bs"
  "removed (as @ bs) = removed as @ removed bs"
  by (induction as rule: created.induct; simp)+

definition view :: "document \<Rightarrow> doc_view" where
  "view d = (doc_id d, doc_path d, doc_text d)"

text \<open>After the history \<open>t0\<close> the files and the head of the repository do not change any more.\<close>

definition still :: "env \<Rightarrow> trace \<Rightarrow> bool" where
  "still E t0 \<longleftrightarrow> (\<forall>c u. fs_read E c (t0 @ u) = fs_read E c t0) \<and>
     (\<forall>u. git_head E GitHeadCommit (t0 @ u) = git_head E GitHeadCommit t0)"

definition during :: "env \<Rightarrow> trace \<Rightarrow> trace \<Rightarrow> bool" where
  "during E t0 t \<longleftrightarrow> still E t0 \<and> prefix t0 t"

lemma during_start: "still E t0 \<Longrightarrow> during E t0 (t0 @ u)"
  by (simp add: during_def)

lemma during_append: "during E t0 t \<Longrightarrow> during E t0 (t @ u)"
  by (simp add: during_def)

lemma during_answers:
  assumes "during E t0 t"
  shows "fs_read E c t = fs_read E c t0" and "git_head E GitHeadCommit t = git_head E GitHeadCommit t0"
  using assms by (auto simp: during_def still_def prefix_def)

text \<open>The engine answers a lookup as after \<open>t0\<close>, until it is written to again.\<close>

definition known :: "env \<Rightarrow> trace \<Rightarrow> git_handler \<Rightarrow> trace \<Rightarrow> string \<Rightarrow> bool" where
  "known E t0 h t p \<longleftrightarrow> (\<forall>u. list_all (\<lambda>c. \<not> is_rag_write c) u \<longrightarrow>
     rag_list E (path_lookup h p) (t @ u) = rag_list E (path_lookup h p) t0)"

lemma known_append: "known E t0 h t p \<Longrightarrow> list_all (\<lambda>c. \<not> is_rag_write c) u \<Longrightarrow> known E t0 h (t @ u) p"
  by (simp add: known_def)

lemma known_answer: "known E t0 h t p \<Longrightarrow> rag_list E (path_lookup h p) t = rag_list E (path_lookup h p) t0"
  unfolding known_def by (elim allE [of _ "[]"]) simp

text \<open>The paths an item of the diff makes the handler look up.\<close>

definition looked_up :: "string \<Rightarrow> diff_item \<Rightarrow> string list" where
  "looked_up f item =
     (if di_change_type item = Some ''D'' \<or> di_change_type item = Some ''M'' then [f]
      else if di_change_type item = Some ''R''
      then (case di_a_path item of None \<Rightarrow> [] | Some a \<Rightarrow> if a = '''' then [] else [a])
      else [])"

text \<open>Part of what some actions call for has been sent, and nothing else.\<close>

definition sent_part :: "action list \<Rightarrow> trace \<Rightarrow> bool" where
  "sent_part acts u \<longleftrightarrow> prefix (map view (concat (indexed_batches u))) (created acts) \<and>
     prefix (map view (concat (updated_batches u))) (replaced acts) \<and> deleted_ids u = []"

text \<open>What is sent for the items of a diff does not change what the engine has for the paths that items after
  them look up.\<close>

definition steady :: "env \<Rightarrow> trace \<Rightarrow> git_handler \<Rightarrow> diff_item list \<Rightarrow> bool" where
  "steady E t0 h items \<longleftrightarrow> (\<forall>pre item post f p u. items = pre @ item # post \<longrightarrow> diff_file_path item = Inr f \<longrightarrow>
     p \<in> set (looked_up f item) \<longrightarrow> sent_part (concat (map (actions_of E t0 h) pre)) u \<longrightarrow>
     rag_list E (path_lookup h p) (t0 @ u) = rag_list E (path_lookup h p) t0)"

subsection \<open>Single operations\<close>

lemma git_fixed_lookup: "path_lookup (git_fixed h) p = path_lookup h p"
  by (simp add: path_lookup_def)

lemma spec_fixed [simp]:
  "file_text E t0 (git_fixed h) = file_text E t0 h"
  "engine_has E t0 (git_fixed h) = engine_has E t0 h"
  by (simp_all add: file_text_def engine_has_def path_lookup_def fun_eq_iff)

lemma path_lookup_fixed: "git_fixed h' = git_fixed h \<Longrightarrow> path_lookup h' p = path_lookup h p"
  by (metis git_fixed_lookup)

lemma actions_of_fixed:
  assumes "git_fixed h' = git_fixed h"
  shows "actions_of E t0 h' = actions_of E t0 h"
proof -
  have store: "store_as E t0 (git_fixed g) f old = store_as E t0 g f old" for g f old
    by (cases "engine_has E t0 g old") (simp_all add: store_as_def)
  have "action_on E t0 (git_fixed g) f item = action_on E t0 g f item" for g f item
    by (cases "di_a_path item"; simp add: action_on.simps store)
  then have fixed: "actions_of E t0 (git_fixed g) = actions_of E t0 g" for g
    by (simp add: actions_of_def fun_eq_iff split: sum.split)
  show ?thesis using fixed [of h'] fixed [of h] assms by simp
qed

lemma view_git_document [simp]: "view (git_document h f c ty ts cm) = (None, Some (JStr f), c)"
  by (simp add: view_def) (simp add: git_document_def Let_def)

lemma view_with_id [simp]: "view (d\<lparr>doc_id := i\<rparr>) = (i, snd (view d))"
  by (simp add: view_def doc_path_def)

lemma read_during:
  assumes "during E t0 t"
  obtains r u where "read_file_content E f (h, t) = (Inr r, h, t @ u)" and "list_all quiet u"
    and "(case r of None \<Rightarrow> '''' | Some c \<Rightarrow> c) = file_text E t0 h f"
proof -
  obtain r u where run: "read_file_content E f (h, t) = (Inr r, h, t @ u)" "list_all quiet u"
    by (rule read_file_content_run)
  note read = during_answers(1) [OF assms]
  have "(case r of None \<Rightarrow> '''' | Some c \<Rightarrow> c) = file_text E t0 h f"
    using run(1)
    by (auto simp: read_file_content_def file_text_def py_bind_def py_try_def read split: option.splits sum.splits)
  with run show ?thesis by (rule that)
qed

lemma create_during:
  assumes "during E t0 t" and "git_head E GitHeadCommit t0 = Inr cm"
  obtains doc u where "create_document E f text ty (h, t) = (Inr doc, h, t @ u)" and "list_all quiet u"
    and "view doc = (None, Some (JStr f), text)"
proof -
  obtain r u where run: "create_document E f text ty (h, t) = (r, h, t @ u)" "list_all quiet u"
    "(\<exists>ts commit. r = Inr (git_document h f text ty ts commit)) \<or> (\<exists>e v. r = Inl e \<and> git_head E GitHeadCommit (t @ v) = Inl e)"
    by (rule create_document_run)
  have "git_head E GitHeadCommit (t @ u) = Inr cm" for u
    using assms(2) during_answers(2) [OF during_append [OF assms(1)]] by simp
  with run(3) obtain ts commit where "r = Inr (git_document h f text ty ts commit)" by auto
  with run show ?thesis by (intro that) auto
qed

text \<open>What the operations do to the object: nothing but adding errors, \<open>n\<close> of them for deletions.\<close>

definition later_by :: "nat \<Rightarrow> git_handler \<Rightarrow> git_handler \<Rightarrow> bool" where
  "later_by n h h' \<longleftrightarrow> git_fixed h' = git_fixed h \<and> prefix (gh_errors h) (gh_errors h') \<and>
     deletion_errors (gh_errors h') = deletion_errors (gh_errors h) + n"

abbreviation later :: "git_handler \<Rightarrow> git_handler \<Rightarrow> bool" where
  "later \<equiv> later_by 0"

lemma later_refl [simp]: "later h h"
  by (simp add: later_by_def)

lemma later_trans: "later_by m h h1 \<Longrightarrow> later_by n h1 h2 \<Longrightarrow> later_by (m + n) h h2"
  by (auto simp: later_by_def)

lemma find_known:
  assumes "known E t0 h t f"
  obtains h' u where "find_indexed E f purpose (h, t) = (Inr (engine_has E t0 h f), h', t @ u)"
    and "later h h'" and "list_all (\<lambda>c. \<not> is_rag_write c) u"
proof -
  let ?c = "path_lookup h f"
  have list: "rag_list E ?c t = rag_list E ?c t0" by (rule known_answer [OF assms])
  note defs = find_indexed_def list_documents_def path_lookup_def engine_has_def py_bind_def py_try_def
  note [simp del] = json_dumps.simps
  show ?thesis
  proof (cases "rag_list E ?c t0")
    case (Inl e)
    then show ?thesis
      using list
      by (intro that [of "h\<lparr>gh_errors := gh_errors h @ [''Failed to fetch file from rag '' @ f @ '' for '' @ purpose @
             '': '' @ exn_str e]\<rparr>" "[?c]"])
        (simp_all add: defs git_append_error_def later_by_def del: append_Cons)
  next
    case (Inr l)
    then show ?thesis
      using list by (intro that [of h "[?c]"]) (simp_all add: defs split: option.splits)
  qed
qed

subsection \<open>One item\<close>

text \<open>What an item adds to the three collections.\<close>

definition performs :: "action list \<Rightarrow> diff_acc \<Rightarrow> diff_acc \<Rightarrow> bool" where
  "performs acts acc acc' \<longleftrightarrow> (case (acc, acc') of ((c, u, d), (c', u', d')) \<Rightarrow>
     map view c' = map view c @ created acts \<and> map view u' = map view u @ replaced acts \<and> d' = d @ removed acts)"

lemma performs_Nil [simp]: "performs [] acc acc"
  by (cases acc) (simp add: performs_def)

lemma replace_during:
  assumes "during E t0 t" and "git_head E GitHeadCommit t0 = Inr cm" and "text = file_text E t0 h f"
    and "known E t0 h t old"
  obtains acc' h' u where "replace_indexed E f text old purpose ty acc (h, t) = (Inr (True, acc'), h', t @ u)"
    and "later h h'" and "list_all (\<lambda>c. \<not> is_rag_write c) u"
    and "performs [store_as E t0 h f old] acc acc'"
proof -
  obtain c m d where acc: "acc = (c, m, d)" by (cases acc)
  obtain h1 u1 where found: "find_indexed E old purpose (h, t) = (Inr (engine_has E t0 h old), h1, t @ u1)"
    "later h h1" "list_all (\<lambda>c. \<not> is_rag_write c) u1"
    by (rule find_known [OF assms(4)])
  obtain doc u2 where doc: "create_document E f text (if engine_has E t0 h old = None then ''added'' else ty) (h1, t @ u1) =
      (Inr doc, h1, (t @ u1) @ u2)" "list_all quiet u2" "view doc = (None, Some (JStr f), text)"
    by (rule create_during [OF during_append [OF assms(1)] assms(2)])
  have u: "list_all (\<lambda>c. \<not> is_rag_write c) (u1 @ u2)" using found(3) doc(2) by (auto simp: list_all_iff)
  show ?thesis
  proof (cases "engine_has E t0 h old")
    case None
    then show ?thesis
      by (intro that [of "(c @ [doc], m, d)" h1 "u1 @ u2"])
        (use found doc u assms(3) in \<open>simp_all add: replace_indexed_def acc py_bind_def performs_def store_as_def\<close>)
  next
    case (Some x)
    then show ?thesis
      by (intro that [of "(c, m @ [doc\<lparr>doc_id := doc_id x\<rparr>], d)" h1 "u1 @ u2"])
        (use found doc u assms(3) in \<open>simp_all add: replace_indexed_def acc py_bind_def performs_def store_as_def\<close>)
  qed
qed

text \<open>What a branch on the type of change does: its action, and nothing else that the engine would notice.\<close>

definition item_done :: "env \<Rightarrow> trace \<Rightarrow> string \<Rightarrow> diff_item \<Rightarrow> diff_acc \<Rightarrow> git_handler \<Rightarrow> trace \<Rightarrow> bool" where
  "item_done E t0 f item acc h t \<longleftrightarrow> (\<exists>go acc' h' u. diff_change E f item acc (h, t) = (Inr (go, acc'), h', t @ u) \<and>
     later h h' \<and> list_all (\<lambda>c. \<not> is_rag_write c) u \<and> performs (action_on E t0 h f item) acc acc' \<and> (\<not> go \<longrightarrow> acc' = acc))"

lemma item_doneI:
  assumes "diff_change E f item acc (h, t) = (Inr (go, acc'), h', t @ u)" and "later h h'"
    and "list_all (\<lambda>c. \<not> is_rag_write c) u" and "performs (action_on E t0 h f item) acc acc'" and "\<not> go \<longrightarrow> acc' = acc"
  shows "item_done E t0 f item acc h t"
  unfolding item_done_def using assms by blast

lemma read_text:
  assumes "during E t0 t"
  obtains (empty) r u where "read_file_content E f (h, t) = (Inr r, h, t @ u)" and "list_all (\<lambda>c. \<not> is_rag_write c) u"
      and "r = None \<or> r = Some ''''" and "file_text E t0 h f = ''''"
  | (contents) u where "read_file_content E f (h, t) = (Inr (Some (file_text E t0 h f)), h, t @ u)"
      and "list_all (\<lambda>c. \<not> is_rag_write c) u" and "file_text E t0 h f \<noteq> ''''"
proof -
  obtain r u where read: "read_file_content E f (h, t) = (Inr r, h, t @ u)" "list_all quiet u"
    "(case r of None \<Rightarrow> '''' | Some c \<Rightarrow> c) = file_text E t0 h f"
    by (rule read_during [OF assms])
  have nu: "list_all (\<lambda>c. \<not> is_rag_write c) u" using read(2) by (auto simp: list_all_iff)
  show ?thesis
  proof (cases "file_text E t0 h f = ''''")
    case True
    then show ?thesis using read(1,3) nu by (intro empty) (auto split: option.splits)
  next
    case False
    then have "r = Some (file_text E t0 h f)" using read(3) by (auto split: option.splits)
    with read(1) nu False show ?thesis by (intro contents) simp_all
  qed
qed

lemma added_done:
  assumes "during E t0 t" and "git_head E GitHeadCommit t0 = Inr cm" and "should_index_file E h f"
    and "di_change_type item = Some ''A''"
  shows "item_done E t0 f item acc h t"
proof -
  obtain c m d where acc: "acc = (c, m, d)" by (cases acc)
  note simps = diff_change_def diff_added_def acc py_bind_def action_on.simps assms(3,4)
  show ?thesis
  proof (rule read_text [OF assms(1), of f h])
    fix r u
    assume "read_file_content E f (h, t) = (Inr r, h, t @ u)" "list_all (\<lambda>c. \<not> is_rag_write c) u"
      "r = None \<or> r = Some ''''" "file_text E t0 h f = ''''"
    then show ?thesis by (intro item_doneI [of _ _ _ _ _ _ True acc h u]) (auto simp: simps)
  next
    fix u
    assume read: "read_file_content E f (h, t) = (Inr (Some (file_text E t0 h f)), h, t @ u)"
      "list_all (\<lambda>c. \<not> is_rag_write c) u" "file_text E t0 h f \<noteq> ''''"
    obtain doc u2 where doc: "create_document E f (file_text E t0 h f) ''added'' (h, t @ u) = (Inr doc, h, (t @ u) @ u2)"
      "list_all quiet u2" "view doc = (None, Some (JStr f), file_text E t0 h f)"
      by (rule create_during [OF during_append [OF assms(1)] assms(2)])
    have "list_all (\<lambda>c. \<not> is_rag_write c) (u @ u2)" using read(2) doc(2) by (auto simp: list_all_iff)
    then show ?thesis
      by (intro item_doneI [of _ _ _ _ _ _ True "(c @ [doc], m, d)" h "u @ u2"])
        (use read doc in \<open>simp_all add: simps performs_def\<close>)
  qed
qed

lemma deleted_done:
  assumes "known E t0 h t f" and "should_index_file E h f" and "di_change_type item = Some ''D''"
  shows "item_done E t0 f item acc h t"
proof -
  obtain c m d where acc: "acc = (c, m, d)" by (cases acc)
  note simps = diff_change_def diff_deleted_def acc py_bind_def action_on.simps performs_def assms(2,3)
  obtain h1 u1 where found: "find_indexed E f ''deletion'' (h, t) = (Inr (engine_has E t0 h f), h1, t @ u1)"
    "later h h1" "list_all (\<lambda>c. \<not> is_rag_write c) u1"
    by (rule find_known [OF assms(1)])
  show ?thesis
  proof (cases "engine_has E t0 h f")
    case None
    then show ?thesis
      by (intro item_doneI [of _ _ _ _ _ _ False acc h1 u1]) (use found in \<open>simp_all add: simps\<close>)
  next
    case (Some x)
    then show ?thesis
      by (intro item_doneI [of _ _ _ _ _ _ True "(c, m, d @ [doc_id x])" h1 u1]) (use found in \<open>simp_all add: simps\<close>)
  qed
qed

lemma modified_done:
  assumes "during E t0 t" and "git_head E GitHeadCommit t0 = Inr cm" and "should_index_file E h f"
    and "di_change_type item = Some ''M''" and known: "\<forall>p\<in>set (looked_up f item). known E t0 h t p"
  shows "item_done E t0 f item acc h t"
proof -
  note simps = diff_change_def diff_modified_def py_bind_def action_on.simps assms(3,4)
  show ?thesis
  proof (rule read_text [OF assms(1), of f h])
    fix r u
    assume "read_file_content E f (h, t) = (Inr r, h, t @ u)" "list_all (\<lambda>c. \<not> is_rag_write c) u"
      "r = None \<or> r = Some ''''" "file_text E t0 h f = ''''"
    then show ?thesis by (intro item_doneI [of _ _ _ _ _ _ False acc h u]) (auto simp: simps)
  next
    fix u
    assume read: "read_file_content E f (h, t) = (Inr (Some (file_text E t0 h f)), h, t @ u)"
      "list_all (\<lambda>c. \<not> is_rag_write c) u" "file_text E t0 h f \<noteq> ''''"
    obtain acc' h' u2 where rep: "replace_indexed E f (file_text E t0 h f) f ''update'' ''modified'' acc (h, t @ u) =
        (Inr (True, acc'), h', (t @ u) @ u2)" "later h h'" "list_all (\<lambda>c. \<not> is_rag_write c) u2"
      "performs [store_as E t0 h f f] acc acc'"
      by (rule replace_during [OF during_append [OF assms(1)] assms(2) refl known_append [OF _ read(2)]])
        (use known assms(4) in \<open>simp add: looked_up_def\<close>)
    show ?thesis
      by (intro item_doneI [of _ _ _ _ _ _ True acc' h' "u @ u2"]) (use read rep in \<open>simp_all add: simps\<close>)
  qed
qed

lemma renamed_done:
  assumes "during E t0 t" and "git_head E GitHeadCommit t0 = Inr cm" and "should_index_file E h f"
    and "di_change_type item = Some ''R''" and known: "\<forall>p\<in>set (looked_up f item). known E t0 h t p"
  shows "item_done E t0 f item acc h t"
proof -
  note simps = diff_change_def diff_renamed_def py_bind_def action_on.simps assms(3,4)
  show ?thesis
  proof (rule read_text [OF assms(1), of f h])
    fix r u
    assume "read_file_content E f (h, t) = (Inr r, h, t @ u)" "list_all (\<lambda>c. \<not> is_rag_write c) u"
      "r = None \<or> r = Some ''''" "file_text E t0 h f = ''''"
    then show ?thesis by (intro item_doneI [of _ _ _ _ _ _ False acc h u]) (auto simp: simps)
  next
    fix u
    assume read: "read_file_content E f (h, t) = (Inr (Some (file_text E t0 h f)), h, t @ u)"
      "list_all (\<lambda>c. \<not> is_rag_write c) u" "file_text E t0 h f \<noteq> ''''"
    show ?thesis
    proof (cases "di_a_path item = None \<or> di_a_path item = Some ''''")
      case True
      then show ?thesis by (intro item_doneI [of _ _ _ _ _ _ True acc h u]) (use read in \<open>auto simp: simps\<close>)
    next
      case False
      then obtain a where a: "di_a_path item = Some a" "a \<noteq> ''''" by auto
      obtain acc' h' u2 where rep: "replace_indexed E f (file_text E t0 h f) a ''renaming'' ''renamed'' acc (h, t @ u) =
          (Inr (True, acc'), h', (t @ u) @ u2)" "later h h'" "list_all (\<lambda>c. \<not> is_rag_write c) u2"
        "performs [store_as E t0 h f a] acc acc'"
        by (rule replace_during [OF during_append [OF assms(1)] assms(2) refl known_append [OF _ read(2)]])
          (use known assms(4) a in \<open>simp add: looked_up_def\<close>)
      show ?thesis
        by (intro item_doneI [of _ _ _ _ _ _ True acc' h' "u @ u2"]) (use read rep a in \<open>simp_all add: simps\<close>)
    qed
  qed
qed

lemma change_during:
  assumes "during E t0 t" and "git_head E GitHeadCommit t0 = Inr cm" and "should_index_file E h f"
    and known: "\<forall>p\<in>set (looked_up f item). known E t0 h t p"
  obtains go acc' h' u where "diff_change E f item acc (h, t) = (Inr (go, acc'), h', t @ u)"
    and "later h h'" and "list_all (\<lambda>c. \<not> is_rag_write c) u"
    and "performs (action_on E t0 h f item) acc acc'" and "\<not> go \<longrightarrow> acc' = acc"
proof -
  let ?ty = "di_change_type item"
  consider (added) "?ty = Some ''A''" | (modified) "?ty = Some ''M''" | (deleted) "?ty = Some ''D''"
    | (renamed) "?ty = Some ''R''" | (other) "?ty \<noteq> Some ''A''" "?ty \<noteq> Some ''M''" "?ty \<noteq> Some ''D''" "?ty \<noteq> Some ''R''" by blast
  then have "item_done E t0 f item acc h t"
  proof cases
    case added
    then show ?thesis by (rule added_done [OF assms(1-3)])
  next
    case modified
    then show ?thesis by (rule modified_done [OF assms(1-3) _ known])
  next
    case deleted
    then have "known E t0 h t f" using known by (simp add: looked_up_def)
    from deleted_done [OF this assms(3) deleted] show ?thesis .
  next
    case renamed
    then show ?thesis by (rule renamed_done [OF assms(1-3) _ known])
  next
    case other
    then show ?thesis
      by (intro item_doneI [of _ _ _ _ _ _ True acc h "[]"]) (simp_all add: diff_change_def action_on.simps)
  qed
  then show ?thesis unfolding item_done_def using that by blast
qed

text \<open>A lookup names the path of the file only: a document of that path that another AutoIndexer has put into the
  index is found, too. Full indexing passes over files that incremental indexing would index.\<close>

lemma find_indexed_lookup:
  assumes "rag_list E (RagList (rc_base_url (gh_rag_client h)) (gh_index_name h)
      (json_dumps (JDict [(''file_path'', JStr f)])) 1 0) t = Inr (Some \<lparr>ld_documents = d # ds, ld_total_items = n\<rparr>)"
  shows "find_indexed E f purpose (h, t) = (Inr (Some d), h, t @ [RagList (rc_base_url (gh_rag_client h)) (gh_index_name h)
      (json_dumps (JDict [(''file_path'', JStr f)])) 1 0])"
proof -
  note [simp del] = json_dumps.simps
  show ?thesis using assms by (simp add: find_indexed_def list_documents_def py_bind_def py_try_def)
qed

lemma walk_skips_git_in_names: "files_of_walk E h ''/w'' [(''/w/docs.gitbook'', names)] = []"
proof -
  have "sublist ''.git'' ''/w/docs.gitbook''" by code_simp
  then show ?thesis by (simp add: files_of_walk_def)
qed

subsection \<open>Batches\<close>

lemma send_full_batches_run:
  obtains h' v where "send_full_batches E (c, m, d) (h, t) =
      (Inr (if length c \<ge> 10 then [] else c, if length m \<ge> 10 then [] else m, if length d \<ge> 10 then [] else d), h', t @ v)"
    and "later_by (if length d \<ge> 10 then 1 else 0) h h'"
    and "indexed_batches v = (if length c \<ge> 10 then [c] else [])"
    and "updated_batches v = (if length m \<ge> 10 then [m] else [])" and "deleted_ids v = []"
proof -
  obtain h1 where h1: "index_documents_batch E c (h, t) =
      (Inr (), h1, t @ [RagIndex (rc_base_url (gh_rag_client h)) (gh_index_name h) c])" "later h h1"
    by (rule index_documents_batch_run [of E c h t]) (simp add: later_by_def)
  define s1 v1 where "s1 = (if length c \<ge> 10 then h1 else h)" and
    "v1 = (if length c \<ge> 10 then [RagIndex (rc_base_url (gh_rag_client h)) (gh_index_name h) c] else [])"
  obtain h2 where h2: "update_documents_batch E m (s1, t @ v1) =
      (Inr (), h2, (t @ v1) @ [RagUpdate (rc_base_url (gh_rag_client s1)) (gh_index_name s1) m])" "later s1 h2"
    by (rule update_documents_batch_run [of E m s1 "t @ v1"]) (simp add: later_by_def)
  define s2 v2 where "s2 = (if length m \<ge> 10 then h2 else s1)" and
    "v2 = (if length m \<ge> 10 then [RagUpdate (rc_base_url (gh_rag_client s1)) (gh_index_name s1) m] else [])"
  obtain h3 where h3: "delete_documents_batch d (s2, (t @ v1) @ v2) = (Inr (), h3, (t @ v1) @ v2)" "later_by (if d = [] then 0 else 1) s2 h3"
    by (rule delete_documents_batch_run [of d s2 "(t @ v1) @ v2"]) (simp add: later_by_def)
  define s3 where "s3 = (if length d \<ge> 10 then h3 else s2)"
  note defs = s1_def v1_def s2_def v2_def s3_def
  have l1: "later h s1" and l2: "later s1 s2" and l3: "later_by (if length d \<ge> 10 then 1 else 0) s2 s3"
    using h1(2) h2(2) h3(2) by (cases "d = []"; auto simp: defs)+
  have later: "later_by (if length d \<ge> 10 then 1 else 0) h s3" using later_trans [OF later_trans [OF l1 l2] l3] by simp
  have one: "(if length c \<ge> 10 then py_seq (index_documents_batch E c) (py_return []) else py_return c) (h, t) =
      (Inr (if length c \<ge> 10 then [] else c), s1, t @ v1)"
    using h1(1) by (simp add: defs py_bind_def)
  have two: "(if length m \<ge> 10 then py_seq (update_documents_batch E m) (py_return []) else py_return m) (s1, t @ v1) =
      (Inr (if length m \<ge> 10 then [] else m), s2, t @ v1 @ v2)"
    using h2(1) by (simp add: s2_def v2_def py_bind_def)
  have three: "(if length d \<ge> 10 then py_seq (delete_documents_batch d) (py_return []) else py_return d) (s2, t @ v1 @ v2) =
      (Inr (if length d \<ge> 10 then [] else d), s3, t @ v1 @ v2)"
    using h3(1) by (simp add: s3_def py_bind_def)
  have run: "send_full_batches E (c, m, d) (h, t) =
      (Inr (if length c \<ge> 10 then [] else c, if length m \<ge> 10 then [] else m, if length d \<ge> 10 then [] else d), s3, t @ v1 @ v2)"
    using one two three
    by (cases "10 \<le> length c"; cases "10 \<le> length m"; cases "10 \<le> length d") (simp_all add: send_full_batches_def py_bind_def)
  show ?thesis
    by (rule that [OF run]) (use later in \<open>auto simp: defs\<close>)
qed

lemma send_rest_run:
  obtains h' v where "send_rest E (c, m, d) (h, t) = (Inr (), h', t @ v)"
    and "later_by (if d \<noteq> [] then 1 else 0) h h'"
    and "indexed_batches v = (if c = [] then [] else [c])"
    and "updated_batches v = (if m = [] then [] else [m])" and "deleted_ids v = []"
proof -
  obtain h1 where h1: "index_documents_batch E c (h, t) =
      (Inr (), h1, t @ [RagIndex (rc_base_url (gh_rag_client h)) (gh_index_name h) c])" "later h h1"
    by (rule index_documents_batch_run [of E c h t]) (simp add: later_by_def)
  define s1 v1 where "s1 = (if c \<noteq> [] then h1 else h)" and
    "v1 = (if c \<noteq> [] then [RagIndex (rc_base_url (gh_rag_client h)) (gh_index_name h) c] else [])"
  obtain h2 where h2: "update_documents_batch E m (s1, t @ v1) =
      (Inr (), h2, (t @ v1) @ [RagUpdate (rc_base_url (gh_rag_client s1)) (gh_index_name s1) m])" "later s1 h2"
    by (rule update_documents_batch_run [of E m s1 "t @ v1"]) (simp add: later_by_def)
  define s2 v2 where "s2 = (if m \<noteq> [] then h2 else s1)" and
    "v2 = (if m \<noteq> [] then [RagUpdate (rc_base_url (gh_rag_client s1)) (gh_index_name s1) m] else [])"
  obtain h3 where h3: "delete_documents_batch d (s2, (t @ v1) @ v2) = (Inr (), h3, (t @ v1) @ v2)" "later_by (if d = [] then 0 else 1) s2 h3"
    by (rule delete_documents_batch_run [of d s2 "(t @ v1) @ v2"]) (simp add: later_by_def)
  define s3 where "s3 = (if d \<noteq> [] then h3 else s2)"
  note defs = s1_def v1_def s2_def v2_def s3_def
  have l1: "later h s1" and l2: "later s1 s2" and l3: "later_by (if d \<noteq> [] then 1 else 0) s2 s3"
    using h1(2) h2(2) h3(2) by (cases "d = []"; auto simp: defs)+
  have later: "later_by (if d \<noteq> [] then 1 else 0) h s3" using later_trans [OF later_trans [OF l1 l2] l3] by simp
  have one: "(if c \<noteq> [] then index_documents_batch E c else py_return ()) (h, t) = (Inr (), s1, t @ v1)"
    using h1(1) by (simp add: defs)
  have two: "(if m \<noteq> [] then update_documents_batch E m else py_return ()) (s1, t @ v1) = (Inr (), s2, t @ v1 @ v2)"
    using h2(1) by (simp add: s2_def v2_def)
  have three: "(if d \<noteq> [] then delete_documents_batch d else py_return ()) (s2, t @ v1 @ v2) = (Inr (), s3, t @ v1 @ v2)"
    using h3(1) by (simp add: s3_def)
  have run: "send_rest E (c, m, d) (h, t) = (Inr (), s3, t @ v1 @ v2)"
    using one two three
    by (cases "c = []"; cases "m = []"; cases "d = []") (simp_all add: send_rest_def py_bind_def)
  show ?thesis
    by (rule that [OF run]) (use later in \<open>simp_all add: defs\<close>)
qed


subsection \<open>The loop\<close>

text \<open>What has been sent and what is still pending, together, are what the actions call for; the
  batches sent in the loop are full.\<close>

definition carried_out :: "action list \<Rightarrow> diff_acc \<Rightarrow> diff_acc \<Rightarrow> trace \<Rightarrow> bool" where
  "carried_out acts acc acc' v \<longleftrightarrow> (case (acc, acc') of ((c, m, d), (c', m', d')) \<Rightarrow>
     map view (concat (indexed_batches v) @ c') = map view c @ created acts \<and>
     map view (concat (updated_batches v) @ m') = map view m @ replaced acts \<and>
     deleted_ids v = [] \<and>
     list_all (\<lambda>b. length b = 10) (indexed_batches v) \<and> list_all (\<lambda>b. length b = 10) (updated_batches v))"

definition small :: "diff_acc \<Rightarrow> bool" where
  "small acc \<longleftrightarrow> (case acc of (c, m, d) \<Rightarrow> length c < 10 \<and> length m < 10 \<and> length d < 10)"

lemma carried_out_trans:
  assumes "carried_out acts a b v" and "carried_out acts' b c w"
  shows "carried_out (acts @ acts') a c (v @ w)"
proof -
  obtain a1 a2 a3 b1 b2 b3 c1 c2 c3 where abc: "a = (a1, a2, a3)" "b = (b1, b2, b3)" "c = (c1, c2, c3)"
    by (cases a; cases b; cases c) blast
  have ab: "map view (concat (indexed_batches v)) @ map view b1 = map view a1 @ created acts"
    "map view (concat (updated_batches v)) @ map view b2 = map view a2 @ replaced acts"
    using assms(1) by (simp_all add: carried_out_def abc)
  have bc: "map view (concat (indexed_batches w)) @ map view c1 = map view b1 @ created acts'"
    "map view (concat (updated_batches w)) @ map view c2 = map view b2 @ replaced acts'"
    using assms(2) by (simp_all add: carried_out_def abc)
  have "map view (concat (indexed_batches (v @ w)) @ c1) = map view a1 @ created (acts @ acts')"
    using ab(1) bc(1) by simp
  moreover have "map view (concat (updated_batches (v @ w)) @ c2) = map view a2 @ replaced (acts @ acts')"
    using ab(2) bc(2) by simp
  ultimately show ?thesis using assms unfolding carried_out_def abc prod.case by simp
qed

lemma one_action: "length (action_on E t0 h f item) \<le> 1"
  by (auto simp: action_on.simps split: option.split)

lemma one_action_size:
  "length acts \<le> 1 \<Longrightarrow> length (created acts) \<le> 1 \<and> length (replaced acts) \<le> 1 \<and> length (removed acts) \<le> 1"
  by (cases acts; cases "hd acts") (auto simp: Suc_le_eq)

lemma diff_step_during:
  assumes "during E t0 t" and "git_head E GitHeadCommit t0 = Inr cm" and "\<not> isl (diff_file_path item)" and "small acc"
    and known: "\<And>f p. diff_file_path item = Inr f \<Longrightarrow> p \<in> set (looked_up f item) \<Longrightarrow> known E t0 h t p"
  obtains n acc' h' v where "diff_step E item acc (h, t) = (Inr acc', h', t @ v)" and "later_by n h h'"
    and "carried_out (actions_of E t0 h item) acc acc' v" and "small acc'"
    and "10 * n + length (snd (snd acc')) = length (snd (snd acc)) + length (removed (actions_of E t0 h item))"
proof -
  obtain f where f: "diff_file_path item = Inr f" using assms(3) by (cases "diff_file_path item") simp_all
  have acts: "actions_of E t0 h item = action_on E t0 h f item" by (simp add: actions_of_def f)
  show ?thesis
  proof (cases "should_index_file E h f")
    case False
    then show ?thesis
      by (intro that [of acc h "[]" 0])
        (use assms(4) in \<open>auto simp: diff_step_def f py_bind_def acts action_on.simps carried_out_def split: prod.split\<close>)
  next
    case True
    obtain go acc1 h1 u where change: "diff_change E f item acc (h, t) = (Inr (go, acc1), h1, t @ u)"
      "later h h1" "list_all (\<lambda>c. \<not> is_rag_write c) u"
      "performs (action_on E t0 h f item) acc acc1" "\<not> go \<longrightarrow> acc1 = acc"
      by (rule change_during [OF assms(1,2) True]) (use known [OF f] in blast)+
    note nu = no_index_no_batches [OF change(3)] no_write_no_update [OF change(3)]
    obtain c m d where acc: "acc = (c, m, d)" by (cases acc)
    obtain c1 m1 d1 where acc1: "acc1 = (c1, m1, d1)" by (cases acc1)
    have p: "map view c1 = map view c @ created (action_on E t0 h f item)"
      "map view m1 = map view m @ replaced (action_on E t0 h f item)"
      using change(4) by (simp_all add: performs_def acc acc1)
    have ids: "d1 = d @ removed (action_on E t0 h f item)" using change(4) by (simp add: performs_def acc acc1)
    have "length (created (action_on E t0 h f item)) \<le> 1 \<and> length (replaced (action_on E t0 h f item)) \<le> 1 \<and>
        length (removed (action_on E t0 h f item)) \<le> 1"
      by (rule one_action_size [OF one_action])
    with arg_cong [OF p(1), of length] arg_cong [OF p(2), of length] assms(4) ids
    have len: "length c1 \<le> 10" "length m1 \<le> 10" "length d1 \<le> 10" by (simp_all add: small_def acc)
    show ?thesis
    proof (cases go)
      case False
      then show ?thesis
        by (intro that [of acc1 h1 u 0])
          (use change(1,2,5) nu p ids assms(4) True f in \<open>simp_all add: diff_step_def py_bind_def carried_out_def acts acc acc1\<close>)
    next
      case go: True
      let ?acc' = "(if length c1 \<ge> 10 then [] else c1, if length m1 \<ge> 10 then [] else m1, if length d1 \<ge> 10 then [] else d1)"
      obtain h2 v where send: "send_full_batches E (c1, m1, d1) (h1, t @ u) = (Inr ?acc', h2, (t @ u) @ v)"
        "later_by (if length d1 \<ge> 10 then 1 else 0) h1 h2"
        "indexed_batches v = (if length c1 \<ge> 10 then [c1] else [])"
        "updated_batches v = (if length m1 \<ge> 10 then [m1] else [])" "deleted_ids v = []"
        by (rule send_full_batches_run)
      have run: "diff_step E item acc (h, t) = (Inr ?acc', h2, t @ u @ v)"
        using True go change(1) send(1) by (simp add: diff_step_def f py_bind_def acc acc1)
      have "carried_out (actions_of E t0 h item) acc ?acc' (u @ v)"
        using p len nu send(3-5) by (simp add: carried_out_def acts acc)
      then show ?thesis
        by (intro that [OF run, of "if length d1 \<ge> 10 then 1 else 0"])
          (use len(3) ids later_trans [OF change(2) send(2)] in \<open>auto simp: small_def acts acc\<close>)
    qed
  qed
qed

text \<open>The items after \<open>pre\<close>, when part of what \<open>pre\<close> calls for has been sent and the rest is pending.\<close>

lemma diff_loop_steady:
  assumes "still E t0" and "git_head E GitHeadCommit t0 = Inr cm" and "\<forall>i\<in>set items. \<not> isl (diff_file_path i)"
    and "small acc" and "steady E t0 h (pre @ items)"
    and "carried_out (concat (map (actions_of E t0 h) pre)) ([], [], []) acc u"
  shows "\<exists>n acc' h' v. py_for (diff_step E) items acc (h, t0 @ u) = (Inr acc', h', t0 @ u @ v) \<and> later_by n h h' \<and>
    carried_out (concat (map (actions_of E t0 h) items)) acc acc' v \<and> small acc' \<and>
    10 * n + length (snd (snd acc')) = length (snd (snd acc)) + length (removed (concat (map (actions_of E t0 h) items)))"
  using assms(3-6)
proof (induction items arbitrary: pre acc h u)
  case Nil
  then show ?case
    by (intro exI [of _ 0] exI [of _ acc] exI [of _ h] exI [of _ "[]"]) (auto simp: carried_out_def split: prod.split)
next
  case (Cons item items)
  have sent: "sent_part (concat (map (actions_of E t0 h) pre)) (u @ w)" if "list_all (\<lambda>c. \<not> is_rag_write c) w" for w
    using Cons.prems(4) no_index_no_batches [OF that] no_write_no_update [OF that]
    by (auto simp: sent_part_def carried_out_def split: prod.splits intro!: prefixI [OF sym])
  have known: "known E t0 h (t0 @ u) p" if "diff_file_path item = Inr f" "p \<in> set (looked_up f item)" for f p
    using Cons.prems(3) that sent unfolding known_def steady_def by (metis append.assoc)
  obtain n acc1 h1 v where one: "diff_step E item acc (h, t0 @ u) = (Inr acc1, h1, (t0 @ u) @ v)" "later_by n h h1"
    "carried_out (actions_of E t0 h item) acc acc1 v" "small acc1"
    "10 * n + length (snd (snd acc1)) = length (snd (snd acc)) + length (removed (actions_of E t0 h item))"
    by (rule diff_step_during [OF during_start [OF assms(1)] assms(2) _ Cons.prems(2), of item h u])
      (use Cons.prems(1) known in auto)
  have same: "git_fixed h1 = git_fixed h" using one(2) by (simp add: later_by_def)
  have paths: "\<forall>i\<in>set items. \<not> isl (diff_file_path i)" using Cons.prems(1) by simp
  have steady: "steady E t0 h1 ((pre @ [item]) @ items)"
    using Cons.prems(3) by (simp add: steady_def path_lookup_fixed [OF same] actions_of_fixed [OF same])
  have carried: "carried_out (concat (map (actions_of E t0 h1) (pre @ [item]))) ([], [], []) acc1 (u @ v)"
    using carried_out_trans [OF Cons.prems(4) one(3)] by (simp add: actions_of_fixed [OF same])
  from Cons.IH [OF paths one(4) steady carried] obtain m acc2 h2 w where rest:
    "py_for (diff_step E) items acc1 (h1, t0 @ u @ v) = (Inr acc2, h2, t0 @ u @ v @ w)" "later_by m h1 h2"
    "carried_out (concat (map (actions_of E t0 h) items)) acc1 acc2 w" "small acc2"
    "10 * m + length (snd (snd acc2)) = length (snd (snd acc1)) + length (removed (concat (map (actions_of E t0 h) items)))"
    unfolding actions_of_fixed [OF same] by auto
  have ids: "10 * (n + m) + length (snd (snd acc2)) =
      length (snd (snd acc)) + length (removed (concat (map (actions_of E t0 h) (item # items))))"
    using one(5) rest(5) by simp
  show ?case
    by (intro exI [of _ "n + m"] exI [of _ acc2] exI [of _ h2] exI [of _ "v @ w"])
      (use one(1) rest ids carried_out_trans [OF one(3) rest(3)] later_trans [OF one(2) rest(2)] in \<open>simp add: py_bind_def\<close>)
qed

text \<open>The whole operation, and its calls.\<close>

lemma index_diff_files_run:
  assumes "still E t" and "git_head E GitHeadCommit t = Inr cm"
    and "git_diff E (GitDiff (gh_last_indexed_commit h) cm) (t @ [GitHeadCommit]) = Inr items"
    and "\<forall>i\<in>set items. \<not> isl (diff_file_path i)" and "steady E t h items"
  obtains h' u where "index_diff_files E (h, t) = (Inr (), h', t @ u)"
    and "map view (concat (indexed_batches u)) = created (concat (map (actions_of E t h) items))"
    and "map view (concat (updated_batches u)) = replaced (concat (map (actions_of E t h) items))"
    and "list_all (\<lambda>b. b \<noteq> [] \<and> length b \<le> 10) (indexed_batches u @ updated_batches u)"
    and "deleted_ids u = []" and "deletion_errors (gh_errors h') =
      deletion_errors (gh_errors h) + (length (removed (concat (map (actions_of E t h) items))) + 9) div 10"
proof -
  let ?u1 = "[GitHeadCommit, GitDiff (gh_last_indexed_commit h) cm]"
  have start: "small ([], [], [])" by (simp add: small_def)
  have none: "carried_out (concat (map (actions_of E t h) [])) ([], [], []) ([], [], []) ?u1"
    by (simp add: carried_out_def)
  have steady: "steady E t h ([] @ items)" using assms(5) by simp
  let ?removed = "removed (concat (map (actions_of E t h) items))"
  obtain n c m d h1 v where loop: "py_for (diff_step E) items ([], [], []) (h, t @ ?u1) = (Inr (c, m, d), h1, t @ ?u1 @ v)"
    "carried_out (concat (map (actions_of E t h) items)) ([], [], []) (c, m, d) v" "small (c, m, d)"
    "10 * n + length d = length ?removed" "later_by n h h1"
    using diff_loop_steady [OF assms(1,2,4) start steady none] by fastforce
  obtain h2 w where rest: "send_rest E (c, m, d) (h1, t @ ?u1 @ v) = (Inr (), h2, (t @ ?u1 @ v) @ w)"
    "later_by (if d \<noteq> [] then 1 else 0) h1 h2"
    "indexed_batches w = (if c = [] then [] else [c])" "updated_batches w = (if m = [] then [] else [m])" "deleted_ids w = []"
    by (rule send_rest_run)
  have run: "index_diff_files E (h, t) = (Inr (), h2, t @ ?u1 @ v @ w)"
    using assms(2,3) loop(1) rest(1)
    by (simp add: index_diff_files_def git_head_commit_def git_diff_since_def py_bind_def py_try_def)
  have full: "list_all (\<lambda>b. b \<noteq> [] \<and> length b \<le> 10) bs" if "list_all (\<lambda>b. length b = 10) bs" for bs :: "document list list"
    using that by (auto simp: list_all_iff)
  have size: "length d < 10" using loop(3) by (simp add: small_def)
  have "n + (if d \<noteq> [] then 1 else 0) = (length ?removed + 9) div 10"
  proof (cases "d = []")
    case False
    then have "length ?removed + 9 = 10 * Suc n + (length d - 1)" "length d - 1 < 10"
      using loop(4) size by (cases d; simp)+
    then show ?thesis using False by (simp only: if_True) (simp add: div_mult_self4)
  qed (use loop(4) in simp)
  then have errors: "deletion_errors (gh_errors h2) = deletion_errors (gh_errors h) + (length ?removed + 9) div 10"
    using later_trans [OF loop(5) rest(2)] by (simp add: later_by_def)
  show ?thesis
    by (rule that [OF run _ _ _ _ errors])
      (use loop(2,3) rest(3-5) full in \<open>auto simp: carried_out_def small_def\<close>)
qed

lemma steady_constant:
  assumes "\<And>c t. rag_list E c t = rag_list E c t0"
  shows "steady E t0 h items"
  unfolding steady_def using assms by blast

subsection \<open>Properties\<close>

text \<open>C6: Incremental indexing carries out the diff. While the repository stays the same and what is sent for an
  item does not change what the engine has for the paths of the items after it, each item of the diff stands for at
  most one action, chosen by what the engine has at the start: to create a document for a file that is
  added or that the engine does not know, to replace the document the engine has, or to remove it. The documents sent
  for indexing are exactly those to be created and the documents sent for updates exactly those to be
  replaced, each in order, with its identifier and with the text of the file, in batches of one to ten. Nothing is removed: of
  the documents to be removed, each ten, and the rest of fewer than ten, give one error for deletions, and nothing else
  gives such an error.\<close>

theorem git_incremental_refines:
  assumes "still E t" and "git_head E GitHeadCommit t = Inr cm"
    and "git_diff E (GitDiff (gh_last_indexed_commit h) cm) (t @ [GitHeadCommit]) = Inr items"
    and "\<forall>i\<in>set items. \<not> isl (diff_file_path i)" and "steady E t h items"
  shows "\<exists>h' u. index_diff_files E (h, t) = (Inr (), h', t @ u) \<and>
    map view (concat (indexed_batches u)) = created (concat (map (actions_of E t h) items)) \<and>
    map view (concat (updated_batches u)) = replaced (concat (map (actions_of E t h) items)) \<and>
    list_all (\<lambda>b. b \<noteq> [] \<and> length b \<le> 10) (indexed_batches u @ updated_batches u) \<and>
    deleted_ids u = [] \<and>
    deletion_errors (gh_errors h') =
      deletion_errors (gh_errors h) + (length (removed (concat (map (actions_of E t h) items))) + 9) div 10"
  by (rule index_diff_files_run [OF assms]) blast

definition sample_diff :: "diff_item list" where
  "sample_diff =
     [\<lparr>di_a_path = None, di_b_path = Some ''new.md'', di_change_type = Some ''A''\<rparr>,
      \<lparr>di_a_path = Some ''README.md'', di_b_path = Some ''README.md'', di_change_type = Some ''M''\<rparr>,
      \<lparr>di_a_path = Some ''old.md'', di_b_path = None, di_change_type = Some ''D''\<rparr>,
      \<lparr>di_a_path = Some ''a.so'', di_b_path = Some ''b.so'', di_change_type = Some ''R''\<rparr>]"

definition diff_world :: env where
  "diff_world = git_world
     \<lparr>git_diff := \<lambda>c t. Inr sample_diff,
      rag_list := \<lambda>c t. Inr (Some \<lparr>ld_documents = (case c of
          RagList u i flt l k \<Rightarrow>
            if flt = json_dumps (JDict [(''file_path'', JStr ''new.md'')]) then []
            else [\<lparr>doc_text = ''old'', doc_metadata = [], doc_id = Some ''doc-1''\<rparr>] | _ \<Rightarrow> []), ld_total_items = 1\<rparr>)\<rparr>"

lemma sample_actions: "concat (map (actions_of diff_world [] sample_git) sample_diff) =
    [Create ''new.md'' ''hello'', Replace (Some ''doc-1'') ''README.md'' ''hello'', Remove (Some ''doc-1'')]"
  by code_simp

theorem git_incremental_refines_witness:
  "\<exists>h' u. index_diff_files diff_world (sample_git, []) = (Inr (), h', u) \<and>
    map view (concat (indexed_batches u)) = [(None, Some (JStr ''new.md''), ''hello'')] \<and>
    map view (concat (updated_batches u)) = [(Some ''doc-1'', Some (JStr ''README.md''), ''hello'')] \<and>
    deleted_ids u = [] \<and> deletion_errors (gh_errors h') = 1"
proof -
  have none: "gh_errors sample_git = []" by (simp add: sample_git_def)
  have still: "still diff_world []" by (simp add: still_def diff_world_def git_world_def sample_world_def)
  have steady: "steady diff_world [] sample_git sample_diff"
    by (rule steady_constant) (simp add: diff_world_def)
  have head: "git_head diff_world GitHeadCommit [] = Inr ''c0ffee''"
    by (simp add: diff_world_def git_world_def sample_world_def)
  have diff: "git_diff diff_world (GitDiff (gh_last_indexed_commit sample_git) ''c0ffee'') ([] @ [GitHeadCommit]) = Inr sample_diff"
    by (simp add: diff_world_def)
  have paths: "\<forall>i\<in>set sample_diff. \<not> isl (diff_file_path i)"
    by (simp add: sample_diff_def diff_file_path_def)
  show ?thesis
    using git_incremental_refines [OF still head diff paths steady]
    by (elim exE conjE) (intro exI conjI; simp add: sample_actions none)
qed

end
