(* ===== verification/JsonText.thy ===== *)
theory JsonText
  imports RagClient
begin

section \<open>The filter of a listing\<close>

text \<open>
  \<open>list_documents\<close> of \<open>rag_client.py\<close> sends its filter as the text \<open>json.dumps\<close> gives. This theory has a
  reader for that text, as the engine has one, and shows that the reader gets back what
  the caller asked for: the keys and values of Unicode text survive the escapes of JSON, surrogate pairs included.
\<close>

subsection \<open>A reader\<close>

definition hex_value :: "char \<Rightarrow> nat" where
  "hex_value c = (if 97 \<le> code c then code c - 87 else if 65 \<le> code c then code c - 55 else code c - 48)"

text \<open>The character after a backslash.\<close>

definition unescape :: "char \<Rightarrow> nat" where
  "unescape e =
     (if e = CHR ''n'' then 10 else if e = CHR ''r'' then 13 else if e = CHR ''t'' then 9
      else if e = CHR ''f'' then 12 else if e = CHR ''b'' then 8 else code e)"

text \<open>The UTF-16 units of a string literal after its opening quote, and what follows the closing one.\<close>

fun json_units :: "string \<Rightarrow> (nat list \<times> string) option" where
  "json_units [] = None"
| "json_units (c # s) =
     (if c = dquote then Some ([], s)
      else if code c = 92
      then (case s of
          [] \<Rightarrow> None
        | e # r \<Rightarrow>
            if e = CHR ''u''
            then (case r of
                h1 # h2 # h3 # h4 # r' \<Rightarrow>
                  map_option (apfst ((#) (hex_value h1 * 4096 + hex_value h2 * 256 + hex_value h3 * 16 + hex_value h4)))
                    (json_units r')
              | _ \<Rightarrow> None)
            else map_option (apfst ((#) (unescape e))) (json_units r))
      else map_option (apfst ((#) (code c))) (json_units s))"

text \<open>Surrogate pairs are joined, and each code point is encoded.\<close>

fun join_units :: "nat list \<Rightarrow> nat list" where
  "join_units (u # v # us) =
     (if 55296 \<le> u \<and> u < 56320 \<and> 56320 \<le> v \<and> v < 57344
      then (65536 + (u - 55296) * 1024 + (v - 56320)) # join_units us
      else u # join_units (v # us))"
| "join_units us = us"

definition utf8_char :: "nat \<Rightarrow> bytes" where
  "utf8_char n =
     (if n < 65536 then utf8_encode n
      else [char_of (240 + n div 262144), char_of (128 + (n div 4096) mod 64), char_of (128 + (n div 64) mod 64),
            char_of (128 + n mod 64)])"

definition read_string :: "string \<Rightarrow> (string \<times> string) option" where
  "read_string s = (case s of
      q # r \<Rightarrow> if q = dquote then map_option (apfst (\<lambda>us. concat (map utf8_char (join_units us)))) (json_units r) else None
    | [] \<Rightarrow> None)"

text \<open>An object with one key and a string as its value.\<close>

definition read_filter :: "string \<Rightarrow> (string \<times> string) option" where
  "read_filter s =
     (if prefix ''{'' s
      then (case read_string (drop 1 s) of
          None \<Rightarrow> None
        | Some (k, r) \<Rightarrow>
            if prefix '': '' r
            then (case read_string (drop 2 r) of None \<Rightarrow> None | Some (v, r') \<Rightarrow> if r' = ''}'' then Some (k, v) else None)
            else None)
      else None)"

subsection \<open>Reading what has been written\<close>

lemma hex_value_digit [simp]: "d < 16 \<Longrightarrow> hex_value (hex_digit d) = d"
  by (simp add: hex_value_def hex_digit_def)

lemma hex_digits: "n < 65536 \<Longrightarrow>
    n div 4096 * 4096 + n div 256 mod 16 * 256 + n div 16 mod 16 * 16 + n mod 16 = (n::nat)"
proof -
  have "n div 256 = n div 4096 * 16 + n div 256 mod 16" using div_mult_mod_eq [of "n div 256" 16]
    by (simp add: div_mult2_eq [symmetric])
  moreover have "n div 16 = n div 256 * 16 + n div 16 mod 16" using div_mult_mod_eq [of "n div 16" 16]
    by (simp add: div_mult2_eq [symmetric])
  moreover have "n = n div 16 * 16 + n mod 16" by simp
  ultimately show ?thesis by linarith
qed

lemma backslash [simp]: "char_of (92::nat) \<noteq> dquote"
  by code_simp

lemma quote_code: "code dquote = 34"
  by code_simp

lemma json_units_escape:
  assumes "n < 65536"
  shows "json_units (u_escape n @ s) = map_option (apfst ((#) n)) (json_units s)"
proof -
  have "n div 4096 < 16" using assms by auto
  then show ?thesis using hex_digits [OF assms] by (simp add: u_escape_def)
qed

lemma escapes:
  assumes "p \<in> {34, 92, 10, 13, 9, 12, 8}"
  obtains e where "json_point p = [char_of (92::nat), e]" and "e \<noteq> CHR ''u''" and "unescape e = p"
proof -
  have "list_all (\<lambda>p. list_ex (\<lambda>e. json_point p = [char_of (92::nat), e] \<and> e \<noteq> CHR ''u'' \<and> unescape e = p)
      [CHR 0x22, CHR 0x5C, CHR ''n'', CHR ''r'', CHR ''t'', CHR ''f'', CHR ''b'']) [34, 92, 10, 13, 9, 12, 8]"
    by code_simp
  with assms have "list_ex (\<lambda>e. json_point p = [char_of (92::nat), e] \<and> e \<noteq> CHR ''u'' \<and> unescape e = p)
      [CHR 0x22, CHR 0x5C, CHR ''n'', CHR ''r'', CHR ''t'', CHR ''f'', CHR ''b'']"
    unfolding list_all_iff by (elim bspec) simp
  then show ?thesis unfolding list_ex_iff by (elim bexE conjE) (rule that)
qed

definition point_units :: "nat \<Rightarrow> nat list" where
  "point_units p = (if p < 65536 then [p] else [55296 + (p - 65536) div 1024, 56320 + (p - 65536) mod 1024])"

lemma json_units_point:
  assumes "p < 1114112"
  shows "json_units (json_point p @ s) = map_option (apfst ((@) (point_units p))) (json_units s)"
proof -
  have comp: "map_option (apfst ((#) a)) (map_option (apfst ((#) b)) x) = map_option (apfst ((@) [a, b])) x" for a b :: nat and x :: "(nat list \<times> string) option"
    by (cases x) auto
  have single: "(@) [p] = (#) p" by (simp add: fun_eq_iff)
  consider "p \<in> {34, 92, 10, 13, 9, 12, 8}" | "32 \<le> p" "p < 127" "p \<notin> {34, 92}"
    | "p < 65536" "\<not> (32 \<le> p \<and> p < 127)" "p \<notin> {10, 13, 9, 12, 8}" | "65536 \<le> p" by fastforce
  then show ?thesis
  proof cases
    case 1
    then obtain e where e: "json_point p = [char_of (92::nat), e]" "e \<noteq> CHR ''u''" "unescape e = p"
      by (rule escapes)
    have "p < 65536" using 1 by auto
    have "json_units (char_of (92::nat) # e # s) = map_option (apfst ((#) (unescape e))) (json_units s)"
      using e(2) by simp
    with e \<open>p < 65536\<close> show ?thesis by (simp add: point_units_def single del: json_units.simps)
  next
    case 2
    have "code (char_of p) = p" using 2 by simp
    then have "char_of p \<noteq> dquote" using 2(3) quote_code by (metis insertI1)
    with 2 show ?thesis by (simp add: json_point_def point_units_def single)
  next
    case 3
    then show ?thesis by (auto simp: json_point_def point_units_def single json_units_escape)
  next
    case 4
    have "(p - 65536) div 1024 < 1024" using assms by auto
    then have "55296 + (p - 65536) div 1024 < 65536" "56320 + (p - 65536) mod 1024 < 65536" by simp_all
    with 4 show ?thesis
      by (simp add: json_point_def point_units_def json_units_escape comp del: One_nat_def)
  qed
qed


lemma json_units_points:
  "\<forall>p\<in>set ps. p < 1114112 \<Longrightarrow>
    json_units (concat (map json_point ps) @ dquote # s) = Some (concat (map point_units ps), s)"
proof (induction ps)
  case (Cons p ps)
  then show ?case using json_units_point [of p "concat (map json_point ps) @ dquote # s"] by simp
qed simp

lemma join_point_units:
  "\<forall>p\<in>set ps. p < 1114112 \<and> \<not> (55296 \<le> p \<and> p < 57344) \<Longrightarrow> join_units (concat (map point_units ps)) = ps"
proof (induction ps)
  case (Cons p ps)
  show ?case
  proof (cases "p < 65536")
    case True
    have "\<not> (55296 \<le> p \<and> p < 56320)" using Cons.prems by auto
    then have "join_units (p # us) = p # join_units us" for us by (cases us) auto
    then show ?thesis using Cons True by (simp add: point_units_def)
  next
    case False
    have "(p - 65536) div 1024 < 1024" using Cons.prems by auto
    moreover have "(p - 65536) div 1024 * 1024 + (p - 65536) mod 1024 = p - 65536" by simp
    ultimately show ?thesis using Cons False by (simp add: point_units_def)
  qed
qed simp

lemma digits64:
  fixes x y z w :: nat
  assumes "y < 64" and "z < 64" and "w < 64"
  shows "(x * 64 + y) div 64 = x" "(x * 64 + y) mod 64 = y"
    "(x * 4096 + y * 64 + z) div 4096 = x" "(x * 4096 + y * 64 + z) div 64 mod 64 = y" "(x * 4096 + y * 64 + z) mod 64 = z"
    "(x * 262144 + y * 4096 + z * 64 + w) div 262144 = x" "(x * 262144 + y * 4096 + z * 64 + w) div 4096 mod 64 = y"
    "(x * 262144 + y * 4096 + z * 64 + w) div 64 mod 64 = z" "(x * 262144 + y * 4096 + z * 64 + w) mod 64 = w"
proof -
  have two: "y < 64 \<Longrightarrow> (x * 64 + y) div 64 = x" "y < 64 \<Longrightarrow> (x * 64 + y) mod 64 = y" for x y :: nat
    by simp_all
  show "(x * 64 + y) div 64 = x" "(x * 64 + y) mod 64 = y" using assms(1) by simp_all
  have three: "x * 4096 + y * 64 + z = (x * 64 + y) * 64 + z" for x y z :: nat by simp
  have four: "x * 262144 + y * 4096 + z * 64 + w = ((x * 64 + y) * 64 + z) * 64 + w" by simp
  have div: "n div 4096 = n div 64 div 64" "n div 262144 = n div 64 div 64 div 64" for n :: nat
    by (simp_all add: div_mult2_eq [symmetric])
  show "(x * 4096 + y * 64 + z) div 4096 = x" "(x * 4096 + y * 64 + z) div 64 mod 64 = y" "(x * 4096 + y * 64 + z) mod 64 = z"
    unfolding three div two [OF assms(2)] two [OF assms(1)] by simp_all
  show "(x * 262144 + y * 4096 + z * 64 + w) div 262144 = x" "(x * 262144 + y * 4096 + z * 64 + w) div 4096 mod 64 = y"
    "(x * 262144 + y * 4096 + z * 64 + w) div 64 mod 64 = z" "(x * 262144 + y * 4096 + z * 64 + w) mod 64 = w"
    unfolding four div two [OF assms(3)] two [OF assms(2)] two [OF assms(1)] by simp_all
qed

lemma cont_digit: "cont c \<Longrightarrow> \<exists>y<64. code c = 128 + y \<and> c = char_of (128 + y)"
  by (rule exI [of _ "code c - 128"]) auto

text \<open>The first code point of a well-formed encoding, and the bytes it takes.\<close>

lemma utf8_first:
  assumes "utf8_valid (a # s)"
  obtains p pre r where "a # s = pre @ r" and "pre \<noteq> []" and "utf8_points (a # s) = p # utf8_points r"
    and "utf8_char p = pre" and "p < 1114112" and "\<not> (55296 \<le> p \<and> p < 57344)" and "utf8_valid r"
proof -
  consider (one) "code a < 128" "utf8_valid s"
    | (two) b r where "s = b # r" "194 \<le> code a" "code a \<le> 223" "cont b" "utf8_valid r"
    | (three) b c r where "s = b # c # r" "224 \<le> code a" "code a \<le> 239" "cont b" "cont c"
        "code a = 224 \<longrightarrow> 160 \<le> code b" "code a = 237 \<longrightarrow> code b \<le> 159" "utf8_valid r"
    | (four) b c d r where "s = b # c # d # r" "240 \<le> code a" "code a \<le> 244" "cont b" "cont c" "cont d"
        "code a = 240 \<longrightarrow> 144 \<le> code b" "code a = 244 \<longrightarrow> code b \<le> 143" "utf8_valid r"
    using assms by (auto split: if_splits list.splits)
  then show ?thesis
  proof cases
    case one
    then show ?thesis by (intro that [of "[a]" s "code a"]) (simp_all add: utf8_char_def utf8_encode_def)
  next
    case two
    obtain y where y: "y < 64" "code b = 128 + y" "b = char_of (128 + y)" using cont_digit [OF two(4)] by blast
    define x where "x = code a - 192"
    have x: "code a = 192 + x" "a = char_of (192 + x)" "2 \<le> x" "x < 32" using two(2,3) by (auto simp: x_def)
    show ?thesis
      by (rule that [of "[a, b]" r "x * 64 + y"])
        (use two x y in \<open>simp_all add: utf8_char_def utf8_encode_def digits64\<close>)
  next
    case three
    obtain y where y: "y < 64" "code b = 128 + y" "b = char_of (128 + y)" using cont_digit [OF three(4)] by blast
    obtain z where z: "z < 64" "code c = 128 + z" "c = char_of (128 + z)" using cont_digit [OF three(5)] by blast
    define x where "x = code a - 224"
    have x: "code a = 224 + x" "a = char_of (224 + x)" "x < 16" using three(2,3) by (auto simp: x_def)
    have low: "x = 0 \<longrightarrow> 32 \<le> y" "x = 13 \<longrightarrow> y < 32" using three(6,7) x y by auto
    have "2048 \<le> x * 4096 + y * 64 + z" using low(1) by (cases "x = 0") auto
    moreover have "\<not> (55296 \<le> x * 4096 + y * 64 + z \<and> x * 4096 + y * 64 + z < 57344)"
      using low(2) y(1) z(1) x(3) by (cases "x = 13"; cases "x < 13") auto
    ultimately show ?thesis
      by (intro that [of "[a, b, c]" r "x * 4096 + y * 64 + z"])
        (use three x y z in \<open>simp_all add: utf8_char_def utf8_encode_def digits64\<close>)
  next
    case four
    obtain y where y: "y < 64" "code b = 128 + y" "b = char_of (128 + y)" using cont_digit [OF four(4)] by blast
    obtain z where z: "z < 64" "code c = 128 + z" "c = char_of (128 + z)" using cont_digit [OF four(5)] by blast
    obtain w where w: "w < 64" "code d = 128 + w" "d = char_of (128 + w)" using cont_digit [OF four(6)] by blast
    define x where "x = code a - 240"
    have x: "code a = 240 + x" "a = char_of (240 + x)" "x < 5" using four(2,3) by (auto simp: x_def)
    have low: "x = 0 \<longrightarrow> 16 \<le> y" "x = 4 \<longrightarrow> y < 16" using four(7,8) x y by auto
    have "65536 \<le> x * 262144 + y * 4096 + z * 64 + w" using low(1) by (cases "x = 0") auto
    moreover have "x * 262144 + y * 4096 + z * 64 + w < 1114112"
      using low(2) y(1) z(1) w(1) x(3) by (cases "x = 4") auto
    ultimately show ?thesis
      by (intro that [of "[a, b, c, d]" r "x * 262144 + y * 4096 + z * 64 + w"])
        (use four x y z w in \<open>simp_all add: utf8_char_def utf8_encode_def digits64\<close>)
  qed
qed

lemma utf8_points_valid:
  "utf8_valid s \<Longrightarrow> (\<forall>p\<in>set (utf8_points s). p < 1114112 \<and> \<not> (55296 \<le> p \<and> p < 57344)) \<and>
    concat (map utf8_char (utf8_points s)) = s"
proof (induction s rule: length_induct)
  case (1 s)
  show ?case
  proof (cases s)
    case (Cons a s')
    obtain p pre r where first: "a # s' = pre @ r" "pre \<noteq> []" "utf8_points (a # s') = p # utf8_points r"
      "utf8_char p = pre" "p < 1114112" "\<not> (55296 \<le> p \<and> p < 57344)" "utf8_valid r"
      using 1(2) unfolding Cons by (rule utf8_first)
    have "length r < length s" using first(1,2) unfolding Cons by (cases pre) auto
    with 1(1) first(7) have "(\<forall>p\<in>set (utf8_points r). p < 1114112 \<and> \<not> (55296 \<le> p \<and> p < 57344)) \<and>
        concat (map utf8_char (utf8_points r)) = r" by blast
    then show ?thesis unfolding Cons first(3) using first(1,4-6) by simp
  qed simp
qed

lemma read_string_json: "utf8_valid s \<Longrightarrow> read_string (json_string s @ r) = Some (s, r)"
  using utf8_points_valid [of s] json_units_points [of "utf8_points s" r] join_point_units [of "utf8_points s"]
  by (simp add: read_string_def json_string_def)

lemma read_filter_json:
  "utf8_valid k \<Longrightarrow> utf8_valid v \<Longrightarrow> read_filter (json_dumps (JDict [(k, JStr v)])) = Some (k, v)"
  by (simp add: read_filter_def read_string_json)

subsection \<open>Properties\<close>

text \<open>C27: The filter of a listing. A listing makes one call; the text of its filter is read back as the key and the
  value the caller gave, whatever characters they have, so that two different files or AutoIndexers are never
  looked up by the same text.\<close>

theorem listing_filter_roundtrip:
  assumes "utf8_valid k" and "utf8_valid v"
  shows "\<exists>flt. new_calls (list_documents E c i (JDict [(k, JStr v)]) limit offset) (s, t) =
      [RagList (rc_base_url c) i flt limit offset] \<and> read_filter flt = Some (k, v)"
  using read_filter_json [OF assms]
  by (cases "rag_list E (RagList (rc_base_url c) i (json_dumps (JDict [(k, JStr v)])) limit offset) t")
    (simp_all add: list_documents_def new_calls_def)

theorem listing_filter_roundtrip_witness:
  "\<exists>flt. new_calls (list_documents (sample_world JNull) (new_rag_client ''http://rag'') (JStr ''docs'')
      (JDict [(''file_path'', JStr [CHR 0xC3, CHR 0xA9, dquote, CHR 0x0A])]) 1 0) ((), []) =
      [RagList ''http://rag'' (JStr ''docs'') flt 1 0] \<and>
    read_filter flt = Some (''file_path'', [CHR 0xC3, CHR 0xA9, dquote, CHR 0x0A])"
proof -
  have v: "utf8_valid ''file_path''" "utf8_valid [CHR 0xC3, CHR 0xA9, dquote, CHR 0x0A]" by code_simp+
  show ?thesis
    using listing_filter_roundtrip [OF v, of "sample_world JNull" "new_rag_client ''http://rag''" "JStr ''docs''" 1 0 "()" "[]"]
    by (simp add: new_rag_client_def)
qed

end
