(* ===== verification/GitMirror.thy ===== *)
theory GitMirror
  imports GitIncremental JsonText
begin

section \<open>The index as a mirror of the repository\<close>

text \<open>
  The git handler together with an engine that keeps what it is sent. The engine is not under \<open>src/\<close>: its contract is
  what its interface documents, that a document sent for indexing is stored under an identifier of its own, that an
  update replaces the document with the identifier, and that a listing with a filter finds what is stored. The abstract
  state is the text the index has for each path.
\<close>

subsection \<open>The engine\<close>

record engine =
  eg_next :: nat
  eg_docs :: "document list"

definition has_path :: "string \<Rightarrow> document \<Rightarrow> bool" where
  "has_path p d \<longleftrightarrow> doc_path d = Some (JStr p)"

fun number :: "(nat \<Rightarrow> string) \<Rightarrow> nat \<Rightarrow> document list \<Rightarrow> document list" where
  "number name n [] = []"
| "number name n (d # ds) = d\<lparr>doc_id := Some (name n)\<rparr> # number name (Suc n) ds"

definition replace_doc :: "document \<Rightarrow> document list \<Rightarrow> document list" where
  "replace_doc d ds = map (\<lambda>e. if doc_id e = doc_id d then d else e) ds"

text \<open>What a call does to the index of a handler. Nothing in the program loads or deletes an index.\<close>

fun engine_step :: "(nat \<Rightarrow> string) \<Rightarrow> git_handler \<Rightarrow> call \<Rightarrow> engine \<Rightarrow> engine" where
  "engine_step name h (RagIndex u i ds) g =
     (if u = rc_base_url (gh_rag_client h) \<and> i = gh_index_name h
      then \<lparr>eg_next = eg_next g + length ds, eg_docs = eg_docs g @ number name (eg_next g) ds\<rparr> else g)"
| "engine_step name h (RagUpdate u i ds) g =
     (if u = rc_base_url (gh_rag_client h) \<and> i = gh_index_name h
      then g\<lparr>eg_docs := fold replace_doc ds (eg_docs g)\<rparr> else g)"
| "engine_step name h (RagDelete u i ids) g =
     (if u = rc_base_url (gh_rag_client h) \<and> i = gh_index_name h
      then g\<lparr>eg_docs := filter (\<lambda>d. doc_id d \<notin> Some ` set ids) (eg_docs g)\<rparr> else g)"
| "engine_step name h _ g = g"

definition engine_after :: "(nat \<Rightarrow> string) \<Rightarrow> git_handler \<Rightarrow> engine \<Rightarrow> trace \<Rightarrow> engine" where
  "engine_after name h g t = fold (engine_step name h) t g"

lemma engine_after_simps [simp]:
  "engine_after name h g [] = g"
  "engine_after name h g (t @ u) = engine_after name h (engine_after name h g t) u"
  "engine_after name h g (c # u) = engine_after name h (engine_step name h c g) u"
  by (simp_all add: engine_after_def)

definition listing_of :: "string \<Rightarrow> engine \<Rightarrow> doc_listing" where
  "listing_of p g =
     (let found = filter (has_path p) (eg_docs g)
      in \<lparr>ld_documents = take 1 found, ld_total_items = int (length found)\<rparr>)"

text \<open>The contract: no write is refused, identifiers are given once, and a listing by path (of a well-formed string)
  answers from what is stored.\<close>

definition serves :: "(nat \<Rightarrow> string) \<Rightarrow> env \<Rightarrow> engine \<Rightarrow> git_handler \<Rightarrow> bool" where
  "serves name E g h \<longleftrightarrow> inj name \<and> (\<forall>c t. rag_write E c t = Inr ()) \<and>
     (\<forall>p t. utf8_valid p \<longrightarrow> rag_list E (path_lookup h p) t = Inr (Some (listing_of p (engine_after name h g t))))"

text \<open>An index in order: every document has an identifier that has been given out, no two the same, and no two
  documents have one path.\<close>

definition tidy :: "(nat \<Rightarrow> string) \<Rightarrow> engine \<Rightarrow> bool" where
  "tidy name g \<longleftrightarrow> (\<forall>d\<in>set (eg_docs g). \<exists>k<eg_next g. doc_id d = Some (name k)) \<and>
     distinct (map doc_id (eg_docs g)) \<and> (\<forall>p. length (filter (has_path p) (eg_docs g)) \<le> 1)"

definition contents :: "engine \<Rightarrow> string \<Rightarrow> string option" where
  "contents g p = map_option doc_text (find (has_path p) (eg_docs g))"

subsection \<open>Calls and their order\<close>

text \<open>Batches of new documents and of updates commute, as updates name old identifiers.\<close>

definition own_call :: "git_handler \<Rightarrow> call \<Rightarrow> bool" where
  "own_call h c \<longleftrightarrow> (case c of
     RagIndex u i ds \<Rightarrow> u = rc_base_url (gh_rag_client h) \<and> i = gh_index_name h
   | RagUpdate u i ds \<Rightarrow> u = rc_base_url (gh_rag_client h) \<and> i = gh_index_name h
   | RagDelete u i ids \<Rightarrow> False
   | _ \<Rightarrow> True)"

lemma has_path_id [simp]: "has_path p (d\<lparr>doc_id := i\<rparr>) = has_path p d"
  by (simp add: has_path_def doc_path_def)

lemma number_append: "number name n (ds @ es) = number name n ds @ number name (n + length ds) es"
  by (induction ds arbitrary: n) simp_all

lemma number_ids: "d \<in> set (number name n ds) \<Longrightarrow> \<exists>k\<ge>n. k < n + length ds \<and> doc_id d = Some (name k)"
proof (induction ds arbitrary: n)
  case (Cons e ds)
  show ?case
  proof (cases "d = e\<lparr>doc_id := Some (name n)\<rparr>")
    case False
    with Cons.prems have "d \<in> set (number name (Suc n) ds)" by simp
    from Cons.IH [OF this] show ?thesis by (metis Suc_leD add_Suc_right add_Suc length_Cons)
  qed auto
qed simp

lemma replace_doc_append [simp]: "fold replace_doc us (ds @ es) = fold replace_doc us ds @ fold replace_doc us es"
  by (induction us arbitrary: ds es) (simp_all add: replace_doc_def)

lemma replace_doc_other: "doc_id ` set es \<inter> doc_id ` set us = {} \<Longrightarrow> fold replace_doc us es = es"
proof (induction us)
  case (Cons d us)
  have "doc_id e \<noteq> doc_id d" if "e \<in> set es" for e
    using Cons.prems imageI [OF that, of doc_id] by auto
  then have "replace_doc d es = es" by (auto simp: replace_doc_def intro!: map_idI)
  with Cons show ?case by simp
qed simp

lemma engine_after_batches:
  assumes "inj name" and "list_all (own_call h) u" and "m \<le> eg_next g"
    and "\<forall>d\<in>set (concat (updated_batches u)). \<exists>k<m. doc_id d = Some (name k)"
  shows "engine_after name h g u =
    \<lparr>eg_next = eg_next g + length (concat (indexed_batches u)),
     eg_docs = fold replace_doc (concat (updated_batches u)) (eg_docs g) @
       number name (eg_next g) (concat (indexed_batches u))\<rparr>"
  using assms(2-4)
proof (induction u arbitrary: g)
  case (Cons c u)
  show ?case
  proof (cases c)
    case (RagIndex a i ds)
    let ?new = "number name (eg_next g) ds" and ?us = "concat (updated_batches u)"
    let ?g = "\<lparr>eg_next = eg_next g + length ds, eg_docs = eg_docs g @ ?new\<rparr>"
    have step: "engine_step name h c g = ?g" using Cons.prems(1) by (simp add: RagIndex own_call_def)
    have "doc_id ` set ?new \<inter> doc_id ` set ?us = {}"
    proof (rule ccontr)
      assume "doc_id ` set ?new \<inter> doc_id ` set ?us \<noteq> {}"
      then obtain d e where "d \<in> set ?new" "e \<in> set ?us" "doc_id d = doc_id e" by auto
      moreover from Cons.prems(3) \<open>e \<in> set ?us\<close> obtain k where "k < m" "doc_id e = Some (name k)"
        by (auto simp: RagIndex)
      moreover from number_ids [OF \<open>d \<in> set ?new\<close>] obtain l where "eg_next g \<le> l" "doc_id d = Some (name l)" by blast
      ultimately show False using Cons.prems(2) injD [OF assms(1), of k l] by simp
    qed
    then have "fold replace_doc ?us ?new = ?new" by (rule replace_doc_other)
    moreover have "engine_after name h ?g u =
      \<lparr>eg_next = eg_next ?g + length (concat (indexed_batches u)),
       eg_docs = fold replace_doc ?us (eg_docs ?g) @ number name (eg_next ?g) (concat (indexed_batches u))\<rparr>"
      by (rule Cons.IH) (use Cons.prems in \<open>auto simp: RagIndex\<close>)
    ultimately show ?thesis using step by (simp add: RagIndex number_append del: engine_step.simps)
  next
    case (RagUpdate a i ds)
    let ?g = "g\<lparr>eg_docs := fold replace_doc ds (eg_docs g)\<rparr>"
    have step: "engine_step name h c g = ?g" using Cons.prems(1) by (simp add: RagUpdate own_call_def)
    have "engine_after name h ?g u =
      \<lparr>eg_next = eg_next ?g + length (concat (indexed_batches u)),
       eg_docs = fold replace_doc (concat (updated_batches u)) (eg_docs ?g) @
         number name (eg_next ?g) (concat (indexed_batches u))\<rparr>"
      by (rule Cons.IH) (use Cons.prems in \<open>auto simp: RagUpdate\<close>)
    then show ?thesis using step by (simp add: RagUpdate del: engine_step.simps)
  qed (use Cons in \<open>simp_all add: own_call_def\<close>)
qed simp

text \<open>What is sent for other paths leaves the documents of a path as they are.\<close>

lemma replace_doc_untouched:
  assumes "\<forall>d\<in>set us. \<not> has_path p d \<and> (\<forall>e\<in>set ds. has_path p e \<longrightarrow> doc_id e \<noteq> doc_id d)"
  shows "filter (has_path p) (fold replace_doc us ds) = filter (has_path p) ds"
  using assms
proof (induction us arbitrary: ds)
  case (Cons d us)
  have one: "filter (has_path p) (replace_doc d ds) = filter (has_path p) ds"
    using Cons.prems by (induction ds) (auto simp: replace_doc_def)
  have "e \<in> set ds" if "e \<in> set (replace_doc d ds)" "has_path p e" for e
  proof -
    have "e \<in> set (filter (has_path p) (replace_doc d ds))" using that by simp
    then show ?thesis unfolding one by simp
  qed
  then have "\<forall>d'\<in>set us. \<not> has_path p d' \<and> (\<forall>e\<in>set (replace_doc d ds). has_path p e \<longrightarrow> doc_id e \<noteq> doc_id d')"
    using Cons.prems by auto
  from Cons.IH [OF this] one show ?case by simp
qed simp

lemma number_untouched: "\<forall>d\<in>set ds. \<not> has_path p d \<Longrightarrow> filter (has_path p) (number name n ds) = []"
  by (induction ds arbitrary: n) simp_all

lemma engine_untouched:
  assumes "\<forall>d\<in>set (concat (indexed_batches u)). \<not> has_path p d"
    and "\<forall>d\<in>set (concat (updated_batches u)). \<not> has_path p d \<and> (\<forall>e\<in>set (eg_docs g). has_path p e \<longrightarrow> doc_id e \<noteq> doc_id d)"
    and "deleted_ids u = []"
  shows "filter (has_path p) (eg_docs (engine_after name h g u)) = filter (has_path p) (eg_docs g)"
  using assms
proof (induction u arbitrary: g)
  case (Cons c u)
  let ?g = "engine_step name h c g"
  have one: "filter (has_path p) (eg_docs ?g) = filter (has_path p) (eg_docs g)"
    using Cons.prems by (cases c) (auto simp: number_untouched intro!: replace_doc_untouched)
  have old: "e \<in> set (eg_docs g)" if "e \<in> set (eg_docs ?g)" "has_path p e" for e
  proof -
    have "e \<in> set (filter (has_path p) (eg_docs ?g))" using that by simp
    then show ?thesis unfolding one by simp
  qed
  have rest: "\<forall>d\<in>set (concat (indexed_batches u)). \<not> has_path p d" "deleted_ids u = []"
    using Cons.prems(1,3) by (cases c; simp)+
  have "\<forall>d\<in>set (concat (updated_batches u)). \<not> has_path p d \<and> (\<forall>e\<in>set (eg_docs g). has_path p e \<longrightarrow> doc_id e \<noteq> doc_id d)"
    using Cons.prems(2) by (cases c) simp_all
  with old have "\<forall>d\<in>set (concat (updated_batches u)). \<not> has_path p d \<and> (\<forall>e\<in>set (eg_docs ?g). has_path p e \<longrightarrow> doc_id e \<noteq> doc_id d)"
    by blast
  from Cons.IH [OF rest(1) this rest(2)] one show ?case by simp
qed simp

subsection \<open>The specification\<close>

text \<open>What an item of the diff means for the index: the text of a file that is added, modified or renamed is
  stored under its path, and a renamed file leaves its old path. A deleted file stays, as the deletion fails.\<close>

definition apply_item :: "env \<Rightarrow> trace \<Rightarrow> git_handler \<Rightarrow> diff_item \<Rightarrow> (string \<Rightarrow> string option) \<Rightarrow> string \<Rightarrow> string option" where
  "apply_item E t h item m =
     (case diff_file_path item of
        Inl e \<Rightarrow> m
      | Inr f \<Rightarrow>
          if \<not> should_index_file E h f \<or> file_text E t h f = '''' then m
          else if di_change_type item = Some ''A'' \<or> di_change_type item = Some ''M'' then m(f \<mapsto> file_text E t h f)
          else if di_change_type item = Some ''R''
          then (case di_a_path item of
              None \<Rightarrow> m
            | Some a \<Rightarrow> if a = '''' then m else (m(a := None))(f \<mapsto> file_text E t h f))
          else m)"

text \<open>The paths an item concerns. The items are apart when no path is concerned by two of them; a
  file that is added, or renamed to another path, is new to the index.\<close>

definition paths_of :: "diff_item \<Rightarrow> string list" where
  "paths_of item = (case diff_file_path item of Inl e \<Rightarrow> [] | Inr f \<Rightarrow> remdups (f # looked_up f item))"

definition apart :: "engine \<Rightarrow> diff_item list \<Rightarrow> bool" where
  "apart g items \<longleftrightarrow> distinct (concat (map paths_of items)) \<and>
     (\<forall>item\<in>set items. \<forall>f. diff_file_path item = Inr f \<longrightarrow> list_all utf8_valid (looked_up f item) \<and>
        (di_change_type item \<in> {Some ''A'', Some ''R''} \<and> f \<notin> set (looked_up f item) \<longrightarrow> contents g f = None))"

subsection \<open>Views of the index\<close>

text \<open>The documents of the index as identifier, path and text, which is all the specification speaks of.\<close>

definition at_path :: "string \<Rightarrow> doc_view \<Rightarrow> bool" where
  "at_path p v \<longleftrightarrow> fst (snd v) = Some (JStr p)"

definition text_at :: "doc_view list \<Rightarrow> string \<Rightarrow> string option" where
  "text_at vs p = map_option (\<lambda>v. snd (snd v)) (find (at_path p) vs)"

definition put_view :: "doc_view \<Rightarrow> doc_view list \<Rightarrow> doc_view list" where
  "put_view r vs = map (\<lambda>v. if fst v = fst r then r else v) vs"

fun act :: "(nat \<Rightarrow> string) \<Rightarrow> action \<Rightarrow> nat \<times> doc_view list \<Rightarrow> nat \<times> doc_view list" where
  "act name (Create f c) (n, vs) = (Suc n, vs @ [(Some (name n), Some (JStr f), c)])"
| "act name (Replace i f c) (n, vs) = (n, put_view (i, Some (JStr f), c) vs)"
| "act name (Remove i) (n, vs) = (n, vs)"

definition tidy_views :: "(nat \<Rightarrow> string) \<Rightarrow> nat \<times> doc_view list \<Rightarrow> bool" where
  "tidy_views name s \<longleftrightarrow> (case s of (n, vs) \<Rightarrow> (\<forall>v\<in>set vs. \<exists>k<n. fst v = Some (name k)) \<and> distinct (map fst vs) \<and>
     (\<forall>p. length (filter (at_path p) vs) \<le> 1))"

lemma at_path_view [simp]: "at_path p (view d) = has_path p d"
  by (simp add: at_path_def view_def has_path_def)

lemma find_map: "find P (map f xs) = map_option f (find (P \<circ> f) xs)"
  by (induction xs) simp_all

lemma contents_view: "contents g = text_at (map view (eg_docs g))"
proof
  fix p
  have "find (at_path p) (map view (eg_docs g)) = map_option view (find (has_path p) (eg_docs g))"
    by (simp add: find_map o_def)
  then show "contents g p = text_at (map view (eg_docs g)) p"
    by (simp add: contents_def text_at_def option.map_comp o_def view_def)
qed

lemma tidy_view: "tidy name g = tidy_views name (eg_next g, map view (eg_docs g))"
  by (simp add: tidy_def tidy_views_def filter_map o_def view_def [THEN arg_cong, of fst, simplified])

fun number_views :: "(nat \<Rightarrow> string) \<Rightarrow> nat \<Rightarrow> doc_view list \<Rightarrow> doc_view list" where
  "number_views name n [] = []"
| "number_views name n (v # vs) = (Some (name n), snd v) # number_views name (Suc n) vs"

lemma view_number: "map view (number name n ds) = number_views name n (map view ds)"
  by (induction ds arbitrary: n) simp_all

lemma view_replace: "map view (fold replace_doc us ds) = fold put_view (map view us) (map view ds)"
proof (induction us arbitrary: ds)
  case (Cons d us)
  have "map view (replace_doc d ds) = put_view (view d) (map view ds)"
    by (simp add: replace_doc_def put_view_def view_def)
  with Cons show ?case by simp
qed simp

lemma put_view_append [simp]: "fold put_view rs (vs @ ws) = fold put_view rs vs @ fold put_view rs ws"
  by (induction rs arbitrary: vs ws) (simp_all add: put_view_def)

lemma put_view_other: "\<forall>r\<in>set rs. fst r \<noteq> fst v \<Longrightarrow> fold put_view rs [v] = [v]"
  by (induction rs) (auto simp: put_view_def)

text \<open>Carrying out the actions one by one gives what the batches give.\<close>

lemma acts_batched:
  assumes "inj name" and "m \<le> n" and "\<forall>r\<in>set (replaced acts). \<exists>k<m. fst r = Some (name k)"
  shows "fold (act name) acts (n, vs) =
    (n + length (created acts), fold put_view (replaced acts) vs @ number_views name n (created acts))"
  using assms(2,3)
proof (induction acts arbitrary: n vs)
  case (Cons a acts)
  show ?case
  proof (cases a)
    case (Create f c)
    have "\<forall>r\<in>set (replaced acts). fst r \<noteq> Some (name n)"
    proof
      fix r assume "r \<in> set (replaced acts)"
      with Cons.prems(2) Create obtain k where "k < m" "fst r = Some (name k)" by auto
      with Cons.prems(1) show "fst r \<noteq> Some (name n)" using injD [OF assms(1), of k n] by auto
    qed
    then have "fold put_view (replaced acts) [(Some (name n), Some (JStr f), c)] = [(Some (name n), Some (JStr f), c)]"
      by (intro put_view_other) simp
    with Cons.IH [of "Suc n"] Cons.prems Create show ?thesis by simp
  qed (use Cons in simp_all)
qed simp

lemma find_at_append: "find P (xs @ ys) = (case find P xs of None \<Rightarrow> find P ys | Some x \<Rightarrow> Some x)"
  by (induction xs) simp_all

lemma find_split: "find P xs = Some x \<Longrightarrow> \<exists>ys zs. xs = ys @ x # zs \<and> P x \<and> (\<forall>y\<in>set ys. \<not> P y)"
proof (induction xs)
  case (Cons a xs)
  show ?case
  proof (cases "P a")
    case True
    with Cons.prems show ?thesis by (intro exI [of _ "[]"] exI [of _ xs]) auto
  next
    case False
    with Cons obtain ys zs where "xs = ys @ x # zs" "P x" "\<forall>y\<in>set ys. \<not> P y" by auto
    with False show ?thesis by (intro exI [of _ "a # ys"] exI [of _ zs]) auto
  qed
qed simp

lemma text_at_None: "text_at vs p = None \<longleftrightarrow> filter (at_path p) vs = []"
  by (auto simp: text_at_def find_None_iff filter_empty_conv)

lemma at_path_parts [simp]: "at_path p (i, Some (JStr f), c) \<longleftrightarrow> p = f"
  by (auto simp: at_path_def)

lemma create_view:
  assumes "inj name" and "tidy_views name (n, vs)" and "text_at vs f = None"
  shows "tidy_views name (act name (Create f c) (n, vs))"
    and "text_at (snd (act name (Create f c) (n, vs))) = (text_at vs)(f \<mapsto> c)"
    and "p \<noteq> f \<Longrightarrow> find (at_path p) (snd (act name (Create f c) (n, vs))) = find (at_path p) vs"
proof -
  have "\<forall>v\<in>set vs. fst v \<noteq> Some (name n)"
  proof
    fix v assume v: "v \<in> set vs"
    have "\<forall>v\<in>set vs. \<exists>k<n. fst v = Some (name k)" using assms(2) by (simp add: tidy_views_def)
    with v obtain k where "k < n" "fst v = Some (name k)" by blast
    then show "fst v \<noteq> Some (name n)" using injD [OF assms(1), of k n] by auto
  qed
  then show "tidy_views name (act name (Create f c) (n, vs))"
    using assms(2,3) unfolding text_at_None tidy_views_def by (auto simp: less_Suc_eq)
  show "text_at (snd (act name (Create f c) (n, vs))) = (text_at vs)(f \<mapsto> c)"
    using assms(3) by (auto simp: text_at_def fun_eq_iff find_at_append split: option.split)
  show "p \<noteq> f \<Longrightarrow> find (at_path p) (snd (act name (Create f c) (n, vs))) = find (at_path p) vs"
    by (simp add: find_at_append split: option.split)
qed

text \<open>In an index in order the document of a path stands between documents of other paths and identifiers.\<close>

lemma tidy_split:
  assumes "tidy_views name (n, vs)" and "find (at_path p) vs = Some v"
  obtains xs ys where "vs = xs @ v # ys" and "filter (at_path p) xs = []" and "filter (at_path p) ys = []"
    and "\<forall>w\<in>set xs \<union> set ys. fst w \<noteq> fst v" and "at_path p v"
proof -
  obtain xs ys where vs: "vs = xs @ v # ys" and v: "at_path p v" and xs: "\<forall>w\<in>set xs. \<not> at_path p w"
    using find_split [OF assms(2)] by blast
  have one: "length (filter (at_path p) vs) \<le> 1" using assms(1) by (simp add: tidy_views_def)
  have "filter (at_path p) ys = []" using one v unfolding vs by simp
  moreover have "\<forall>w\<in>set xs \<union> set ys. fst w \<noteq> fst v"
    using assms(1) unfolding tidy_views_def vs by (auto simp: image_iff)
  ultimately show ?thesis using vs v xs by (intro that) (auto simp: filter_empty_conv)
qed

lemma replace_view:
  assumes "tidy_views name (n, vs)" and "find (at_path old) vs = Some v" and "f = old \<or> text_at vs f = None"
  shows "tidy_views name (act name (Replace (fst v) f c) (n, vs))"
    and "text_at (snd (act name (Replace (fst v) f c) (n, vs))) = (text_at vs)(old := None, f \<mapsto> c)"
    and "p \<notin> {old, f} \<Longrightarrow> find (at_path p) (snd (act name (Replace (fst v) f c) (n, vs))) = find (at_path p) vs"
proof -
  let ?r = "(fst v, Some (JStr f), c)"
  obtain xs ys where vs: "vs = xs @ v # ys" and old: "filter (at_path old) xs = []" "filter (at_path old) ys = []"
    and ids: "\<forall>w\<in>set xs \<union> set ys. fst w \<noteq> fst v" and v: "at_path old v"
    by (rule tidy_split [OF assms(1,2)])
  have keep: "put_view ?r zs = zs" if sub: "set zs \<subseteq> set xs \<union> set ys" for zs
  proof -
    have "\<forall>w\<in>set zs. fst w \<noteq> fst v" using ids sub by blast
    then show ?thesis by (simp add: put_view_def map_idI)
  qed
  have "put_view ?r (xs @ v # ys) = put_view ?r xs @ ?r # put_view ?r ys" by (simp add: put_view_def)
  then have new: "snd (act name (Replace (fst v) f c) (n, vs)) = xs @ ?r # ys"
    by (simp add: vs keep)
  have other: "\<not> at_path p v" if "p \<noteq> old" for p using v that by (auto simp: at_path_def)
  have free: "filter (at_path f) xs = []" "filter (at_path f) ys = []"
    using assms(3) old other [of f] unfolding text_at_None vs by (cases "f = old"; simp split: if_splits)+
  have found: "find (at_path p) (xs @ ?r # ys) = (if p = f then Some ?r else if p = old then None else find (at_path p) vs)" for p
  proof -
    have none: "find (at_path q) xs = None \<and> find (at_path q) ys = None" if "q = old \<or> q = f" for q
      using that old free by (auto simp: find_None_iff filter_empty_conv)
    show ?thesis using none [of p] other [of p] by (auto simp: find_at_append vs split: option.split)
  qed
  have count: "length (filter (at_path p) (xs @ ?r # ys)) \<le> 1" for p
  proof (cases "p = f")
    case True
    then show ?thesis using free by simp
  next
    case False
    have "length (filter (at_path p) (xs @ v # ys)) \<le> 1" using assms(1) unfolding vs tidy_views_def by simp
    with False show ?thesis by (simp split: if_splits)
  qed
  show "tidy_views name (act name (Replace (fst v) f c) (n, vs))"
    using assms(1) new count unfolding tidy_views_def vs by simp
  show "text_at (snd (act name (Replace (fst v) f c) (n, vs))) = (text_at vs)(old := None, f \<mapsto> c)"
    unfolding new by (simp add: text_at_def found fun_eq_iff)
  show "p \<notin> {old, f} \<Longrightarrow> find (at_path p) (snd (act name (Replace (fst v) f c) (n, vs))) = find (at_path p) vs"
    unfolding new by (simp add: found)
qed

subsection \<open>The items in turn\<close>

lemma engine_has_listing:
  assumes "serves name E g h" and "utf8_valid p"
  shows "engine_has E t h p = find (has_path p) (eg_docs (engine_after name h g t))"
proof -
  have "(case take 1 (filter P xs) of [] \<Rightarrow> None | d # ds \<Rightarrow> Some d) = find P xs" for P and xs :: "document list"
    by (induction xs) simp_all
  then show ?thesis using assms by (simp add: engine_has_def serves_def listing_of_def Let_def)
qed

text \<open>The index after the items \<open>pre\<close>, against the index \<open>vs\<close> before all of them.\<close>

definition mirrored :: "(nat \<Rightarrow> string) \<Rightarrow> env \<Rightarrow> trace \<Rightarrow> git_handler \<Rightarrow> doc_view list \<Rightarrow> diff_item list \<Rightarrow> nat \<times> doc_view list \<Rightarrow> bool" where
  "mirrored name E t h vs pre s \<longleftrightarrow> tidy_views name s \<and> text_at (snd s) = fold (apply_item E t h) pre (text_at vs) \<and>
     (\<forall>p. p \<notin> set (concat (map paths_of pre)) \<longrightarrow> find (at_path p) (snd s) = find (at_path p) vs)"

lemma store_view:
  assumes "inj name" and "tidy_views name s" and "find (at_path old) (snd s) = map_option view (engine_has E t h old)"
    and "f = old \<or> text_at (snd s) f = None"
  shows "tidy_views name (act name (store_as E t h f old) s)"
    and "text_at (snd (act name (store_as E t h f old) s)) = (text_at (snd s))(old := None, f \<mapsto> file_text E t h f)"
    and "p \<notin> {old, f} \<Longrightarrow> find (at_path p) (snd (act name (store_as E t h f old) s)) = find (at_path p) (snd s)"
proof -
  obtain n vs where s: "s = (n, vs)" by (cases s)
  have goal: "tidy_views name (act name (store_as E t h f old) s) \<and>
    text_at (snd (act name (store_as E t h f old) s)) = (text_at (snd s))(old := None, f \<mapsto> file_text E t h f) \<and>
    (p \<notin> {old, f} \<longrightarrow> find (at_path p) (snd (act name (store_as E t h f old) s)) = find (at_path p) (snd s))"
  proof (cases "engine_has E t h old")
    case None
    then have none: "text_at vs old = None" using assms(3) by (simp add: s text_at_def)
    then have "text_at vs f = None" using assms(4) by (auto simp: s)
    from create_view [OF assms(1) assms(2) [unfolded s] this] none show ?thesis
      by (simp add: store_as_def None s fun_upd_idem)
  next
    case (Some d)
    then have "find (at_path old) vs = Some (view d)" using assms(3) by (simp add: s)
    from replace_view [OF assms(2) [unfolded s] this assms(4) [unfolded s snd_conv]] show ?thesis
      by (simp add: store_as_def Some s view_def)
  qed
  then show "tidy_views name (act name (store_as E t h f old) s)"
    and "text_at (snd (act name (store_as E t h f old) s)) = (text_at (snd s))(old := None, f \<mapsto> file_text E t h f)"
    and "p \<notin> {old, f} \<Longrightarrow> find (at_path p) (snd (act name (store_as E t h f old) s)) = find (at_path p) (snd s)"
    by blast+
qed

lemma mirrored_step:
  assumes "mirrored name E t h vs pre s" and "tidy_views name s'"
    and "text_at (snd s') = apply_item E t h item (text_at (snd s))"
    and "\<And>p. p \<notin> set (paths_of item) \<Longrightarrow> find (at_path p) (snd s') = find (at_path p) (snd s)"
  shows "mirrored name E t h vs (pre @ [item]) s'"
  using assms by (simp add: mirrored_def)

lemma mirrored_skip:
  assumes "mirrored name E t h vs pre s" and "apply_item E t h item (text_at (snd s)) = text_at (snd s)"
  shows "mirrored name E t h vs (pre @ [item]) s"
  using assms by (simp add: mirrored_def)

lemma act_remove [simp]: "act name (Remove i) s = s"
  by (cases s) simp

lemma item_mirrored:
  assumes "serves name E g h" and "mirrored name E t h (map view (eg_docs (engine_after name h g t))) pre s"
    and "apart (engine_after name h g t) (pre @ item # post)"
  shows "mirrored name E t h (map view (eg_docs (engine_after name h g t))) (pre @ [item])
    (fold (act name) (actions_of E t h item) s)"
proof (cases "diff_file_path item")
  case (Inl e)
  then show ?thesis by (simp add: actions_of_def, intro mirrored_skip [OF assms(2)]) (simp add: apply_item_def)
next
  case f: (Inr f)
  let ?vs = "map view (eg_docs (engine_after name h g t))" and ?c = "file_text E t h f"
  have acts: "actions_of E t h item = action_on E t h f item" by (simp add: actions_of_def f)
  have paths: "set (paths_of item) = insert f (set (looked_up f item))" by (auto simp: paths_of_def f)
  have inj: "inj name" using assms(1) by (simp add: serves_def)
  have tidy: "tidy_views name s" using assms(2) by (simp add: mirrored_def)
  have "set (paths_of item) \<inter> set (concat (map paths_of pre)) = {}" using assms(3) by (auto simp: apart_def)
  then have same: "find (at_path p) (snd s) = find (at_path p) ?vs" if "p \<in> set (paths_of item)" for p
    using assms(2) that unfolding mirrored_def by blast
  have has: "find (at_path p) (snd s) = map_option view (engine_has E t h p)" if p: "p \<in> set (looked_up f item)" for p
  proof -
    have "utf8_valid p" using assms(3) f p by (auto simp: apart_def list_all_iff)
    then show ?thesis
      using same [of p] p by (simp add: paths engine_has_listing [OF assms(1)] find_map o_def)
  qed
  have new: "text_at (snd s) f = None"
    if "di_change_type item \<in> {Some ''A'', Some ''R''}" and "f \<notin> set (looked_up f item)"
  proof -
    have "contents (engine_after name h g t) f = None" using assms(3) f that by (auto simp: apart_def)
    then show ?thesis using same [of f] by (simp add: paths contents_view text_at_def)
  qed
  note step = mirrored_step [OF assms(2)]
  consider (none) "\<not> should_index_file E h f \<or> ?c = ''''"
    | (A) "should_index_file E h f" "?c \<noteq> ''''" "di_change_type item = Some ''A''"
    | (M) "should_index_file E h f" "?c \<noteq> ''''" "di_change_type item = Some ''M''"
    | (R) a where "should_index_file E h f" "?c \<noteq> ''''" "di_change_type item = Some ''R''" "di_a_path item = Some a" "a \<noteq> ''''"
    | (other) "should_index_file E h f" "?c \<noteq> ''''" "di_change_type item \<notin> {Some ''A'', Some ''M''}"
        "di_change_type item = Some ''R'' \<longrightarrow> di_a_path item = None \<or> di_a_path item = Some ''''"
    by (cases "di_a_path item") blast+
  then show ?thesis
  proof cases
    case none
    then have "fold (act name) (actions_of E t h item) s = s"
      by (auto simp: acts action_on.simps split: option.split)
    then show ?thesis using none mirrored_skip [OF assms(2)] by (simp add: apply_item_def f)
  next
    case A
    obtain n vs where s: "s = (n, vs)" by (cases s)
    have "text_at vs f = None" using new A(3) by (simp add: looked_up_def s)
    note made = create_view [OF inj tidy [unfolded s] this, where c = ?c]
    have "fold (act name) (actions_of E t h item) s = act name (Create f ?c) (n, vs)"
      using A by (simp add: acts action_on.simps s)
    then show ?thesis by (simp only:, intro step) (use made A in \<open>auto simp: apply_item_def f s paths\<close>)
  next
    case M
    have "find (at_path f) (snd s) = map_option view (engine_has E t h f)" using has M(3) by (simp add: looked_up_def)
    note made = store_view [OF inj tidy this]
    have "fold (act name) (actions_of E t h item) s = act name (store_as E t h f f) s"
      using M by (simp add: acts action_on.simps)
    then show ?thesis by (simp only:, intro step) (use made M in \<open>auto simp: apply_item_def f paths\<close>)
  next
    case R
    have lk: "looked_up f item = [a]" using R by (simp add: looked_up_def)
    have "find (at_path a) (snd s) = map_option view (engine_has E t h a)" using has lk by simp
    note made = store_view [OF inj tidy this, of f]
    have free: "f = a \<or> text_at (snd s) f = None" by (cases "f = a") (use new R(3) lk in simp_all)
    have "fold (act name) (actions_of E t h item) s = act name (store_as E t h f a) s"
      using R by (simp add: acts action_on.simps)
    then show ?thesis by (simp only:, intro step) (use made [OF free] R in \<open>auto simp: apply_item_def f paths lk\<close>)
  next
    case other
    then have "fold (act name) (actions_of E t h item) s = s"
      by (auto simp: acts action_on.simps split: option.split)
    moreover have "apply_item E t h item (text_at (snd s)) = text_at (snd s)"
      using other by (auto simp: apply_item_def f split: option.split)
    ultimately show ?thesis using mirrored_skip [OF assms(2)] by simp
  qed
qed

lemma items_mirrored:
  assumes "serves name E g h" and "tidy name (engine_after name h g t)" and "apart (engine_after name h g t) items"
  shows "mirrored name E t h (map view (eg_docs (engine_after name h g t))) items
    (fold (act name) (concat (map (actions_of E t h) items))
      (eg_next (engine_after name h g t), map view (eg_docs (engine_after name h g t))))"
proof -
  let ?g = "engine_after name h g t"
  let ?s = "(eg_next ?g, map view (eg_docs ?g))"
  have "items = pre @ post \<longrightarrow> mirrored name E t h (map view (eg_docs ?g)) pre
      (fold (act name) (concat (map (actions_of E t h) pre)) ?s)" for pre post
  proof (induction pre arbitrary: post rule: rev_induct)
    case Nil
    then show ?case using assms(2) by (simp add: mirrored_def tidy_view)
  next
    case (snoc item pre)
    show ?case
    proof
      assume items: "items = (pre @ [item]) @ post"
      then have "mirrored name E t h (map view (eg_docs ?g)) pre
          (fold (act name) (concat (map (actions_of E t h) pre)) ?s)"
        using snoc.IH [of "item # post"] by simp
      from item_mirrored [OF assms(1) this, of item post] assms(3) items
      show "mirrored name E t h (map view (eg_docs ?g)) (pre @ [item])
          (fold (act name) (concat (map (actions_of E t h) (pre @ [item]))) ?s)"
        by simp
    qed
  qed
  from this [of items "[]"] show ?thesis by simp
qed

subsection \<open>What is sent leaves the later paths alone\<close>

lemma created_concat: "created (concat ass) = concat (map created ass)"
  by (induction ass) simp_all

lemma replaced_concat: "replaced (concat ass) = concat (map replaced ass)"
  by (induction ass) simp_all

lemma store_as_parts:
  "v \<in> set (created [store_as E t h f old]) \<Longrightarrow> fst (snd v) = Some (JStr f)"
  "v \<in> set (replaced [store_as E t h f old]) \<Longrightarrow> fst (snd v) = Some (JStr f) \<and>
    (\<exists>d. engine_has E t h old = Some d \<and> fst v = doc_id d)"
  by (auto simp: store_as_def split: option.splits)

lemma created_paths:
  assumes "v \<in> set (created (actions_of E t h item))"
  obtains f where "fst (snd v) = Some (JStr f)" and "f \<in> set (paths_of item)"
proof (cases "diff_file_path item")
  case (Inr f)
  have "v \<in> set (created (action_on E t h f item))" using assms by (simp add: actions_of_def Inr)
  then consider "v \<in> set (created [Create f (file_text E t h f)])" | old where "v \<in> set (created [store_as E t h f old])"
    unfolding action_on.simps by (simp split: if_splits option.splits)
  then have "fst (snd v) = Some (JStr f)" by cases (auto dest: store_as_parts(1))
  moreover have "f \<in> set (paths_of item)" by (simp add: paths_of_def Inr)
  ultimately show ?thesis by (rule that)
qed (use assms in \<open>simp add: actions_of_def\<close>)

lemma replaced_paths:
  assumes "v \<in> set (replaced (actions_of E t h item))"
  obtains f old d where "fst (snd v) = Some (JStr f)" and "diff_file_path item = Inr f" and "f \<in> set (paths_of item)"
    and "old \<in> set (looked_up f item)" and "old \<in> set (paths_of item)"
    and "engine_has E t h old = Some d" and "fst v = doc_id d"
proof (cases "diff_file_path item")
  case f: (Inr f)
  have paths: "set (paths_of item) = insert f (set (looked_up f item))" by (auto simp: paths_of_def f)
  obtain old where old: "old \<in> set (looked_up f item)" "v \<in> set (replaced [store_as E t h f old])"
  proof (cases "di_change_type item = Some ''M''")
    case True
    with assms have "v \<in> set (replaced [store_as E t h f f])"
      by (simp add: actions_of_def f action_on.simps split: if_splits)
    with True show ?thesis by (intro that) (simp_all add: looked_up_def)
  next
    case False
    with assms obtain a where a: "di_change_type item = Some ''R''" "di_a_path item = Some a" "a \<noteq> ''''"
        "v \<in> set (replaced [store_as E t h f a])"
      by (auto simp: actions_of_def f action_on.simps split: if_splits option.splits)
    then show ?thesis by (intro that) (simp_all add: looked_up_def)
  qed
  with store_as_parts(2) [OF old(2)] paths that [OF _ f] show ?thesis by auto
qed (use assms in \<open>simp add: actions_of_def\<close>)

lemma sent_views:
  assumes "sent_part acts u"
  shows "d \<in> set (concat (indexed_batches u)) \<Longrightarrow> view d \<in> set (created acts)"
    and "d \<in> set (concat (updated_batches u)) \<Longrightarrow> view d \<in> set (replaced acts)"
proof -
  have "view ` set (concat (indexed_batches u)) \<subseteq> set (created acts)"
    "view ` set (concat (updated_batches u)) \<subseteq> set (replaced acts)"
    using assms set_mono_prefix unfolding sent_part_def set_map [symmetric] by blast+
  then show "d \<in> set (concat (indexed_batches u)) \<Longrightarrow> view d \<in> set (created acts)"
    and "d \<in> set (concat (updated_batches u)) \<Longrightarrow> view d \<in> set (replaced acts)"
    by blast+
qed

lemma apart_steady:
  assumes "serves name E g h" and "tidy name (engine_after name h g t)" and "apart (engine_after name h g t) items"
  shows "steady E t h items"
  unfolding steady_def
proof (intro allI impI)
  fix pre item post f p u
  let ?g = "engine_after name h g t" and ?acts = "concat (map (actions_of E t h) pre)"
  assume items: "items = pre @ item # post" and f: "diff_file_path item = Inr f" and p: "p \<in> set (looked_up f item)"
    and sent: "sent_part ?acts u"
  have utf8: "utf8_valid q" if "i \<in> set items" "diff_file_path i = Inr f'" "q \<in> set (looked_up f' i)" for i f' q
    using assms(3) that by (auto simp: apart_def list_all_iff)
  have "p \<in> set (paths_of item)" using f p by (auto simp: paths_of_def)
  then have other: "q \<noteq> p" if "i \<in> set pre" "q \<in> set (paths_of i)" for i q
    using assms(3) that by (auto simp: apart_def items)
  have new: "\<forall>d\<in>set (concat (indexed_batches u)). \<not> has_path p d"
  proof
    fix d assume "d \<in> set (concat (indexed_batches u))"
    then have "view d \<in> set (created ?acts)" by (rule sent_views [OF sent])
    then obtain i where i: "i \<in> set pre" "view d \<in> set (created (actions_of E t h i))"
      by (auto simp: created_concat)
    obtain q where "fst (snd (view d)) = Some (JStr q)" "q \<in> set (paths_of i)" by (rule created_paths [OF i(2)])
    with other [OF i(1)] show "\<not> has_path p d" by (auto simp: has_path_def view_def)
  qed
  have old: "\<forall>d\<in>set (concat (updated_batches u)).
      \<not> has_path p d \<and> (\<forall>e\<in>set (eg_docs ?g). has_path p e \<longrightarrow> doc_id e \<noteq> doc_id d)"
  proof
    fix d assume "d \<in> set (concat (updated_batches u))"
    then have "view d \<in> set (replaced ?acts)" by (rule sent_views [OF sent])
    then obtain i where i: "i \<in> set pre" "view d \<in> set (replaced (actions_of E t h i))"
      by (auto simp: replaced_concat)
    obtain q r x where q: "fst (snd (view d)) = Some (JStr q)" "diff_file_path i = Inr q" "q \<in> set (paths_of i)"
      "r \<in> set (looked_up q i)" "r \<in> set (paths_of i)" "engine_has E t h r = Some x" "fst (view d) = doc_id x"
      by (rule replaced_paths [OF i(2)])
    have "find (has_path r) (eg_docs ?g) = Some x"
      using q(6) engine_has_listing [OF assms(1) utf8 [OF _ q(2,4)]] i(1) by (simp add: items)
    then have x: "x \<in> set (eg_docs ?g)" "has_path r x" by (auto simp: find_Some_iff)
    have "doc_id e \<noteq> doc_id x" if "e \<in> set (eg_docs ?g)" "has_path p e" for e
    proof
      assume "doc_id e = doc_id x"
      then have "e = x" using assms(2) that(1) x(1) by (auto simp: tidy_def distinct_map dest: inj_onD)
      with that(2) x(2) other [OF i(1) q(5)] show False by (simp add: has_path_def)
    qed
    with q(1,3,7) other [OF i(1)] show "\<not> has_path p d \<and> (\<forall>e\<in>set (eg_docs ?g). has_path p e \<longrightarrow> doc_id e \<noteq> doc_id d)"
      by (auto simp: has_path_def view_def)
  qed
  have "deleted_ids u = []" using sent by (simp add: sent_part_def)
  from engine_untouched [OF new old this, of name h]
  have "listing_of p (engine_after name h ?g u) = listing_of p ?g" by (simp add: listing_of_def)
  moreover have "utf8_valid p" using utf8 [OF _ f p] by (simp add: items)
  ultimately show "rag_list E (path_lookup h p) (t @ u) = rag_list E (path_lookup h p) t"
    using assms(1) by (simp add: serves_def)
qed

lemma git_call_own: "git_call_ok E h c \<Longrightarrow> own_call h c"
  by (cases c) (simp_all add: own_call_def)

lemma engine_after_actions:
  assumes "serves name E g h" and "tidy name (engine_after name h g t)" and "apart (engine_after name h g t) items"
    and "list_all (own_call h) u"
    and "map view (concat (indexed_batches u)) = created (concat (map (actions_of E t h) items))"
    and "map view (concat (updated_batches u)) = replaced (concat (map (actions_of E t h) items))"
  shows "(eg_next (engine_after name h g (t @ u)), map view (eg_docs (engine_after name h g (t @ u)))) =
    fold (act name) (concat (map (actions_of E t h) items))
      (eg_next (engine_after name h g t), map view (eg_docs (engine_after name h g t)))"
proof -
  let ?g = "engine_after name h g t" and ?acts = "concat (map (actions_of E t h) items)"
  have inj: "inj name" using assms(1) by (simp add: serves_def)
  have ids: "\<forall>r\<in>set (replaced ?acts). \<exists>k<eg_next ?g. fst r = Some (name k)"
  proof
    fix r assume "r \<in> set (replaced ?acts)"
    then obtain i where i: "i \<in> set items" "r \<in> set (replaced (actions_of E t h i))" by (auto simp: replaced_concat)
    obtain f old x where x: "diff_file_path i = Inr f" "old \<in> set (looked_up f i)" "engine_has E t h old = Some x"
      "fst r = doc_id x"
      by (rule replaced_paths [OF i(2)])
    have "utf8_valid old" using assms(3) i(1) x(1,2) by (auto simp: apart_def list_all_iff)
    with x(3) have "x \<in> set (eg_docs ?g)" by (auto simp: engine_has_listing [OF assms(1)] find_Some_iff)
    with assms(2) x(4) show "\<exists>k<eg_next ?g. fst r = Some (name k)" by (simp add: tidy_def)
  qed
  have "\<forall>d\<in>set (concat (updated_batches u)). \<exists>k<eg_next ?g. doc_id d = Some (name k)"
  proof
    fix d assume "d \<in> set (concat (updated_batches u))"
    then have "view d \<in> set (replaced ?acts)" unfolding assms(6) [symmetric] by simp
    with ids have "\<exists>k<eg_next ?g. fst (view d) = Some (name k)" by blast
    then show "\<exists>k<eg_next ?g. doc_id d = Some (name k)" by (simp add: view_def)
  qed
  note after = engine_after_batches [OF inj assms(4) order_refl this]
  have "length (concat (indexed_batches u)) = length (created ?acts)" using assms(5) by (metis length_map)
  with after show ?thesis by (simp add: acts_batched [OF inj order_refl ids] view_replace view_number assms(5,6))
qed

lemma git_index_incremental:
  assumes "truthy (gh_last_indexed_commit h)" and "\<not> truthy (gh_commit h)"
    and "last_indexing_had_errors (gh_conditions h) = Inr False"
  shows "git_index E (h, t) = index_diff_files E (h, t)"
  using assms by (simp add: git_index_def py_bind_def py_self_def py_lift_def)

subsection \<open>Full indexing\<close>

definition no_update :: "call \<Rightarrow> bool" where
  "no_update c \<longleftrightarrow> (case c of RagUpdate u i ds \<Rightarrow> False | _ \<Rightarrow> True)"

lemma no_update_batches: "list_all no_update u \<Longrightarrow> updated_batches u = []"
proof (induction u)
  case (Cons c u)
  then show ?case by (cases c) (simp_all add: no_update_def)
qed simp

lemma full_no_update: "emits no_update (index_all_files E)"
  unfolding index_all_files_def get_repository_files_def full_step_def read_file_content_def create_document_def
    index_documents_batch_def index_documents_def git_append_error_def git_head_commit_def now_iso_def now_def
  by (intro emits_intros) (simp_all add: no_update_def)

lemma full_calls:
  assumes "index_all_files E (h, t) = (r, h', t @ u)"
  shows "list_all (own_call h) u" and "updated_batches u = []"
proof -
  obtain u' where "t @ u = t @ u'" "list_all (git_call_ok E h) u'"
    by (rule runsD [OF index_all_files_runs _ assms]) simp
  then show "list_all (own_call h) u" by (auto simp: list_all_iff git_call_own)
  have "\<exists>v. snd (snd (index_all_files E (h, t))) = snd (h, t) @ v \<and> list_all no_update v"
    using full_no_update [unfolded emits_def] by (rule spec)
  then have "list_all no_update u" unfolding assms by simp
  then show "updated_batches u = []" by (rule no_update_batches)
qed

lemma number_views_snd: "map snd vs = map snd ws \<Longrightarrow> number_views name n vs = number_views name n ws"
proof (induction vs arbitrary: ws n)
  case (Cons v vs)
  from Cons.prems obtain w ws' where ws: "ws = w # ws'" "snd v = snd w" "map snd vs = map snd ws'" by (cases ws) auto
  show ?case using Cons.IH [OF ws(3), of "Suc n"] ws(1,2) by simp
qed simp

definition creations :: "(string \<times> string) list \<Rightarrow> action list" where
  "creations files = map (\<lambda>(f, c). Create f c) files"

lemma creations_parts:
  "created (creations files) = map (\<lambda>(f, c). (None, Some (JStr f), c)) files" "replaced (creations files) = []"
  by (induction files) (auto simp: creations_def)

lemma create_views:
  assumes "inj name" and "tidy_views name s" and "distinct (map fst files)" and "\<forall>f\<in>set (map fst files). text_at (snd s) f = None"
  shows "tidy_views name (fold (act name) (creations files) s) \<and>
    text_at (snd (fold (act name) (creations files) s)) = text_at (snd s) ++ map_of files"
  using assms(2-4)
proof (induction files arbitrary: s)
  case Nil
  then show ?case by (simp add: creations_def)
next
  case (Cons x files)
  obtain f c where x: "x = (f, c)" by (cases x)
  obtain n vs where s: "s = (n, vs)" by (cases s)
  let ?s = "act name (Create f c) (n, vs)"
  have "text_at vs f = None" using Cons.prems(3) by (simp add: x s)
  note made = create_view [OF assms(1) Cons.prems(1) [unfolded s] this, where c = c]
  have rest: "distinct (map fst files)" "\<forall>f\<in>set (map fst files). text_at (snd ?s) f = None"
    using Cons.prems(2,3) unfolding made(2) by (auto simp: x s)
  have "f \<notin> dom (map_of files)" using Cons.prems(2) by (simp add: x dom_map_of_conv_image_fst)
  then have upd: "(text_at vs)(f \<mapsto> c) ++ map_of files = text_at vs ++ map_of (x # files)"
    by (simp add: x map_add_upd_left)
  have "fold (act name) (creations (x # files)) s = fold (act name) (creations files) ?s"
    by (simp add: creations_def x s)
  with Cons.IH [OF made(1) rest] show ?case by (simp only: made(2) upd s snd_conv)
qed

lemma engine_after_creations:
  assumes "inj name" and "list_all (own_call h) u" and "updated_batches u = []"
    and "map (\<lambda>d. (doc_path d, doc_text d)) (concat (indexed_batches u)) = map (\<lambda>(f, c). (Some (JStr f), c)) files"
  shows "(eg_next (engine_after name h g u), map view (eg_docs (engine_after name h g u))) =
    fold (act name) (creations files) (eg_next g, map view (eg_docs g))"
proof -
  let ?ds = "concat (indexed_batches u)"
  have "map snd (map view ?ds) = map snd (created (creations files))"
    using assms(4) by (simp add: creations_parts view_def o_def case_prod_beta)
  note new = number_views_snd [OF this]
  have "length ?ds = length (created (creations files))"
    using arg_cong [OF assms(4), of length] by (simp add: creations_parts del: length_concat)
  with engine_after_batches [OF assms(1,2) order_refl, of g] show ?thesis
    by (simp add: assms(3) acts_batched [OF assms(1) order_refl] creations_parts(2) view_number new)
qed

subsection \<open>Properties\<close>

text \<open>C3: The index mirrors the repository. Take an engine that stores each document it is sent under a new identifier,
  replaces the document an update names, and lists what it has stored for a path; an index in which every path has at most one document; and a
  diff whose items concern different paths, a file that is added or renamed being new to the index. Then an
  incremental run ends without an exception and leaves an index in which every path still has at most one
  document, and in which the text of each path is what the items of the diff, one after the other, make of it: the text of a
  file that was added, modified or renamed is found under its path, a renamed file is no longer found under its old
  path, and every other path keeps the text it had.\<close>

theorem git_index_mirrors:
  assumes "truthy (gh_last_indexed_commit h)" and "\<not> truthy (gh_commit h)"
    and "last_indexing_had_errors (gh_conditions h) = Inr False"
    and "still E t" and "git_head E GitHeadCommit t = Inr cm"
    and "git_diff E (GitDiff (gh_last_indexed_commit h) cm) (t @ [GitHeadCommit]) = Inr items"
    and "\<forall>i\<in>set items. \<not> isl (diff_file_path i)"
    and "serves name E g h" and "tidy name (engine_after name h g t)" and "apart (engine_after name h g t) items"
  shows "\<exists>h' u. git_index E (h, t) = (Inr (), h', t @ u) \<and> tidy name (engine_after name h g (t @ u)) \<and>
    contents (engine_after name h g (t @ u)) = fold (apply_item E t h) items (contents (engine_after name h g t))"
proof -
  obtain h' u where run: "index_diff_files E (h, t) = (Inr (), h', t @ u)"
    and sent: "map view (concat (indexed_batches u)) = created (concat (map (actions_of E t h) items))"
      "map view (concat (updated_batches u)) = replaced (concat (map (actions_of E t h) items))"
    by (rule index_diff_files_run [OF assms(4-7) apart_steady [OF assms(8-10)]])
  obtain u' where "t @ u = t @ u'" "list_all (git_call_ok E h) u'"
    by (rule runsD [OF index_diff_files_runs [OF assms(1-3)] _ run]) simp
  then have own: "list_all (own_call h) u" by (auto simp: list_all_iff git_call_own)
  note after = engine_after_actions [OF assms(8-10) own sent]
  from items_mirrored [OF assms(8-10)] run show ?thesis
    unfolding after [symmetric] git_index_incremental [OF assms(1-3), symmetric]
    by (intro exI [of _ h'] exI [of _ u]) (simp add: mirrored_def tidy_view contents_view)
qed

text \<open>Engines with a few documents, and the worlds in which they answer.\<close>

definition mirror_git :: git_handler where
  "mirror_git = sample_git\<lparr>gh_conditions := JList []\<rparr>"

definition mirror_name :: "nat \<Rightarrow> string" where
  "mirror_name n = ''doc-'' @ replicate n (CHR ''1'')"

definition mirror_engine :: engine where
  "mirror_engine = \<lparr>eg_next = 2, eg_docs =
     [\<lparr>doc_text = ''old'', doc_metadata = [(''file_path'', JStr ''README.md'')], doc_id = Some ''doc-''\<rparr>,
      \<lparr>doc_text = ''a'', doc_metadata = [(''file_path'', JStr ''docs/a.md'')], doc_id = Some ''doc-1''\<rparr>]\<rparr>"

definition mirror_diff :: "diff_item list" where
  "mirror_diff =
     [\<lparr>di_a_path = None, di_b_path = Some ''new.md'', di_change_type = Some ''A''\<rparr>,
      \<lparr>di_a_path = Some ''README.md'', di_b_path = Some ''README.md'', di_change_type = Some ''M''\<rparr>,
      \<lparr>di_a_path = Some ''docs/a.md'', di_b_path = Some ''docs/b.md'', di_change_type = Some ''R''\<rparr>]"

definition engine_world :: "env \<Rightarrow> git_handler \<Rightarrow> engine \<Rightarrow> env" where
  "engine_world E h g = E
     \<lparr>rag_list := \<lambda>c t. case c of
          RagList u i flt l k \<Rightarrow> (case read_filter flt of
              None \<Rightarrow> Inr None
            | Some (key, v) \<Rightarrow> Inr (Some (listing_of v (engine_after mirror_name h g t))))
        | _ \<Rightarrow> Inr None\<rparr>"

lemma engine_world_serves:
  assumes "\<And>c t. rag_write E c t = Inr ()"
  shows "serves mirror_name (engine_world E h g) g h"
proof -
  have "inj mirror_name" by (rule injI) (simp add: mirror_name_def replicate_eq_replicate)
  moreover have "utf8_valid ''file_path''" by code_simp
  ultimately show ?thesis
    by (simp add: serves_def engine_world_def assms path_lookup_def read_filter_json del: json_dumps.simps)
qed

definition mirror_world :: env where
  "mirror_world = engine_world (git_world\<lparr>git_diff := \<lambda>c t. Inr mirror_diff\<rparr>) mirror_git mirror_engine"

definition full_engine :: engine where
  "full_engine = \<lparr>eg_next = 1, eg_docs =
     [\<lparr>doc_text = ''a'', doc_metadata = [(''file_path'', JStr ''docs/a.md'')], doc_id = Some ''doc-''\<rparr>]\<rparr>"

definition full_world :: env where
  "full_world = engine_world git_world sample_git full_engine"

lemma mirror_serves: "serves mirror_name mirror_world mirror_engine mirror_git"
  unfolding mirror_world_def by (rule engine_world_serves) (simp add: git_world_def sample_world_def)

lemma mirror_tidy: "tidy mirror_name mirror_engine"
proof -
  have "\<exists>k<2. ''doc-'' = mirror_name k" by (intro exI [of _ 0]) (simp add: mirror_name_def)
  moreover have "\<exists>k<2. ''doc-1'' = mirror_name k" by (intro exI [of _ 1]) (simp add: mirror_name_def)
  ultimately show ?thesis by (simp add: tidy_def mirror_engine_def has_path_def doc_path_def)
qed

lemma mirror_apart: "apart mirror_engine mirror_diff"
proof -
  have "distinct (concat (map paths_of mirror_diff))"
    "contents mirror_engine ''new.md'' = None" "contents mirror_engine ''docs/b.md'' = None"
    "utf8_valid ''README.md''" "utf8_valid ''docs/a.md''"
    by code_simp+
  then show ?thesis by (simp add: apart_def mirror_diff_def diff_file_path_def looked_up_def)
qed

lemma mirror_spec:
  "map (fold (apply_item mirror_world [] mirror_git) mirror_diff (contents mirror_engine))
      [''new.md'', ''README.md'', ''docs/a.md'', ''docs/b.md'', ''other.md''] =
    [Some ''hello'', Some ''hello'', None, Some ''hello'', None]"
  by code_simp

theorem git_index_mirrors_witness:
  "\<exists>h' u. git_index mirror_world (mirror_git, []) = (Inr (), h', u) \<and>
    tidy mirror_name (engine_after mirror_name mirror_git mirror_engine u) \<and>
    map (contents (engine_after mirror_name mirror_git mirror_engine u))
      [''new.md'', ''README.md'', ''docs/a.md'', ''docs/b.md'', ''other.md''] =
    [Some ''hello'', Some ''hello'', None, Some ''hello'', None]"
proof -
  have incremental: "truthy (gh_last_indexed_commit mirror_git)" "\<not> truthy (gh_commit mirror_git)"
    "last_indexing_had_errors (gh_conditions mirror_git) = Inr False"
    by code_simp+
  have still: "still mirror_world []" by (simp add: still_def mirror_world_def engine_world_def git_world_def sample_world_def)
  have head: "git_head mirror_world GitHeadCommit [] = Inr ''c0ffee''"
    by (simp add: mirror_world_def engine_world_def git_world_def sample_world_def)
  have diff: "git_diff mirror_world (GitDiff (gh_last_indexed_commit mirror_git) ''c0ffee'') ([] @ [GitHeadCommit]) = Inr mirror_diff"
    by (simp add: mirror_world_def engine_world_def)
  have paths: "\<forall>i\<in>set mirror_diff. \<not> isl (diff_file_path i)" by (simp add: mirror_diff_def diff_file_path_def)
  obtain h' u where "git_index mirror_world (mirror_git, []) = (Inr (), h', [] @ u)"
    "tidy mirror_name (engine_after mirror_name mirror_git mirror_engine ([] @ u))"
    "contents (engine_after mirror_name mirror_git mirror_engine ([] @ u)) =
      fold (apply_item mirror_world [] mirror_git) mirror_diff (contents mirror_engine)"
    using git_index_mirrors [OF incremental still head diff paths mirror_serves, simplified, OF mirror_tidy mirror_apart] by auto
  then show ?thesis using mirror_spec by (intro exI [of _ h'] exI [of _ u]) simp
qed

text \<open>C5: A full run fills the index. Under the same contract of the engine, when there is a fixed commit, no commit
  indexed before or an error in the last run, when the files and the head of the repository can be read and no file
  is in the index yet, the run ends without an exception; every path still has at most one document afterwards, and the
  texts in the index are those it had and, for each selected file that has a text, the text of the file.\<close>

theorem git_full_index_mirrors:
  assumes "last_indexing_had_errors (gh_conditions h) = Inr failed"
    and "truthy (gh_commit h) \<or> \<not> truthy (gh_last_indexed_commit h) \<or> failed"
    and "gh_work_dir h = Some d" and "fs_walk E (OsWalk d) t = Inr walk"
    and "fs = files_of_walk E h d walk" and "distinct fs"
    and "\<forall>f\<in>set fs. \<forall>t. fs_read E (ReadFile (path_join d f)) t = Inr (raw f)"
    and "\<forall>f\<in>set fs. extract_text E (raw f) (get_content_type f) (py_lower (snd (splitext f))) = Inr (content f)"
    and "\<forall>t. \<not> isl (git_head E GitHeadCommit t)"
    and "serves name E g h" and "tidy name (engine_after name h g t)"
    and "\<forall>f\<in>set fs. contents (engine_after name h g t) f = None"
  shows "\<exists>h' u. git_index E (h, t) = (Inr (), h', t @ u) \<and> tidy name (engine_after name h g (t @ u)) \<and>
    contents (engine_after name h g (t @ u)) =
      contents (engine_after name h g t) ++ map_of (map (\<lambda>f. (f, content f)) (filter (\<lambda>f. content f \<noteq> '''') fs))"
proof -
  let ?files = "map (\<lambda>f. (f, content f)) (filter (\<lambda>f. content f \<noteq> '''') fs)" and ?g = "engine_after name h g t"
  obtain h' u news where run: "index_all_files E (h, t) = (Inr (), h', t @ u)"
    "list_all2 (full_made E (git_fixed h)) fs news" "concat (indexed_batches u) = concat news"
    using index_all_files_run [OF assms(3,4)] assms(5) by blast
  have "map (\<lambda>d. (doc_path d, doc_text d)) (concat (indexed_batches u)) = map (\<lambda>(f, c). (Some (JStr f), c)) ?files"
    using full_made_stable [OF run(2) assms(3), where raw = raw and content = content] assms(7-9) run(3) by (simp add: o_def)
  moreover have inj: "inj name" using assms(10) by (simp add: serves_def)
  ultimately have after: "(eg_next (engine_after name h ?g u), map view (eg_docs (engine_after name h ?g u))) =
      fold (act name) (creations ?files) (eg_next ?g, map view (eg_docs ?g))"
    by (intro engine_after_creations [OF inj full_calls [OF run(1)]])
  have "distinct (map fst ?files)" using assms(6) by (simp add: o_def)
  moreover have "\<forall>f\<in>set (map fst ?files). text_at (snd (eg_next ?g, map view (eg_docs ?g))) f = None"
    using assms(12) by (auto simp: contents_view)
  moreover have "tidy_views name (eg_next ?g, map view (eg_docs ?g))" using assms(11) by (simp add: tidy_view)
  ultimately have made: "tidy_views name (fold (act name) (creations ?files) (eg_next ?g, map view (eg_docs ?g)))"
    "text_at (snd (fold (act name) (creations ?files) (eg_next ?g, map view (eg_docs ?g)))) =
      text_at (snd (eg_next ?g, map view (eg_docs ?g))) ++ map_of ?files"
    using create_views [OF inj] by blast+
  have "git_index E (h, t) = index_all_files E (h, t)"
    using assms(1,2) by (auto simp: git_index_def py_bind_def)
  with run(1) made [folded after] show ?thesis
    by (intro exI [of _ h'] exI [of _ u]) (simp add: tidy_view contents_view)
qed

theorem git_full_index_mirrors_witness:
  "\<exists>h' u. git_index full_world (sample_git, []) = (Inr (), h', u) \<and>
    tidy mirror_name (engine_after mirror_name sample_git full_engine u) \<and>
    map (contents (engine_after mirror_name sample_git full_engine u)) [''README.md'', ''src/main.py'', ''docs/a.md'', ''.env''] =
      [Some ''hello'', Some ''hello'', Some ''a'', None]"
proof -
  have walk: "fs_walk full_world (OsWalk ''/tmp/work'') [] = Inr [(''/tmp/work'', [''README.md'', ''.env'', ''lib.so'']),
      (''/tmp/work/.git'', [''config'']), (''/tmp/work/src'', [''main.py''])]"
    by (simp add: full_world_def engine_world_def git_world_reads)
  have files: "[''README.md'', ''src/main.py''] = files_of_walk full_world sample_git ''/tmp/work''
      [(''/tmp/work'', [''README.md'', ''.env'', ''lib.so'']), (''/tmp/work/.git'', [''config'']), (''/tmp/work/src'', [''main.py''])]"
    "last_indexing_had_errors (gh_conditions sample_git) = Inr True"
    "extract_text full_world ''hello'' (get_content_type ''README.md'') (py_lower (snd (splitext ''README.md''))) = Inr ''hello''"
    "extract_text full_world ''hello'' (get_content_type ''src/main.py'') (py_lower (snd (splitext ''src/main.py''))) = Inr ''hello''"
    "contents full_engine ''README.md'' = None" "contents full_engine ''src/main.py'' = None"
    "map (contents full_engine) [''docs/a.md'', ''.env''] = [Some ''a'', None]"
    by code_simp+
  have wd: "gh_work_dir sample_git = Some ''/tmp/work''" by (simp add: sample_git_def)
  have reads: "\<forall>f\<in>set [''README.md'', ''src/main.py'']. \<forall>t. fs_read full_world (ReadFile (path_join ''/tmp/work'' f)) t = Inr ''hello''"
    "\<forall>f\<in>set [''README.md'', ''src/main.py'']. extract_text full_world ''hello'' (get_content_type f) (py_lower (snd (splitext f))) = Inr ''hello''"
    "\<forall>t. \<not> isl (git_head full_world GitHeadCommit t)"
    "\<forall>f\<in>set [''README.md'', ''src/main.py'']. contents (engine_after mirror_name sample_git full_engine []) f = None"
    using files(3-6) by (simp_all add: full_world_def engine_world_def git_world_reads)
  have serves: "serves mirror_name full_world full_engine sample_git"
    unfolding full_world_def by (rule engine_world_serves) (simp add: git_world_def sample_world_def)
  have failed: "truthy (gh_commit sample_git) \<or> \<not> truthy (gh_last_indexed_commit sample_git) \<or> True" by simp
  have distinct: "distinct [''README.md'', ''src/main.py'']" by simp
  have tidy: "tidy mirror_name (engine_after mirror_name sample_git full_engine [])"
    by (simp add: full_engine_def tidy_def mirror_name_def has_path_def doc_path_def)
  obtain h' u where "git_index full_world (sample_git, []) = (Inr (), h', [] @ u)"
    "tidy mirror_name (engine_after mirror_name sample_git full_engine ([] @ u))"
    "contents (engine_after mirror_name sample_git full_engine ([] @ u)) = contents (engine_after mirror_name sample_git full_engine []) ++
      map_of (map (\<lambda>f. (f, ''hello'')) (filter (\<lambda>f. ''hello'' \<noteq> '''') [''README.md'', ''src/main.py'']))"
    using git_full_index_mirrors [OF files(2) failed wd walk files(1) distinct reads(1-3) serves tidy reads(4)] by blast
  then show ?thesis using files(7) by (intro exI [of _ h'] exI [of _ u]) simp
qed

end
