(* ===== verification/Job.thy ===== *)
theory Job
  imports StaticHandler GitHandler KustoHandler
begin

section \<open>The job\<close>

text \<open>
  \<open>jobs/autoindexer/main.py\<close>: \<open>AutoIndexerJob\<close> reads its configuration from the AutoIndexer
  resource, makes the data source handler the configuration asks for, runs it and reports the
  outcome in the resource and in an event; \<open>main\<close> turns the outcome into an exit code.
  \<open>time.time()\<close> is a reading of the clock in microseconds.
\<close>

subsection \<open>The object\<close>

datatype data_source_handler =
    Static static_handler
  | Git git_handler
  | Kusto kusto_handler

text \<open>The attributes a job has before its handler is made; \<open>JNull\<close> stands for \<open>None\<close>.\<close>

record job_settings =
  jb_dry_run :: bool
  jb_access_secret :: "string option"
  jb_autoindexer_name :: string
  jb_namespace :: string
  jb_index_name :: json
  jb_ragengine_endpoint :: "string option"
  jb_datasource_type :: json
  jb_datasource_config :: json
  jb_credentials_config :: json
  jb_k8s_client :: "k8s_client option"

record job = job_settings +
  jb_rag_client :: rag_client
  jb_credential_provider :: "credential_provider option"
  jb_handler :: data_source_handler

definition new_settings :: "job_config \<Rightarrow> bool \<Rightarrow> job_settings" where
  "new_settings cfg dry_run =
     \<lparr>jb_dry_run = dry_run, jb_access_secret = ACCESS_SECRET cfg,
      jb_autoindexer_name = AUTOINDEXER_NAME cfg, jb_namespace = NAMESPACE cfg,
      jb_index_name = JNull, jb_ragengine_endpoint = None, jb_datasource_type = JNull,
      jb_datasource_config = JNull, jb_credentials_config = JNull, jb_k8s_client = None\<rparr>"

text \<open>The duration of two handlers is the part of it within a day.\<close>

lemma duration_within_day: "td_seconds ((86400 + 60) * 1000000) = 60"
  by (simp add: td_seconds_def)

subsection \<open>The configuration in the resource\<close>

definition full_name :: "'a job_settings_scheme \<Rightarrow> string" where
  "full_name s = jb_namespace s @ ''_'' @ jb_autoindexer_name s"

definition status_field :: "json \<Rightarrow> string \<Rightarrow> json \<Rightarrow> exn + json" where
  "status_field crd k d = sum_bind (py_get crd ''status'' (JDict [])) (\<lambda>status. py_get status k d)"

definition git_fields :: "string \<Rightarrow> json \<Rightarrow> json \<Rightarrow> exn + (string \<times> json) list" where
  "git_fields name crd git_config =
     sum_bind (py_get git_config ''repository'' JNull) (\<lambda>repository.
     sum_bind (py_get git_config ''branch'' (JStr ''main'')) (\<lambda>branch.
     sum_bind (py_get git_config ''commit'' JNull) (\<lambda>commit.
     sum_bind (py_get git_config ''paths'' (JList [])) (\<lambda>paths.
     sum_bind (py_get git_config ''excludePaths'' (JList [])) (\<lambda>exclude_paths.
     sum_bind (status_field crd ''lastIndexedCommit'' (JStr '''')) (\<lambda>last_commit.
     sum_bind (status_field crd ''conditions'' (JList [])) (\<lambda>conditions.
       Inr [(''autoindexer_name'', JStr name), (''repository'', repository), (''branch'', branch),
            (''commit'', commit), (''paths'', paths), (''excludePaths'', exclude_paths),
            (''lastIndexedCommit'', last_commit), (''conditions'', conditions)])))))))"

definition static_fields :: "string \<Rightarrow> json \<Rightarrow> json \<Rightarrow> exn + (string \<times> json) list" where
  "static_fields name crd static_config =
     sum_bind (py_get static_config ''urls'' (JList [])) (\<lambda>urls.
     sum_bind (status_field crd ''conditions'' (JList [])) (\<lambda>conditions.
       Inr [(''autoindexer_name'', JStr name), (''urls'', urls), (''conditions'', conditions)]))"

definition database_fields :: "string \<Rightarrow> json \<Rightarrow> json \<Rightarrow> exn + (string \<times> json) list" where
  "database_fields name crd database_config =
     sum_bind (py_get database_config ''language'' JNull) (\<lambda>language.
     sum_bind (py_get database_config ''initialQuery'' JNull) (\<lambda>initial_query.
     sum_bind (py_get database_config ''incrementalQuery'' JNull) (\<lambda>incremental_query.
     sum_bind (status_field crd ''conditions'' (JList [])) (\<lambda>conditions.
       Inr [(''autoindexer_name'', JStr name), (''language'', language), (''initialQuery'', initial_query),
            (''incrementalQuery'', incremental_query), (''conditions'', conditions)]))))"

text \<open>\<open>ds_config.get(k) and ds_config["type"] == ty\<close>: the configuration under \<open>k\<close> when both hold.\<close>

definition source_config :: "json \<Rightarrow> string \<Rightarrow> string \<Rightarrow> exn + json option" where
  "source_config ds_config k ty =
     sum_bind (py_get ds_config k JNull) (\<lambda>c.
       if \<not> truthy c then Inr None
       else sum_bind (py_item ds_config ''type'') (\<lambda>t. Inr (if t = JStr ty then Some c else None)))"

definition source_fields :: "string \<Rightarrow> json \<Rightarrow> json \<Rightarrow> exn + (string \<times> json) list" where
  "source_fields name crd ds_config =
     sum_bind (source_config ds_config ''git'' ''Git'') (\<lambda>git. case git of
        Some git_config \<Rightarrow> git_fields name crd git_config
      | None \<Rightarrow> sum_bind (source_config ds_config ''static'' ''Static'') (\<lambda>static. case static of
          Some static_config \<Rightarrow> static_fields name crd static_config
        | None \<Rightarrow> sum_bind (source_config ds_config ''database'' ''Database'') (\<lambda>database. case database of
            Some database_config \<Rightarrow> database_fields name crd database_config
          | None \<Rightarrow> Inl (ValueError ''Unsupported or missing data source configuration in CRD''))))"

definition apply_index_name :: "json \<Rightarrow> job_settings \<Rightarrow> exn + job_settings" where
  "apply_index_name crd_spec s =
     sum_bind (py_get crd_spec ''indexName'' JNull) (\<lambda>index_name.
       if truthy index_name then Inr (s\<lparr>jb_index_name := index_name\<rparr>)
       else Inl (ValueError ''indexName must be specified via autoindexer CRD''))"

definition endpoint_of :: "json \<Rightarrow> string \<Rightarrow> string" where
  "endpoint_of rag_engine_name ns = ''http://'' @ py_format rag_engine_name @ ''.'' @ ns @ ''.svc.cluster.local:80''"

definition apply_endpoint :: "json \<Rightarrow> job_settings \<Rightarrow> exn + job_settings" where
  "apply_endpoint crd_spec s =
     sum_bind (py_get crd_spec ''ragEngine'' JNull) (\<lambda>rag_engine_name.
       if truthy rag_engine_name
       then Inr (s\<lparr>jb_ragengine_endpoint := Some (endpoint_of rag_engine_name
              (case jb_k8s_client s of None \<Rightarrow> ''default'' | Some k8s \<Rightarrow> kc_namespace k8s))\<rparr>)
       else Inl (ValueError ''ragEngine must be specified via autoindexer CRD''))"

definition apply_data_source :: "json \<Rightarrow> json \<Rightarrow> job_settings \<Rightarrow> exn + job_settings" where
  "apply_data_source crd_config crd_spec s =
     sum_bind (py_get crd_spec ''dataSource'' JNull) (\<lambda>ds_config.
       if \<not> truthy ds_config then Inr s
       else sum_bind (py_get ds_config ''type'' JNull) (\<lambda>ds_type.
         if \<not> truthy ds_type then Inl (ValueError ''dataSource type must be specified via autoindexer CRD'')
         else sum_bind (source_fields (full_name s) crd_config ds_config) (\<lambda>fields.
              sum_bind (py_dict_update (py_or (jb_datasource_config s) (JDict [])) fields) (\<lambda>datasource_config.
                Inr (s\<lparr>jb_datasource_type := ds_type, jb_datasource_config := datasource_config\<rparr>)))))"

text \<open>The type in the credentials is read for the log.\<close>

definition apply_credentials :: "json \<Rightarrow> job_settings \<Rightarrow> exn + job_settings" where
  "apply_credentials crd_spec s =
     sum_bind (py_get crd_spec ''credentials'' JNull) (\<lambda>credentials.
       if \<not> truthy credentials then Inr s
       else sum_bind (py_get credentials ''type'' JNull) (\<lambda>_.
            Inr (s\<lparr>jb_credentials_config := credentials\<rparr>)))"

definition apply_crd_config :: "json \<Rightarrow> job_settings \<Rightarrow> exn + job_settings" where
  "apply_crd_config crd_config s =
     sum_bind (py_get crd_config ''spec'' (JDict [])) (\<lambda>crd_spec.
     sum_bind (apply_index_name crd_spec s) (\<lambda>s.
     sum_bind (apply_endpoint crd_spec s) (\<lambda>s.
     sum_bind (apply_data_source crd_config crd_spec s) (\<lambda>s.
       apply_credentials crd_spec s))))"

subsection \<open>Construction\<close>

definition create_credential_provider :: "env \<Rightarrow> job_settings \<Rightarrow> exn + credential_provider option" where
  "create_credential_provider E s =
     (if \<not> truthy (jb_credentials_config s) then Inr None
      else sum_bind (py_get (jb_credentials_config s) ''type'' JNull) (\<lambda>cred_type.
        if cred_type = JStr ''SecretRef''
        then Inr (case jb_access_secret s of
               None \<Rightarrow> None
             | Some access_secret \<Rightarrow> if access_secret = '''' then None else Some (SecretCredentialProvider access_secret))
        else if cred_type = JStr ''WorkloadIdentity''
        then sum_bind (py_get (jb_credentials_config s) ''workloadIdentityRef'' (JDict [])) (\<lambda>workload_identity_config.
             sum_bind (py_get workload_identity_config ''clientID'' JNull) (\<lambda>client_id.
             sum_bind (py_get workload_identity_config ''tenantID'' JNull) (\<lambda>tenant_id.
               Inr (Some (AzureWorkloadIdentityProvider (new_azure_provider E client_id tenant_id JNull))))))
        else Inr None))"

definition create_data_source_handler ::
  "job_settings \<Rightarrow> rag_client \<Rightarrow> k8s_client \<Rightarrow> credential_provider option \<Rightarrow> exn + data_source_handler" where
  "create_data_source_handler s rag k8s credentials =
     sum_bind (need_str (jb_datasource_type s) ''lower'') (\<lambda>ds_type.
       (let config = py_or (jb_datasource_config s) (JDict [])
        in if py_lower ds_type = ''static''
           then map_sum id Static (new_static_handler (jb_index_name s) config rag k8s credentials)
           else if py_lower ds_type = ''git''
           then map_sum id Git (new_git_handler (jb_index_name s) config rag k8s credentials)
           else if py_lower ds_type = ''database''
           then map_sum id Kusto (new_kusto_handler (jb_index_name s) config rag k8s credentials)
           else Inl (ValueError (''Unsupported data source type: '' @ ds_type))))"

text \<open>The part of the constructor after the resource has been applied.\<close>

definition finish_job :: "env \<Rightarrow> k8s_client \<Rightarrow> job_settings \<Rightarrow> exn + job" where
  "finish_job E k8s s =
     (case jb_ragengine_endpoint s of
        None \<Rightarrow> Inl (ValueError ''RAG engine endpoint must be configured via CRD or environment variables'')
      | Some endpoint \<Rightarrow>
          if endpoint = '''' then Inl (ValueError ''RAG engine endpoint must be configured via CRD or environment variables'')
          else sum_bind (create_credential_provider E s) (\<lambda>provider.
               sum_bind (create_data_source_handler s (new_rag_client endpoint) k8s provider) (\<lambda>handler.
                 Inr (job_settings.extend s (job.fields (new_rag_client endpoint) provider handler)))))"

definition new_job :: "env \<Rightarrow> job_config \<Rightarrow> bool \<Rightarrow> ('s, job) py" where
  "new_job E cfg dry_run =
     py_bind (new_k8s_client E (NAMESPACE cfg) (AUTOINDEXER_NAME cfg)) (\<lambda>k8s.
     py_bind (get_autoindexer E k8s) (\<lambda>crd_config.
     py_lift
       (let s = (new_settings cfg dry_run)\<lparr>jb_k8s_client := Some k8s\<rparr>
        in sum_bind (if truthy crd_config then apply_crd_config crd_config s else Inr s) (finish_job E k8s))))"

subsection \<open>The handler\<close>

text \<open>The two methods of the abstract class, on the handler the job has.\<close>

definition handler_update_index :: "env \<Rightarrow> (data_source_handler, string list) py" where
  "handler_update_index E =
     py_bind (py_self (\<lambda>d. d)) (\<lambda>d. case d of
        Static h \<Rightarrow> py_on (\<lambda>_. h) (\<lambda>h' _. Static h') (static_update_index E)
      | Git h \<Rightarrow> py_on (\<lambda>_. h) (\<lambda>h' _. Git h') (git_update_index E)
      | Kusto h \<Rightarrow> py_on (\<lambda>_. h) (\<lambda>h' _. Kusto h') (kusto_update_index E))"

definition handler_update_autoindexer_status :: "env \<Rightarrow> (data_source_handler, unit) py" where
  "handler_update_autoindexer_status E =
     py_bind (py_self (\<lambda>d. d)) (\<lambda>d. case d of
        Static h \<Rightarrow> py_on (\<lambda>_. h) (\<lambda>h' _. Static h') (static_update_autoindexer_status E)
      | Git h \<Rightarrow> py_on (\<lambda>_. h) (\<lambda>h' _. Git h') (git_update_autoindexer_status E)
      | Kusto h \<Rightarrow> py_on (\<lambda>_. h) (\<lambda>h' _. Kusto h') (kusto_update_autoindexer_status E))"

definition set_handler :: "data_source_handler \<Rightarrow> job \<Rightarrow> job" where
  "set_handler d j = j\<lparr>jb_handler := d\<rparr>"

definition job_update_index :: "env \<Rightarrow> (job, string list) py" where
  "job_update_index E =
     py_try (py_on jb_handler set_handler (handler_update_index E))
       (\<lambda>e. case e of
          DataSourceError m \<Rightarrow> py_return [''Data source error: '' @ m]
        | _ \<Rightarrow> py_return [''Unexpected error during indexing: '' @ exn_str e])"

definition job_update_autoindexer_status :: "env \<Rightarrow> (job, unit) py" where
  "job_update_autoindexer_status E =
     py_try (py_on jb_handler set_handler (handler_update_autoindexer_status E)) (\<lambda>e. py_return ())"

subsection \<open>Reporting\<close>

text \<open>What each report does: nothing without a client, and a failure is only logged.\<close>

definition with_client :: "(k8s_client \<Rightarrow> (job, bool) py) \<Rightarrow> (job, unit) py" where
  "with_client f =
     py_bind (py_self jb_k8s_client) (\<lambda>client. case client of
        None \<Rightarrow> py_return ()
      | Some k8s \<Rightarrow> py_try (py_bind (f k8s) (\<lambda>ok. py_return ())) (\<lambda>e. py_return ()))"

definition job_update_status_condition :: "env \<Rightarrow> string \<Rightarrow> string \<Rightarrow> string \<Rightarrow> string \<Rightarrow> (job, unit) py" where
  "job_update_status_condition E condition_type status reason message =
     with_client (\<lambda>k8s. add_status_condition E k8s condition_type status reason message)"

text \<open>The client's method takes one argument and is given two.\<close>

definition job_update_indexing_progress :: "env \<Rightarrow> int \<Rightarrow> int \<Rightarrow> (job, unit) py" where
  "job_update_indexing_progress E total_documents processed_documents =
     with_client (\<lambda>k8s. py_raise (TypeError
       ''AutoIndexerK8sClient.update_indexing_progress() takes 2 positional arguments but 3 were given''))"

definition job_update_indexing_completion :: "env \<Rightarrow> bool \<Rightarrow> int \<Rightarrow> int \<Rightarrow> json \<Rightarrow> (job, unit) py" where
  "job_update_indexing_completion E success duration_seconds document_count commit_hash =
     with_client (\<lambda>k8s. update_indexing_completion E k8s success duration_seconds document_count commit_hash)"

definition error_summary :: "string list \<Rightarrow> string" where
  "error_summary errors =
     (if errors = [] then ''''
      else '' Errors: '' @ py_join ''; '' (take 3 errors) @
        (if 3 < length errors then '' (and '' @ nat_str (length errors - 3) @ '' more)'' else ''''))"

definition completion_message :: "bool \<Rightarrow> int \<Rightarrow> int \<Rightarrow> string list \<Rightarrow> string" where
  "completion_message success document_count duration_seconds errors =
     (if success
      then ''AutoIndexer job completed successfully. Processed '' @ int_str document_count @ '' documents in '' @
        int_str duration_seconds @ '' seconds.''
      else ''AutoIndexer job failed after '' @ int_str duration_seconds @ '' seconds. Documents indexed: '' @
        int_str document_count @ ''.'' @ error_summary errors)"

text \<open>\<open>errors\<close> is \<open>[]\<close> also for \<open>None\<close>: the code tests its truth only.\<close>

definition job_create_completion_event :: "env \<Rightarrow> bool \<Rightarrow> int \<Rightarrow> int \<Rightarrow> string list \<Rightarrow> (job, unit) py" where
  "job_create_completion_event E success document_count duration_seconds errors =
     with_client (\<lambda>k8s. create_event E k8s
       (if success then ''IndexingCompleted'' else ''IndexingFailed'')
       (completion_message success document_count duration_seconds errors)
       (if success then ''Normal'' else ''Warning''))"

text \<open>The names in the answer to \<open>list_indexes\<close>; whether the index is among them is only logged.\<close>

fun index_names :: "json list \<Rightarrow> exn + json list" where
  "index_names [] = Inr []"
| "index_names (idx # rest) =
     sum_bind (py_get idx ''name'' (JStr '''')) (\<lambda>n. sum_bind (index_names rest) (\<lambda>ns. Inr (n # ns)))"

definition job_ensure_index_exists :: "env \<Rightarrow> (job, unit) py" where
  "job_ensure_index_exists E =
     py_bind (py_self jb_rag_client) (\<lambda>rag.
       py_try
         (py_bind (list_indexes E rag) (\<lambda>indexes_response.
          py_bind (py_lift (sum_bind (py_get indexes_response ''indexes'' (JList [])) py_iter)) (\<lambda>indexes.
          py_bind (py_lift (index_names indexes)) (\<lambda>existing_indexes. py_return ()))))
         (\<lambda>e. py_return ()))"

definition get_required_env :: "env \<Rightarrow> string \<Rightarrow> exn + string" where
  "get_required_env E key =
     (let missing = Inl (ValueError (''Required environment variable '' @ key @ '' is not set''))
      in case getenv E key of None \<Rightarrow> missing | Some value \<Rightarrow> if value = '''' then missing else Inr value)"

subsection \<open>The run\<close>

text \<open>\<open>None\<close> when the listing failed.\<close>

definition job_document_count :: "env \<Rightarrow> (job, int option) py" where
  "job_document_count E =
     py_bind (py_self (\<lambda>j. j)) (\<lambda>j.
       py_try
         (py_bind (list_documents E (jb_rag_client j) (jb_index_name j)
             (JDict [(''autoindexer'', JStr (full_name j))]) 1 0) (\<lambda>resp.
          py_bind (py_lift (total_items resp)) (\<lambda>n. py_return (Some n))))
         (\<lambda>e. py_return None))"

definition count_or_zero :: "int option \<Rightarrow> int" where
  "count_or_zero n = (case n of None \<Rightarrow> 0 | Some n \<Rightarrow> n)"

text \<open>The end of the \<open>try\<close> block, once the errors and the count are known.\<close>

definition conclude :: "env \<Rightarrow> string list \<Rightarrow> int \<Rightarrow> int \<Rightarrow> (job, bool) py" where
  "conclude E errors duration_seconds document_count =
     (if errors \<noteq> []
      then py_seq (job_update_status_condition E ''AutoIndexerError'' ''True'' ''IndexingErrors''
             (''Indexing completed with '' @ nat_str (length errors) @ '' errors''))
          (py_seq (job_update_indexing_completion E False duration_seconds document_count JNull)
          (py_seq (job_create_completion_event E False document_count duration_seconds errors)
             (py_return False)))
      else py_seq (job_update_status_condition E ''AutoIndexerIndexing'' ''False'' ''IndexingCompleted''
             ''Document indexing process completed successfully'')
          (py_seq (job_update_indexing_completion E True duration_seconds document_count JNull)
          (py_seq (job_create_completion_event E True document_count duration_seconds [])
             (py_return True))))"

definition run_indexing :: "env \<Rightarrow> int \<Rightarrow> (job, bool) py" where
  "run_indexing E start_time =
     py_seq (job_update_status_condition E ''AutoIndexerIndexing'' ''True'' ''IndexingStarted''
        ''Document indexing process has started'')
     (py_bind (job_update_index E) (\<lambda>errors.
      py_seq (job_update_autoindexer_status E)
      (py_bind (now E) (\<lambda>end_time.
       py_bind (job_document_count E) (\<lambda>n.
         conclude E errors (trunc_seconds (end_time - start_time)) (count_or_zero n))))))"

text \<open>The \<open>except\<close> clause. When the listing fails, the inner clause has unbound \<open>e\<close>, and reading it for
  the event raises.\<close>

definition run_failed :: "env \<Rightarrow> int \<Rightarrow> exn \<Rightarrow> (job, bool) py" where
  "run_failed E start_time e =
     py_bind (now E) (\<lambda>end_time.
     py_seq (job_update_status_condition E ''AutoIndexerError'' ''True'' ''ServiceError''
        (''AutoIndexer job failed: '' @ exn_str e))
     (py_bind (job_document_count E) (\<lambda>n.
      py_seq (job_update_indexing_completion E False (trunc_seconds (end_time - start_time)) (count_or_zero n) JNull)
        (if n = None
         then py_raise (OtherException (''cannot access local variable '' @ py_repr ''e'' @
           '' where it is not associated with a value''))
         else py_seq (job_create_completion_event E False (count_or_zero n) (trunc_seconds (end_time - start_time)) [exn_str e])
           (py_return False)))))"

definition job_run :: "env \<Rightarrow> (job, bool) py" where
  "job_run E = py_bind (now E) (\<lambda>start_time. py_try (run_indexing E start_time) (run_failed E start_time))"

subsection \<open>main\<close>

text \<open>The exit code. The configuration is read when the module is imported: an exception there ends the
  interpreter with code 1, as does one in the constructor.\<close>

definition main_run :: "env \<Rightarrow> job_config \<Rightarrow> bool \<Rightarrow> (unit, int) py" where
  "main_run E cfg dry_run =
     py_try
       (py_bind (new_job E cfg dry_run) (\<lambda>job.
        py_bind (py_on (\<lambda>_. job) (\<lambda>_ s. s) (job_run E)) (\<lambda>success.
          py_return (if success then 0 else 1))))
       (\<lambda>e. py_return 1)"

definition main :: "env \<Rightarrow> bool \<Rightarrow> (unit, int) py" where
  "main E dry_run = (case read_config E of Inl e \<Rightarrow> py_return 1 | Inr cfg \<Rightarrow> main_run E cfg dry_run)"

end
