(* ===== verification/JobRun.thy ===== *)
theory JobRun
  imports Job
begin

section \<open>The run of a job\<close>

text \<open>
  What the definitions of the theory \<open>Job\<close> do. The handler of a job satisfies the contract \<open>data_source\<close>,
  because each of the three classes does; the run follows the phases of the theory \<open>Protocol\<close>; and before
  a server that keeps what is written, the resource at the end of a run and the exit code say how it
  went.
\<close>

subsection \<open>The handler of a job as a data source\<close>

fun handler_client :: "data_source_handler \<Rightarrow> k8s_client" where
  "handler_client (Static h) = sh_autoindexer_client h"
| "handler_client (Git h) = gh_autoindexer_client h"
| "handler_client (Kusto h) = kh_autoindexer_client h"

fun handler_fresh :: "data_source_handler \<Rightarrow> bool" where
  "handler_fresh (Kusto h) \<longleftrightarrow> kh_errors h = []"
| "handler_fresh _ \<longleftrightarrow> True"

fun handler_recorded :: "data_source_handler \<Rightarrow> string list option" where
  "handler_recorded (Static h) = static_recorded h"
| "handler_recorded (Git h) = Some (gh_errors h)"
| "handler_recorded (Kusto h) = Some (kh_errors h)"

text \<open>A method on a handler is the method of its class.\<close>

lemma handler_update_index_run:
  "handler_update_index E (Static h, t) = map_prod id (map_prod Static id) (static_update_index E (h, t))"
  "handler_update_index E (Git g, t) = map_prod id (map_prod Git id) (git_update_index E (g, t))"
  "handler_update_index E (Kusto k, t) = map_prod id (map_prod Kusto id) (kusto_update_index E (k, t))"
  by (simp_all add: handler_update_index_def py_bind_def py_on_def split: prod.split)

lemma handler_status_run:
  "handler_update_autoindexer_status E (Static h, t) =
    map_prod id (map_prod Static id) (static_update_autoindexer_status E (h, t))"
  "handler_update_autoindexer_status E (Git g, t) =
    map_prod id (map_prod Git id) (git_update_autoindexer_status E (g, t))"
  "handler_update_autoindexer_status E (Kusto k, t) =
    map_prod id (map_prod Kusto id) (kusto_update_autoindexer_status E (k, t))"
  by (simp_all add: handler_update_autoindexer_status_def py_bind_def py_on_def split: prod.split)

lemma handler_status_calls:
  "new_calls (handler_update_autoindexer_status E) (Static h, t) = new_calls (static_update_autoindexer_status E) (h, t)"
  "new_calls (handler_update_autoindexer_status E) (Git g, t) = new_calls (git_update_autoindexer_status E) (g, t)"
  "new_calls (handler_update_autoindexer_status E) (Kusto k, t) = new_calls (kusto_update_autoindexer_status E) (k, t)"
  by (simp_all add: new_calls_def handler_status_run)

interpretation job_source: data_source handler_update_index handler_update_autoindexer_status
  handler_client handler_fresh handler_recorded
proof
  fix E :: env and d d' :: data_source_handler and t t' :: trace and es :: "string list" and crd :: json
  show "never_raises (handler_update_index E)"
    unfolding handler_update_index_def
    by (intro total_intros)
      (auto intro: never_raises_on static_source.upd_total git_source.upd_total kusto_source.upd_total
        split: data_source_handler.split)
  show "emits (\<lambda>c. \<not> is_k8s_write c) (handler_update_index E)"
    unfolding handler_update_index_def
    by (intro emits_bind emits_self)
      (auto intro: emits_on static_source.upd_emits git_source.upd_emits kusto_source.upd_emits
        split: data_source_handler.split)
  have "handler_client (fst (snd (handler_update_index E (d, t)))) = handler_client d" for d t
    using static_source.upd_client [of E] git_source.upd_client [of E] kusto_source.upd_client [of E]
    by (cases d) (simp_all add: handler_update_index_run keeps_def)
  then show "keeps handler_client (handler_update_index E)" by (simp add: keeps_def)
  show "handler_recorded d' = Some []" if d: "handler_fresh d" "handler_update_index E (d, t) = (Inr [], d', t')"
  proof (cases d)
    case (Static h)
    with d(2) obtain h' where "static_update_index E (h, t) = (Inr [], h', t')" "d' = Static h'"
      by (auto simp: handler_update_index_run map_prod_def split: prod.splits)
    with static_source.upd_recorded show ?thesis by simp
  next
    case (Git g)
    with d(2) obtain g' where "git_update_index E (g, t) = (Inr [], g', t')" "d' = Git g'"
      by (auto simp: handler_update_index_run map_prod_def split: prod.splits)
    with git_source.upd_recorded show ?thesis by simp
  next
    case (Kusto k)
    with d(2) obtain k' where k': "kusto_update_index E (k, t) = (Inr [], k', t')" "d' = Kusto k'"
      by (auto simp: handler_update_index_run map_prod_def split: prod.splits)
    have "kh_errors k = []" using d(1) Kusto by simp
    from kusto_source.upd_recorded [OF this k'(1)] k'(2) show ?thesis by simp
  qed
  show "reads_then P (handler_update_autoindexer_status E)" if P: "\<And>p b. P (K8sPatchStatus p b)" for P
    unfolding handler_update_autoindexer_status_def
    by (intro reads_then_bind emits_self, split data_source_handler.split,
        intro conjI allI impI reads_then_on static_source.stat_reads git_source.stat_reads kusto_source.stat_reads P)
  show "reported (handler_client d) es crd (new_calls (handler_update_autoindexer_status E) (d, t))"
    if "handler_recorded d = Some es" "kc_name (handler_client d) \<noteq> ''''"
      "resource_stays E (handler_client d) t crd" "wf_resource crd" "jget crd ''status'' \<noteq> None"
    using that static_source.stat_sends git_source.stat_sends kusto_source.stat_sends
    by (cases d) (simp_all add: handler_status_calls)
  show "list_all (\<lambda>c. \<not> is_k8s_write c) (new_calls (handler_update_autoindexer_status E) (d, t))"
    if "handler_recorded d = None"
    using that static_source.stat_skips by (cases d) (simp_all add: handler_status_calls)
qed

subsection \<open>The reports follow the phases\<close>

lemma with_client_reads:
  "(\<And>k8s. reads_then P (f k8s)) \<Longrightarrow> reads_then P (with_client f)"
  unfolding with_client_def
  by (intro reads_then_bind emits_self)
    (auto intro: reads_then_try reads_then_bind_silent silent_basic reads_then_silent split: option.split)

lemma job_reports_read:
  "(\<And>p b. P (K8sPatchStatus p b)) \<Longrightarrow> reads_then P (job_update_status_condition E ty st r m)"
  "(\<And>p b. P (K8sPatchStatus p b)) \<Longrightarrow> reads_then P (job_update_autoindexer_status E)"
  "(\<And>p b. P (K8sPatchStatus p b)) \<Longrightarrow> reads_then P (job_update_indexing_completion E ok d n h)"
  "(\<And>n e. P (K8sCreateEvent n e)) \<Longrightarrow> reads_then P (job_create_completion_event E ok n d errors)"
  unfolding job_update_status_condition_def job_update_autoindexer_status_def
    job_update_indexing_completion_def job_create_completion_event_def
  by (intro with_client_reads add_status_condition_reads update_indexing_completion_reads create_event_reads
      reads_then_try reads_then_on job_source.stat_reads silent_basic; assumption)+

subsection \<open>Nothing in a run raises\<close>

lemma with_client_total [total_intros]: "never_raises (with_client f)"
  unfolding with_client_def by (intro total_intros)

lemma job_reports_total [total_intros]:
  "never_raises (job_update_status_condition E ty st r m)"
  "never_raises (job_update_autoindexer_status E)"
  "never_raises (job_update_indexing_completion E ok d n h)"
  "never_raises (job_create_completion_event E ok n d errors)"
  unfolding job_update_status_condition_def job_update_autoindexer_status_def
    job_update_indexing_completion_def job_create_completion_event_def
  by (intro total_intros)+

lemma job_update_index_total [total_intros]: "never_raises (job_update_index E)"
proof -
  have "never_raises (case e of DataSourceError m \<Rightarrow> py_return [''Data source error: '' @ m]
        | _ \<Rightarrow> py_return [''Unexpected error during indexing: '' @ exn_str e])" for e
    by (cases e) (simp_all add: total_intros)
  then show ?thesis unfolding job_update_index_def by (intro total_intros)
qed

lemma job_document_count_total [total_intros]: "never_raises (job_document_count E)"
  unfolding job_document_count_def by (intro total_intros)

lemma conclude_total [total_intros]: "never_raises (conclude E errors d n)"
  unfolding conclude_def by (intro total_intros)

lemma run_indexing_total [total_intros]: "never_raises (run_indexing E start)"
  unfolding run_indexing_def by (intro total_intros)

lemma job_run_eq: "job_run E = py_bind (now E) (run_indexing E)"
  unfolding job_run_def py_try_total [OF run_indexing_total] ..

lemma job_run_total: "never_raises (job_run E)"
  unfolding job_run_eq by (intro total_intros)

subsection \<open>The run follows the phases\<close>

lemma job_update_index_follows: "follows Indexing (job_update_index E) Reporting"
proof -
  have "emits P (case e of DataSourceError m \<Rightarrow> py_return [''Data source error: '' @ m]
        | _ \<Rightarrow> py_return [''Unexpected error during indexing: '' @ exn_str e])" for e and P
    by (cases e) (simp_all add: emits_return)
  then have "emits (allowed Indexing) (job_update_index E)"
    unfolding job_update_index_def
    by (intro emits_try emits_on emits_mono [OF job_source.upd_emits]) (simp_all add: allowed_def)
  from follows_next [OF follows_emits [OF this]] show ?thesis by simp
qed

lemma follows_if: "(b \<Longrightarrow> follows p m q) \<Longrightarrow> (\<not> b \<Longrightarrow> follows p n q) \<Longrightarrow> follows p (if b then m else n) q"
  by simp

lemma conclude_follows: "follows Concluding (conclude E errors d n) Finished"
proof -
  have cond: "follows Concluding (job_update_status_condition E ty st r m) Counting" for ty st r m
    using follows_reads_then [OF job_reports_read(1), of Concluding] by simp
  have completion: "follows Counting (job_update_indexing_completion E ok d n h) Signalling" for ok h
    using follows_reads_then [OF job_reports_read(3), of Counting] by simp
  have event: "follows Signalling (job_create_completion_event E ok n d es) Finished" for ok es
    using follows_reads_then [OF job_reports_read(4), of Signalling] by simp
  have ret: "follows Finished (py_return b) Finished" for b
    by (intro follows_emits emits_return)
  show ?thesis
    unfolding conclude_def
    by (intro follows_if follows_bind [OF cond] follows_bind [OF completion] follows_bind [OF event] ret job_reports_total)
qed

text \<open>C4: The order of the writes. Whatever the services answer, a run announces, indexes, reports,
  concludes, counts and signals in this order: it writes at most four patches and one
  event, nothing after the event, and sends documents to the engine only after the announcement and
  before every other patch.\<close>

theorem job_run_follows_protocol:
  "phases Announcing (new_calls (job_run E) (j, t)) Finished \<and>
   length (patched (new_calls (job_run E) (j, t))) \<le> 4 \<and>
   length (created_events (new_calls (job_run E) (j, t))) \<le> 1"
proof -
  have now: "follows p (now E) p" for p
    by (intro follows_emits now_emits) (simp add: allowed_def)
  have announce: "follows Announcing (job_update_status_condition E ty st r m) Indexing" for ty st r m
    using follows_reads_then [OF job_reports_read(1), of Announcing] by simp
  have report: "follows Reporting (job_update_autoindexer_status E) Concluding"
    using follows_reads_then [OF job_reports_read(2), of Reporting] by simp
  have count: "follows Concluding (job_document_count E) Concluding"
    unfolding job_document_count_def
    by (intro follows_emits emits_intros) (simp_all add: allowed_def)
  have "follows Announcing (job_run E) Finished"
    unfolding job_run_eq run_indexing_def
    by (intro follows_bind [OF now] follows_bind [OF announce] follows_bind [OF job_update_index_follows]
        follows_bind [OF report] follows_bind [OF count] conclude_follows now_total job_reports_total
        job_update_index_total job_document_count_total)
  from followsD [OF this] have run: "phases Announcing (new_calls (job_run E) (j, t)) Finished" .
  from phases_patches [OF run] phases_events [OF run] run show ?thesis by simp
qed

subsection \<open>The resource during a run\<close>

text \<open>A job with a client, before a server that keeps the resource.\<close>

definition connected :: "env \<Rightarrow> json \<Rightarrow> k8s_client \<Rightarrow> job \<Rightarrow> bool" where
  "connected E crd k8s j \<longleftrightarrow>
     keeps_resource E k8s crd \<and> kc_name k8s \<noteq> '''' \<and> jb_k8s_client j = Some k8s"

text \<open>A resource that is well-formed and has a status.\<close>

abbreviation has_status :: "json \<Rightarrow> bool" where
  "has_status crd \<equiv> wf_resource crd \<and> jget crd ''status'' \<noteq> None"

abbreviation condition_is :: "json \<Rightarrow> string \<Rightarrow> string \<Rightarrow> bool" where
  "condition_is crd ty st \<equiv>
     \<exists>c. lookup_condition ty (resource_conditions crd) = Some c \<and> jget c ''status'' = Some (JStr st)"

definition counted :: "json \<Rightarrow> string \<Rightarrow> int" where
  "counted crd f = (case jget (resource_status crd) f of Some (JInt n) \<Rightarrow> n | _ \<Rightarrow> 0)"

definition counters_ok :: "json \<Rightarrow> bool" where
  "counters_ok crd \<longleftrightarrow>
     list_all (\<lambda>f. case jget (resource_status crd) f of None \<Rightarrow> True | Some (JInt n) \<Rightarrow> True | _ \<Rightarrow> False)
       [''successfulIndexingCount'', ''errorIndexingCount'']"

lemma with_client_run:
  assumes "jb_k8s_client j = Some k8s" and "keeps_self (f k8s)" and "reads_then (\<lambda>_. True) (f k8s)"
  shows "with_client f (j, t) = (Inr (), j, t @ new_calls (f k8s) (j, t))"
proof -
  obtain r j' t' where run: "f k8s (j, t) = (r, j', t')" by (metis prod.collapse)
  have "j' = j" using keepsD [OF assms(2) run] by simp
  moreover have "t' = t @ new_calls (f k8s) (j, t)"
    using assms(3) run unfolding reads_then_def new_calls_def by (metis append_eq_conv_conj snd_conv)
  ultimately show ?thesis
    using run assms(1) by (cases r) (simp_all add: with_client_def py_bind_def py_try_def)
qed

lemma condition_step:
  assumes "connected E crd k8s j" and "wf_resource (last_patched crd t)"
  obtains u where "job_update_status_condition E ty st r m (j, t) = (Inr (), j, t @ u)"
    and "created_events u = []" and "has_status (last_patched crd (t @ u))"
    and "condition_is (last_patched crd (t @ u)) ty st"
    and "\<forall>ty'. ty' \<noteq> ty \<longrightarrow> lookup_condition ty' (resource_conditions (last_patched crd (t @ u))) =
      lookup_condition ty' (resource_conditions (last_patched crd t))"
    and "\<forall>k. k \<noteq> ''conditions'' \<longrightarrow>
      jget (resource_status (last_patched crd (t @ u))) k = jget (resource_status (last_patched crd t)) k"
    and "\<forall>k. k \<noteq> ''status'' \<longrightarrow> jget (last_patched crd (t @ u)) k = jget (last_patched crd t) k"
proof -
  have c: "keeps_resource E k8s crd" "kc_name k8s \<noteq> ''''" "jb_k8s_client j = Some k8s"
    using assms(1) by (simp_all add: connected_def)
  let ?u = "new_calls (add_status_condition E k8s ty st r m) (j, t)"
  have reads: "reads_then (\<lambda>_. True) (add_status_condition E k8s ty st r m)" by (rule add_status_condition_reads) simp
  have run: "job_update_status_condition E ty st r m (j, t) = (Inr (), j, t @ ?u)"
    unfolding job_update_status_condition_def
    by (rule with_client_run [where f = "\<lambda>k8s. add_status_condition E k8s ty st r m", OF c(3) k8s_keeps(2) reads])
  obtain body new v where body: "sends_patch k8s body ?u" "wf_resource body" "jget body ''status'' \<noteq> None"
    "lookup_condition ty (resource_conditions body) = Some new" "jget new ''status'' = Some (JStr st)"
    "\<forall>ty'. ty' \<noteq> ty \<longrightarrow> lookup_condition ty' (resource_conditions body) =
      lookup_condition ty' (resource_conditions (last_patched crd t))"
    "\<forall>k. k \<noteq> ''status'' \<longrightarrow> jget body k = jget (last_patched crd t) k"
    "\<forall>k. k \<noteq> ''conditions'' \<longrightarrow> jget (resource_status body) k = jget (resource_status (last_patched crd t)) k"
    by (rule add_status_condition_sends [OF c(2) keeps_resource_get [OF c(1)] assms(2), of ty st r m j])
  have now: "last_patched crd (t @ ?u) = body" by (rule sends_patch_last [OF body(1)])
  show ?thesis
    by (rule that [OF run]) (use body sends_patchD [OF body(1)] in \<open>simp_all add: now\<close>)
qed

lemma completion_step:
  assumes "connected E crd k8s j" and "wf_resource (last_patched crd t)" and "counters_ok (last_patched crd t)"
    and "counter = (if ok then ''successfulIndexingCount'' else ''errorIndexingCount'')"
  obtains u where "job_update_indexing_completion E ok d n JNull (j, t) = (Inr (), j, t @ u)"
    and "created_events u = []" and "has_status (last_patched crd (t @ u))" and "counters_ok (last_patched crd (t @ u))"
    and "counted (last_patched crd (t @ u)) counter = counted (last_patched crd t) counter + 1"
    and "\<forall>k. k \<notin> {counter, ''numOfDocumentInIndex'', ''lastIndexingDurationSeconds'', ''lastIndexingTimestamp''} \<longrightarrow>
      jget (resource_status (last_patched crd (t @ u))) k = jget (resource_status (last_patched crd t)) k"
    and "\<forall>k. k \<noteq> ''status'' \<longrightarrow> jget (last_patched crd (t @ u)) k = jget (last_patched crd t) k"
proof -
  have c: "keeps_resource E k8s crd" "kc_name k8s \<noteq> ''''" "jb_k8s_client j = Some k8s"
    using assms(1) by (simp_all add: connected_def)
  let ?u = "new_calls (update_indexing_completion E k8s ok d n JNull) (j, t)"
  let ?old = "jget (resource_status (last_patched crd t)) counter"
  have reads: "reads_then (\<lambda>_. True) (update_indexing_completion E k8s ok d n JNull)"
    by (rule update_indexing_completion_reads) simp
  have run: "job_update_indexing_completion E ok d n JNull (j, t) = (Inr (), j, t @ ?u)"
    unfolding job_update_indexing_completion_def
    by (rule with_client_run [where f = "\<lambda>k8s. update_indexing_completion E k8s ok d n JNull", OF c(3) k8s_keeps(3) reads])
  have get: "k8s_get E (K8sGet (object_path k8s)) (t @ [ClockNow]) = Inr (last_patched crd t)"
    "k8s_get E (K8sGet (object_path k8s)) (t @ [ClockNow, K8sGet (object_path k8s)]) = Inr (last_patched crd t)"
    using last_patched_reads [of "[ClockNow]" crd t] last_patched_reads [of "[ClockNow, K8sGet (object_path k8s)]" crd t]
    by (simp_all add: keeps_resource_get [OF c(1)])
  have old: "?old = None \<and> counted (last_patched crd t) counter = 0 \<or> ?old = Some (JInt (counted (last_patched crd t) counter))"
    using assms(3,4) by (auto simp: counters_ok_def counted_def split: option.splits if_splits json.splits)
  obtain body where body: "sends_patch k8s body ?u" "wf_resource body" "jget body ''status'' \<noteq> None"
    "jget (resource_status body) counter = Some (JInt (counted (last_patched crd t) counter + 1))"
    "\<forall>k. k \<notin> {counter, ''numOfDocumentInIndex'', ''lastIndexingDurationSeconds'', ''lastIndexingTimestamp''} \<longrightarrow>
      jget (resource_status body) k = jget (resource_status (last_patched crd t)) k"
    "\<forall>k. k \<noteq> ''status'' \<longrightarrow> jget body k = jget (last_patched crd t) k"
    by (rule update_indexing_completion_sends [OF c(2) get assms(2,4) refl old, of d n j])
  have now: "last_patched crd (t @ ?u) = body" by (rule sends_patch_last [OF body(1)])
  have count: "counted body counter = counted (last_patched crd t) counter + 1"
    using body(4) by (simp add: counted_def)
  have counters: "counters_ok body"
    using assms(3,4) body(4,5) by (auto simp: counters_ok_def split: if_splits)
  show ?thesis
    by (rule that [OF run]) (use body count counters sends_patchD [OF body(1)] in \<open>simp_all add: now\<close>)
qed

lemma build_event_fields:
  "ev_reason (build_event c ref us r m ty) = r" "ev_message (build_event c ref us r m ty) = m"
  "ev_type (build_event c ref us r m ty) = ty"
  by (simp_all add: build_event_def)

lemma event_step:
  assumes "connected E crd k8s j" and "wf_resource (last_patched crd t)"
  obtains u ev where "job_create_completion_event E ok n d es (j, t) = (Inr (), j, t @ u)"
    and "patched u = []" and "created_events u = [ev]"
    and "ev_reason ev = (if ok then ''IndexingCompleted'' else ''IndexingFailed'')"
    and "ev_type ev = (if ok then ''Normal'' else ''Warning'')"
    and "ev_message ev = completion_message ok n d es"
proof -
  have c: "keeps_resource E k8s crd" "kc_name k8s \<noteq> ''''" "jb_k8s_client j = Some k8s"
    using assms(1) by (simp_all add: connected_def)
  let ?r = "if ok then ''IndexingCompleted'' else ''IndexingFailed''"
  let ?ty = "if ok then ''Normal'' else ''Warning''"
  let ?m = "completion_message ok n d es"
  let ?crd = "last_patched crd t"
  have d: "is_dict ?crd" "truthy ?crd" "case jget ?crd ''metadata'' of None \<Rightarrow> True | Some m \<Rightarrow> is_dict m"
    using assms(2) by (simp_all add: wf_resource_def)
  obtain ref where ref: "create_object_reference k8s ?crd = Inr ref"
    using d(1,3) by (auto simp: create_object_reference_def split: option.splits)
  let ?ev = "build_event k8s ref (clock_now E ClockNow (t @ [K8sGet (object_path k8s)])) ?r ?m ?ty"
  have calls: "new_calls (create_event E k8s ?r ?m ?ty) (j, t) =
      [K8sGet (object_path k8s), ClockNow, K8sCreateEvent (kc_namespace k8s) ?ev]"
    using c(2) d(2) ref
    by (cases "k8s_create_event E (K8sCreateEvent (kc_namespace k8s) ?ev) (t @ [K8sGet (object_path k8s), ClockNow])")
      (simp_all add: create_event_def new_calls_def get_autoindexer_Inr keeps_resource_get [OF c(1)] py_bind_def py_try_def now_def)
  have reads: "reads_then (\<lambda>_. True) (create_event E k8s ?r ?m ?ty)" by (rule create_event_reads) simp
  have run: "job_create_completion_event E ok n d es (j, t) =
      (Inr (), j, t @ [K8sGet (object_path k8s), ClockNow, K8sCreateEvent (kc_namespace k8s) ?ev])"
    unfolding job_create_completion_event_def
    using with_client_run [where f = "\<lambda>k8s. create_event E k8s ?r ?m ?ty", OF c(3) k8s_keeps(4) reads, of t]
    unfolding calls .
  show ?thesis
    by (rule that [OF run]) (rule build_event_fields | simp)+
qed

lemma conclude_step:
  assumes c: "connected E crd k8s j" and wf: "wf_resource (last_patched crd t)" and "counters_ok (last_patched crd t)"
    and counter: "counter = (if es = [] then ''successfulIndexingCount'' else ''errorIndexingCount'')"
    and ty: "ty = (if es = [] then ''AutoIndexerIndexing'' else ''AutoIndexerError'')"
  obtains u ev where "conclude E es d n (j, t) = (Inr (es = []), j, t @ u)"
    and "created_events u = [ev]" and "ev_reason ev = (if es = [] then ''IndexingCompleted'' else ''IndexingFailed'')"
    and "ev_message ev = completion_message (es = []) n d es"
    and "wf_resource (last_patched crd (t @ u))" and "counters_ok (last_patched crd (t @ u))"
    and "condition_is (last_patched crd (t @ u)) ty (if es = [] then ''False'' else ''True'')"
    and "\<forall>ty'. ty' \<noteq> ty \<longrightarrow> lookup_condition ty' (resource_conditions (last_patched crd (t @ u))) =
      lookup_condition ty' (resource_conditions (last_patched crd t))"
    and "counted (last_patched crd (t @ u)) counter = counted (last_patched crd t) counter + 1"
    and "\<forall>k. k \<notin> base_fields \<union> {counter} \<longrightarrow>
      jget (resource_status (last_patched crd (t @ u))) k = jget (resource_status (last_patched crd t)) k"
    and "\<forall>k. k \<noteq> ''status'' \<longrightarrow> jget (last_patched crd (t @ u)) k = jget (last_patched crd t) k"
proof -
  let ?st = "if es = [] then ''False'' else ''True''"
  let ?r = "if es = [] then ''IndexingCompleted'' else ''IndexingErrors''"
  let ?m = "if es = [] then ''Document indexing process completed successfully''
    else ''Indexing completed with '' @ nat_str (length es) @ '' errors''"
  obtain u1 where u1: "job_update_status_condition E ty ?st ?r ?m (j, t) = (Inr (), j, t @ u1)"
    "created_events u1 = []" "has_status (last_patched crd (t @ u1))"
    "condition_is (last_patched crd (t @ u1)) ty ?st"
    "\<forall>ty'. ty' \<noteq> ty \<longrightarrow> lookup_condition ty' (resource_conditions (last_patched crd (t @ u1))) =
      lookup_condition ty' (resource_conditions (last_patched crd t))"
    "\<forall>k. k \<noteq> ''conditions'' \<longrightarrow>
      jget (resource_status (last_patched crd (t @ u1))) k = jget (resource_status (last_patched crd t)) k"
    "\<forall>k. k \<noteq> ''status'' \<longrightarrow> jget (last_patched crd (t @ u1)) k = jget (last_patched crd t) k"
    by (rule condition_step [OF c wf])
  have same: "counted (last_patched crd (t @ u1)) counter = counted (last_patched crd t) counter"
    using u1(6) counter by (simp add: counted_def)
  have ok1: "counters_ok (last_patched crd (t @ u1))" using assms(3) u1(6) by (simp add: counters_ok_def)
  obtain u2 where u2: "job_update_indexing_completion E (es = []) d n JNull (j, t @ u1) = (Inr (), j, (t @ u1) @ u2)"
    "created_events u2 = []" "has_status (last_patched crd ((t @ u1) @ u2))" "counters_ok (last_patched crd ((t @ u1) @ u2))"
    "counted (last_patched crd ((t @ u1) @ u2)) counter = counted (last_patched crd (t @ u1)) counter + 1"
    "\<forall>k. k \<notin> {counter, ''numOfDocumentInIndex'', ''lastIndexingDurationSeconds'', ''lastIndexingTimestamp''} \<longrightarrow>
      jget (resource_status (last_patched crd ((t @ u1) @ u2))) k = jget (resource_status (last_patched crd (t @ u1))) k"
    "\<forall>k. k \<noteq> ''status'' \<longrightarrow> jget (last_patched crd ((t @ u1) @ u2)) k = jget (last_patched crd (t @ u1)) k"
    using u1(3) by (elim conjE) (rule completion_step [OF c _ ok1 counter])
  obtain u3 ev where u3: "job_create_completion_event E (es = []) n d es (j, (t @ u1) @ u2) = (Inr (), j, ((t @ u1) @ u2) @ u3)"
    "patched u3 = []" "created_events u3 = [ev]"
    "ev_reason ev = (if es = [] then ''IndexingCompleted'' else ''IndexingFailed'')"
    "ev_message ev = completion_message (es = []) n d es"
    using u2(3) by (elim conjE) (rule event_step [OF c, of "(t @ u1) @ u2" "es = []" n d es])
  let ?u = "u1 @ u2 @ u3"
  have run: "conclude E es d n (j, t) = (Inr (es = []), j, t @ ?u)"
    using u1(1) u2(1) u3(1) ty by (cases "es = []") (simp_all add: conclude_def py_bind_def)
  have now: "last_patched crd (t @ ?u) = last_patched crd (t @ u1 @ u2)"
    using u3(2) by (simp add: last_patched_append last_patched_patched)
  have ev: "created_events ?u = [ev]" using u1(2) u2(2) u3(3) by simp
  have conds: "resource_conditions (last_patched crd (t @ u1 @ u2)) = resource_conditions (last_patched crd (t @ u1))"
    using u2(6) counter by (simp add: status_conditions_def)
  have fields: "\<forall>k. k \<notin> base_fields \<union> {counter} \<longrightarrow>
      jget (resource_status (last_patched crd (t @ u1 @ u2))) k = jget (resource_status (last_patched crd t)) k"
    using u2(6) u1(6) by (simp add: base_fields_def)
  show ?thesis
    by (rule that [OF run ev u3(4,5)]; unfold now conds)
      (use u1(4,5,7) u2(3,4,5,7) same fields in \<open>simp_all\<close>)
qed

text \<open>The start of a run up to the conclusion.\<close>

definition always_records :: "env \<Rightarrow> data_source_handler \<Rightarrow> bool" where
  "always_records E d \<longleftrightarrow> (\<forall>t r d' t'. handler_update_index E (d, t) = (r, d', t') \<longrightarrow> handler_recorded d' \<noteq> None)"

abbreviation indexing_ended :: "json \<Rightarrow> bool" where
  "indexing_ended crd \<equiv> condition_is crd ''AutoIndexerIndexing'' ''False'' \<and> condition_is crd ''AutoIndexerSucceeded'' ''True''"

lemma static_always_records:
  "jget (sh_config h) ''urls'' \<noteq> None \<Longrightarrow> always_records E (Static h)"
  by (auto simp: always_records_def handler_update_index_run map_prod_def split: prod.splits)
    (use static_urls_recorded in \<open>fastforce\<close>)

lemma others_always_record: "always_records E (Git g)" "always_records E (Kusto k)"
  by (auto simp: always_records_def handler_update_index_run map_prod_def split: prod.splits)

lemma indexing_step:
  assumes c: "connected E crd k8s j" and h: "handler_client (jb_handler j) = k8s" "handler_fresh (jb_handler j)"
    and wf: "has_status (last_patched crd t)"
  obtains es j2 u where
    "py_bind (job_update_index E) (\<lambda>errors. py_bind (job_update_autoindexer_status E) (\<lambda>_. f errors)) (j, t) =
      f es (j2, t @ u)"
    and "connected E crd k8s j2" and "created_events u = []" and "has_status (last_patched crd (t @ u))"
    and "\<forall>k. k \<notin> base_fields \<union> {''lastIndexedCommit''} \<longrightarrow>
      jget (resource_status (last_patched crd (t @ u))) k = jget (resource_status (last_patched crd t)) k"
    and "\<forall>k. k \<noteq> ''status'' \<longrightarrow> jget (last_patched crd (t @ u)) k = jget (last_patched crd t) k"
    and "es = [] \<longrightarrow> condition_is (last_patched crd (t @ u)) ''AutoIndexerError'' ''False''"
    and "always_records E (jb_handler j) \<longrightarrow> indexing_ended (last_patched crd (t @ u))"
proof -
  obtain r d1 t1 where upd: "handler_update_index E (jb_handler j, t) = (r, d1, t1)" by (metis prod.collapse)
  obtain r2 d2 t2 where stat: "handler_update_autoindexer_status E (d1, t1) = (r2, d2, t2)" by (metis prod.collapse)
  have server: "keeps_resource E (handler_client (jb_handler j)) crd" "kc_name (handler_client (jb_handler j)) \<noteq> ''''"
    using c h(1) by (simp_all add: connected_def)
  obtain es u where s: "r = Inr es" "t2 = t @ u" "created_events u = []"
    "wf_resource (last_patched crd t2)" "jget (last_patched crd t2) ''status'' \<noteq> None"
    "\<forall>k. k \<notin> base_fields \<union> {''lastIndexedCommit''} \<longrightarrow>
      jget (resource_status (last_patched crd t2)) k = jget (resource_status (last_patched crd t)) k"
    "\<forall>k. k \<noteq> ''status'' \<longrightarrow> jget (last_patched crd t2) k = jget (last_patched crd t) k"
    "es = [] \<longrightarrow> (\<exists>c. lookup_condition ''AutoIndexerError'' (resource_conditions (last_patched crd t2)) = Some c \<and>
      jget c ''status'' = Some (JStr ''False''))"
    "handler_recorded d1 \<noteq> None \<longrightarrow> indexing_ended (last_patched crd t2)"
    using wf by (elim conjE) (rule job_source.session [OF server h(2) _ _ upd stat])
  let ?j2 = "set_handler d2 (set_handler d1 j)"
  have "job_update_index E (j, t) = (Inr es, set_handler d1 j, t1)"
    using upd s(1) by (simp add: job_update_index_def py_try_def py_on_def)
  moreover have "job_update_autoindexer_status E (set_handler d1 j, t1) = (Inr (), ?j2, t2)"
    using stat by (cases r2) (simp_all add: job_update_autoindexer_status_def py_try_def py_on_def set_handler_def)
  ultimately have run: "py_bind (job_update_index E) (\<lambda>errors. py_bind (job_update_autoindexer_status E) (\<lambda>_. f errors)) (j, t) =
      f es (?j2, t @ u)"
    using s(2) by (simp add: py_bind_def)
  have conn: "connected E crd k8s ?j2" using c by (simp add: connected_def set_handler_def)
  have "always_records E (jb_handler j) \<longrightarrow> handler_recorded d1 \<noteq> None"
    using upd unfolding always_records_def by blast
  then show ?thesis by (intro that [OF run conn s(3)]) (use s in auto)
qed

lemma job_document_count_run:
  obtains n l where "job_document_count E (j, t) = (Inr n, j, t @ [l])" and "\<not> is_k8s_write l"
proof -
  let ?l = "RagList (rc_base_url (jb_rag_client j)) (jb_index_name j)
    (json_dumps (JDict [(''autoindexer'', JStr (full_name j))])) 1 0"
  let ?n = "case rag_list E ?l t of Inr (Some r) \<Rightarrow> Some (ld_total_items r) | _ \<Rightarrow> None"
  have "job_document_count E (j, t) = (Inr ?n, j, t @ [?l])"
    by (simp add: job_document_count_def list_documents_def py_bind_def py_try_def total_items_def
        split: sum.split option.split)
  then show ?thesis by (rule that) simp
qed

text \<open>The progress is never written: the call raises and the job drops the error. The handler of exceptions of a
  run raises when the number of documents is not known.\<close>

lemma progress_never_written: "job_update_indexing_progress E documents processed \<sigma> = (Inr (), \<sigma>)"
  by (simp add: job_update_indexing_progress_def with_client_def py_bind_def py_try_def split: option.split)

lemma run_failed_raises:
  assumes "job_document_count E (j, t') = (Inr None, j, t'')"
    and "job_update_status_condition E ''AutoIndexerError'' ''True'' ''ServiceError''
        (''AutoIndexer job failed: '' @ exn_str e) (j, t @ [ClockNow]) = (Inr (), j, t')"
    and "job_update_indexing_completion E False (trunc_seconds (clock_now E ClockNow t - start)) 0 JNull (j, t'') =
      (Inr (), j, t3)"
  shows "isl (fst (run_failed E start e (j, t)))"
  using assms by (simp add: run_failed_def now_def py_bind_def count_or_zero_def)

text \<open>The run up to the conclusion.\<close>

lemma run_to_conclusion:
  assumes "connected E crd k8s j" and "handler_client (jb_handler j) = k8s" and "handler_fresh (jb_handler j)"
    and "wf_resource (last_patched crd t)" and "counters_ok (last_patched crd t)"
  obtains es d n j2 u where "job_run E (j, t) = conclude E es d n (j2, t @ u)" and "connected E crd k8s j2"
    and "created_events u = []" and "wf_resource (last_patched crd (t @ u))" and "counters_ok (last_patched crd (t @ u))"
    and "\<forall>c\<in>{''successfulIndexingCount'', ''errorIndexingCount''}.
      counted (last_patched crd (t @ u)) c = counted (last_patched crd t) c"
    and "\<forall>k. k \<noteq> ''status'' \<longrightarrow> jget (last_patched crd (t @ u)) k = jget (last_patched crd t) k"
    and "es = [] \<longrightarrow> condition_is (last_patched crd (t @ u)) ''AutoIndexerError'' ''False''"
    and "always_records E (jb_handler j) \<longrightarrow> indexing_ended (last_patched crd (t @ u))"
proof -
  let ?t0 = "t @ [ClockNow]" and ?start = "clock_now E ClockNow t"
  have t0: "last_patched crd ?t0 = last_patched crd t" by (rule last_patched_reads) simp
  have wf0: "wf_resource (last_patched crd ?t0)" unfolding t0 by (rule assms(4))
  obtain u1 where u1: "job_update_status_condition E ''AutoIndexerIndexing'' ''True'' ''IndexingStarted''
        ''Document indexing process has started'' (j, ?t0) = (Inr (), j, ?t0 @ u1)"
    "created_events u1 = []" "has_status (last_patched crd (?t0 @ u1))"
    "condition_is (last_patched crd (?t0 @ u1)) ''AutoIndexerIndexing'' ''True''"
    "\<forall>ty'. ty' \<noteq> ''AutoIndexerIndexing'' \<longrightarrow> lookup_condition ty' (resource_conditions (last_patched crd (?t0 @ u1))) =
      lookup_condition ty' (resource_conditions (last_patched crd ?t0))"
    "\<forall>k. k \<noteq> ''conditions'' \<longrightarrow>
      jget (resource_status (last_patched crd (?t0 @ u1))) k = jget (resource_status (last_patched crd ?t0)) k"
    "\<forall>k. k \<noteq> ''status'' \<longrightarrow> jget (last_patched crd (?t0 @ u1)) k = jget (last_patched crd ?t0) k"
    by (rule condition_step [OF assms(1) wf0])
  define f where "f = (\<lambda>es. py_bind (now E) (\<lambda>end_time. py_bind (job_document_count E) (\<lambda>n.
    conclude E es (trunc_seconds (end_time - ?start)) (count_or_zero n))))"
  let ?t1 = "?t0 @ u1"
  obtain es j2 u2 where u2: "py_bind (job_update_index E) (\<lambda>errors. py_bind (job_update_autoindexer_status E) (\<lambda>_. f errors)) (j, ?t1) =
      f es (j2, ?t1 @ u2)"
    "connected E crd k8s j2" "created_events u2 = []" "has_status (last_patched crd (?t1 @ u2))"
    "\<forall>k. k \<notin> base_fields \<union> {''lastIndexedCommit''} \<longrightarrow>
      jget (resource_status (last_patched crd (?t1 @ u2))) k = jget (resource_status (last_patched crd ?t1)) k"
    "\<forall>k. k \<noteq> ''status'' \<longrightarrow> jget (last_patched crd (?t1 @ u2)) k = jget (last_patched crd ?t1) k"
    "es = [] \<longrightarrow> condition_is (last_patched crd (?t1 @ u2)) ''AutoIndexerError'' ''False''"
    "always_records E (jb_handler j) \<longrightarrow> indexing_ended (last_patched crd (?t1 @ u2))"
    by (rule indexing_step [OF assms(1-3) u1(3)])
  obtain n l where l: "job_document_count E (j2, (?t1 @ u2) @ [ClockNow]) = (Inr n, j2, ((?t1 @ u2) @ [ClockNow]) @ [l])"
    "\<not> is_k8s_write l"
    by (rule job_document_count_run)
  then have n: "job_document_count E (j2, (?t1 @ u2) @ [ClockNow]) = (Inr n, j2, (?t1 @ u2) @ [ClockNow, l])"
    "\<not> is_k8s_write l" by simp_all
  let ?d = "trunc_seconds (clock_now E ClockNow (?t1 @ u2) - ?start)"
  let ?t2 = "(?t1 @ u2) @ [ClockNow, l]"
  have t2: "last_patched crd ?t2 = last_patched crd (?t1 @ u2)" by (rule last_patched_reads) (simp add: n(2))
  have keep: "jget (resource_status (last_patched crd ?t2)) c = jget (resource_status (last_patched crd t)) c"
    if "c \<in> {''successfulIndexingCount'', ''errorIndexingCount''}" for c
  proof -
    have c: "c \<noteq> ''conditions''" "c \<notin> base_fields \<union> {''lastIndexedCommit''}"
      using that by (auto simp: base_fields_def)
    show ?thesis
      using u2(5) [rule_format, OF c(2)] u1(6) [rule_format, OF c(1)] by (simp only: t2 t0)
  qed
  have wf2: "wf_resource (last_patched crd ?t2)" unfolding t2 using u2(4) by blast
  have ok2: "counters_ok (last_patched crd ?t2)" using assms(5) keep by (simp add: counters_ok_def)
  let ?u = "[ClockNow] @ u1 @ u2 @ [ClockNow, l]"
  have start: "now E (j, t) = (Inr ?start, j, ?t0)" by (simp add: now_def)
  have "job_run E (j, t) = run_indexing E ?start (j, ?t0)"
    unfolding job_run_eq by (rule py_bind_Inr) (rule start)
  also have "\<dots> = f es (j2, ?t1 @ u2)"
    using u2(1) by (simp only: run_indexing_def py_bind_Inr [where m = "job_update_status_condition E
        ''AutoIndexerIndexing'' ''True'' ''IndexingStarted'' ''Document indexing process has started''", OF u1(1)] f_def)
  also have "\<dots> = conclude E es ?d (count_or_zero n) (j2, ?t2)"
    using n(1) by (simp add: f_def now_def py_bind_def)
  finally have run: "job_run E (j, t) = conclude E es ?d (count_or_zero n) (j2, t @ ?u)" by simp
  have tu: "t @ ?u = ?t2" by simp
  have ev: "created_events ?u = []" using u1(2) u2(3) patched_Cons [OF n(2)] by simp
  have same: "\<forall>c\<in>{''successfulIndexingCount'', ''errorIndexingCount''}.
      counted (last_patched crd ?t2) c = counted (last_patched crd t) c"
    using keep by (simp add: counted_def)
  have rest: "\<forall>k. k \<noteq> ''status'' \<longrightarrow> jget (last_patched crd ?t2) k = jget (last_patched crd t) k"
    using u2(6) u1(7) unfolding t2 t0 by simp
  have err: "es = [] \<longrightarrow> condition_is (last_patched crd ?t2) ''AutoIndexerError'' ''False''"
    unfolding t2 by (rule u2(7))
  have ended: "always_records E (jb_handler j) \<longrightarrow> indexing_ended (last_patched crd ?t2)"
    unfolding t2 by (rule u2(8))
  show ?thesis
    by (rule that [OF run u2(2) ev]; unfold tu; (rule wf2 ok2 same rest err ended)+)
qed

lemma job_run_final:
  assumes "connected E crd k8s j" and "handler_client (jb_handler j) = k8s" and "handler_fresh (jb_handler j)"
    and "wf_resource (last_patched crd t)" and "counters_ok (last_patched crd t)"
  shows "\<exists>ok j' u ev. job_run E (j, t) = (Inr ok, j', t @ u) \<and>
    condition_is (last_patched crd (t @ u)) ''AutoIndexerError'' (if ok then ''False'' else ''True'') \<and>
    (ok \<longrightarrow> condition_is (last_patched crd (t @ u)) ''AutoIndexerIndexing'' ''False'') \<and>
    counted (last_patched crd (t @ u)) ''successfulIndexingCount'' =
      counted (last_patched crd t) ''successfulIndexingCount'' + (if ok then 1 else 0) \<and>
    counted (last_patched crd (t @ u)) ''errorIndexingCount'' =
      counted (last_patched crd t) ''errorIndexingCount'' + (if ok then 0 else 1) \<and>
    created_events u = [ev] \<and> ev_reason ev = (if ok then ''IndexingCompleted'' else ''IndexingFailed'') \<and>
    (\<forall>k. k \<noteq> ''status'' \<longrightarrow> jget (last_patched crd (t @ u)) k = jget (last_patched crd t) k) \<and>
    (always_records E (jb_handler j) \<longrightarrow> indexing_ended (last_patched crd (t @ u))) \<and>
    wf_resource (last_patched crd (t @ u)) \<and> counters_ok (last_patched crd (t @ u))"
proof -
  obtain es d n j2 u where s: "job_run E (j, t) = conclude E es d n (j2, t @ u)" "connected E crd k8s j2"
    "created_events u = []" "wf_resource (last_patched crd (t @ u))" "counters_ok (last_patched crd (t @ u))"
    and same: "\<forall>c\<in>{''successfulIndexingCount'', ''errorIndexingCount''}.
      counted (last_patched crd (t @ u)) c = counted (last_patched crd t) c"
    and rest: "\<forall>k. k \<noteq> ''status'' \<longrightarrow> jget (last_patched crd (t @ u)) k = jget (last_patched crd t) k"
    and err: "es = [] \<longrightarrow> condition_is (last_patched crd (t @ u)) ''AutoIndexerError'' ''False''"
    and ended: "always_records E (jb_handler j) \<longrightarrow> indexing_ended (last_patched crd (t @ u))"
    by (rule run_to_conclusion [OF assms])
  let ?t2 = "t @ u"
  let ?counter = "if es = [] then ''successfulIndexingCount'' else ''errorIndexingCount''"
  let ?ty = "if es = [] then ''AutoIndexerIndexing'' else ''AutoIndexerError''"
  obtain u3 ev where u3: "conclude E es d n (j2, ?t2) = (Inr (es = []), j2, ?t2 @ u3)"
    "created_events u3 = [ev]" "ev_reason ev = (if es = [] then ''IndexingCompleted'' else ''IndexingFailed'')"
    "ev_message ev = completion_message (es = []) n d es"
    "wf_resource (last_patched crd (?t2 @ u3))" "counters_ok (last_patched crd (?t2 @ u3))"
    "condition_is (last_patched crd (?t2 @ u3)) ?ty (if es = [] then ''False'' else ''True'')"
    "\<forall>ty'. ty' \<noteq> ?ty \<longrightarrow> lookup_condition ty' (resource_conditions (last_patched crd (?t2 @ u3))) =
      lookup_condition ty' (resource_conditions (last_patched crd ?t2))"
    "counted (last_patched crd (?t2 @ u3)) ?counter = counted (last_patched crd ?t2) ?counter + 1"
    "\<forall>k. k \<notin> base_fields \<union> {?counter} \<longrightarrow>
      jget (resource_status (last_patched crd (?t2 @ u3))) k = jget (resource_status (last_patched crd ?t2)) k"
    "\<forall>k. k \<noteq> ''status'' \<longrightarrow> jget (last_patched crd (?t2 @ u3)) k = jget (last_patched crd ?t2) k"
    by (rule conclude_step [OF s(2,4,5) refl refl])
  have run: "job_run E (j, t) = (Inr (es = []), j2, t @ u @ u3)" using s(1) u3(1) by simp
  have ev: "created_events (u @ u3) = [ev]" using s(3) u3(2) by simp
  have t3: "t @ u @ u3 = ?t2 @ u3" by simp
  have err3: "condition_is (last_patched crd (?t2 @ u3)) ''AutoIndexerError'' (if es = [] then ''False'' else ''True'')"
    using u3(7,8) err by (cases "es = []") simp_all
  have idx: "es = [] \<longrightarrow> condition_is (last_patched crd (?t2 @ u3)) ''AutoIndexerIndexing'' ''False''"
    using u3(7) by (cases "es = []") simp_all
  have other: "counted (last_patched crd (?t2 @ u3)) c = counted (last_patched crd ?t2) c"
    if "c \<in> {''successfulIndexingCount'', ''errorIndexingCount''}" "c \<noteq> ?counter" for c
    using u3(10) that by (auto simp: counted_def base_fields_def)
  have succ: "counted (last_patched crd (?t2 @ u3)) ''successfulIndexingCount'' =
      counted (last_patched crd t) ''successfulIndexingCount'' + (if es = [] then 1 else 0)"
    using u3(9) same other [of "''successfulIndexingCount''"] by (cases "es = []") simp_all
  have fail: "counted (last_patched crd (?t2 @ u3)) ''errorIndexingCount'' =
      counted (last_patched crd t) ''errorIndexingCount'' + (if es = [] then 0 else 1)"
    using u3(9) same other [of "''errorIndexingCount''"] by (cases "es = []") simp_all
  have rest3: "\<forall>k. k \<noteq> ''status'' \<longrightarrow> jget (last_patched crd (?t2 @ u3)) k = jget (last_patched crd t) k"
    using u3(11) rest by simp
  have ended3: "always_records E (jb_handler j) \<longrightarrow> indexing_ended (last_patched crd (?t2 @ u3))"
    using ended u3(7,8) by (cases "es = []") auto
  show ?thesis
    by (rule exI [of _ "es = []"], rule exI [of _ j2], rule exI [of _ "u @ u3"], rule exI [of _ ev])
      (intro conjI run ev u3(3); unfold t3; intro err3 idx succ fail rest3 ended3 u3(5,6))
qed

text \<open>C1: What a run leaves in the resource. For a job with a fresh handler and a server that keeps what is written, the
  run ends normally; it returns \<open>True\<close> exactly when it leaves \<open>AutoIndexerError\<close> at \<open>False\<close> and
  \<open>AutoIndexerIndexing\<close> at \<open>False\<close>, and \<open>False\<close> when it leaves \<open>AutoIndexerError\<close> at \<open>True\<close>. The counter of
  successful or of failed runs is one higher, the other one is as before, one event of the matching
  kind has been created, and nothing outside the status has changed.\<close>

theorem job_run_final_status:
  assumes "connected E crd k8s j" and "handler_client (jb_handler j) = k8s" and "handler_fresh (jb_handler j)"
    and "wf_resource (last_patched crd t)" and "counters_ok (last_patched crd t)"
  shows "\<exists>ok j' u ev. job_run E (j, t) = (Inr ok, j', t @ u) \<and>
    condition_is (last_patched crd (t @ u)) ''AutoIndexerError'' (if ok then ''False'' else ''True'') \<and>
    (ok \<longrightarrow> condition_is (last_patched crd (t @ u)) ''AutoIndexerIndexing'' ''False'') \<and>
    counted (last_patched crd (t @ u)) ''successfulIndexingCount'' =
      counted (last_patched crd t) ''successfulIndexingCount'' + (if ok then 1 else 0) \<and>
    counted (last_patched crd (t @ u)) ''errorIndexingCount'' =
      counted (last_patched crd t) ''errorIndexingCount'' + (if ok then 0 else 1) \<and>
    created_events u = [ev] \<and> ev_reason ev = (if ok then ''IndexingCompleted'' else ''IndexingFailed'') \<and>
    (\<forall>k. k \<noteq> ''status'' \<longrightarrow> jget (last_patched crd (t @ u)) k = jget (last_patched crd t) k)"
  using job_run_final [OF assms] by (elim exE conjE) (intro exI conjI; assumption)

definition sample_job :: job where
  "sample_job =
     \<lparr>jb_dry_run = False, jb_access_secret = None, jb_autoindexer_name = ''docs'', jb_namespace = ''default'',
      jb_index_name = JStr ''documentation-index'', jb_ragengine_endpoint = Some ''http://rag'',
      jb_datasource_type = JStr ''Database'', jb_datasource_config = JDict [], jb_credentials_config = JNull,
      jb_k8s_client = Some sample_client, jb_rag_client = new_rag_client ''http://rag'',
      jb_credential_provider = None, jb_handler = Kusto (sample_kusto [])\<rparr>"

lemma sample_keeps_resource: "keeps_resource (sample_world crd) k8s crd"
  by (simp add: keeps_resource_def sample_world_def)

theorem job_run_final_status_witness:
  "\<exists>ok j' u ev. job_run (sample_world sample_resource) (sample_job, []) = (Inr ok, j', u) \<and>
    counted (last_patched sample_resource u) ''successfulIndexingCount'' = 5 + (if ok then 1 else 0) \<and>
    created_events u = [ev]"
proof -
  have c: "connected (sample_world sample_resource) sample_resource sample_client sample_job"
    using sample_keeps_resource sample_client_name by (simp add: connected_def sample_job_def)
  have h: "handler_client (jb_handler sample_job) = sample_client" "handler_fresh (jb_handler sample_job)"
    by (simp_all add: sample_job_def sample_kusto_def)
  have wf: "wf_resource (last_patched sample_resource [])" using sample_resource_wf by simp
  have ok: "counters_ok (last_patched sample_resource [])" by code_simp
  have five: "counted (last_patched sample_resource []) ''successfulIndexingCount'' = 5" by code_simp
  show ?thesis
    using job_run_final_status [OF c h wf ok] unfolding five append_Nil by (elim exE conjE) (intro exI conjI)
qed

subsection \<open>What the constructor makes\<close>

text \<open>What the three classes of handlers have in common: the index, the clients, the credentials and the
  name in the metadata of the documents.\<close>

fun handler_common :: "data_source_handler \<Rightarrow> json \<times> rag_client \<times> k8s_client \<times> credential_provider option \<times> json" where
  "handler_common (Static h) =
     (sh_index_name h, sh_rag_client h, sh_autoindexer_client h, sh_credentials h, sh_autoindexer_name h)"
| "handler_common (Git h) =
     (gh_index_name h, gh_rag_client h, gh_autoindexer_client h, gh_credentials h, gh_autoindexer_name h)"
| "handler_common (Kusto h) =
     (kh_index_name h, kh_rag_client h, kh_autoindexer_client h, kh_credentials h, kh_autoindexer_name h)"

lemma new_handler_common:
  "new_static_handler i c rag k8s cr = Inr h \<Longrightarrow>
    \<exists>name. handler_common (Static h) = (i, rag, k8s, cr, name) \<and> py_get c ''autoindexer_name'' JNull = Inr name"
  "new_git_handler i c rag k8s cr = Inr g \<Longrightarrow>
    \<exists>name. handler_common (Git g) = (i, rag, k8s, cr, name) \<and> py_get c ''autoindexer_name'' JNull = Inr name"
  "new_kusto_handler i c rag k8s cr = Inr k \<Longrightarrow>
    \<exists>name. handler_common (Kusto k) = (i, rag, k8s, cr, name) \<and> py_get c ''autoindexer_name'' JNull = Inr name"
  by (auto simp: new_static_handler_def new_git_handler_def new_kusto_handler_def sum_bind_Inr_iff split: if_splits)

lemma new_handler_inv:
  "new_static_handler i c rag k8s cr = Inr h \<Longrightarrow> sh_autoindexer_client h = k8s \<and> sh_config h = c"
  "new_git_handler i c rag k8s cr = Inr g \<Longrightarrow> gh_autoindexer_client g = k8s \<and>
    py_get c ''conditions'' (JList []) = Inr (gh_conditions g) \<and> py_get c ''commit'' JNull = Inr (gh_commit g) \<and>
    py_get c ''lastIndexedCommit'' (JStr '''') = Inr (gh_last_indexed_commit g) \<and>
    py_get c ''repository'' JNull = Inr (gh_repository g) \<and> py_get c ''branch'' (JStr ''main'') = Inr (gh_branch g) \<and>
    py_get c ''paths'' (JList []) = Inr (gh_paths g) \<and> py_get c ''excludePaths'' (JList []) = Inr (gh_exclude_paths g) \<and>
    gh_include_matcher g = (if truthy (gh_paths g) then Some (gh_paths g) else None) \<and>
    gh_exclude_matcher g = (if truthy (gh_exclude_paths g) then Some (gh_exclude_paths g) else None)"
  "new_kusto_handler i c rag k8s cr = Inr k \<Longrightarrow> kh_autoindexer_client k = k8s \<and> kh_errors k = [] \<and>
    py_get c ''language'' JNull = Inr (kh_language k) \<and>
    py_get c ''conditions'' (JList []) = Inr (kh_conditions k) \<and> kh_language k = JStr ''Kusto'' \<and>
    py_get c ''initialQuery'' JNull = Inr (kh_initial_query k) \<and> truthy (kh_initial_query k) \<and>
    py_get c ''incrementalQuery'' JNull = Inr (kh_incremental_query k)"
  by (auto simp: new_static_handler_def new_git_handler_def new_kusto_handler_def sum_bind_Inr_iff split: if_splits)

lemma map_sum_Inr_iff: "map_sum f g x = Inr y \<longleftrightarrow> (\<exists>z. x = Inr z \<and> y = g z)"
  by (cases x) auto

lemma handler_inv:
  assumes "create_data_source_handler s rag k8s cr = Inr d"
  shows "handler_client d = k8s" and "handler_fresh d"
    and "\<exists>ty. jb_datasource_type s = JStr ty \<and>
      (case d of
         Static h \<Rightarrow> py_lower ty = ''static'' \<and> new_static_handler (jb_index_name s) (py_or (jb_datasource_config s) (JDict [])) rag k8s cr = Inr h
       | Git g \<Rightarrow> py_lower ty = ''git'' \<and> new_git_handler (jb_index_name s) (py_or (jb_datasource_config s) (JDict [])) rag k8s cr = Inr g
       | Kusto k \<Rightarrow> py_lower ty = ''database'' \<and> new_kusto_handler (jb_index_name s) (py_or (jb_datasource_config s) (JDict [])) rag k8s cr = Inr k)"
proof -
  obtain ty where ty: "jb_datasource_type s = JStr ty"
    using assms by (cases "jb_datasource_type s") (simp_all add: create_data_source_handler_def)
  show all: "\<exists>ty. jb_datasource_type s = JStr ty \<and>
      (case d of
         Static h \<Rightarrow> py_lower ty = ''static'' \<and> new_static_handler (jb_index_name s) (py_or (jb_datasource_config s) (JDict [])) rag k8s cr = Inr h
       | Git g \<Rightarrow> py_lower ty = ''git'' \<and> new_git_handler (jb_index_name s) (py_or (jb_datasource_config s) (JDict [])) rag k8s cr = Inr g
       | Kusto k \<Rightarrow> py_lower ty = ''database'' \<and> new_kusto_handler (jb_index_name s) (py_or (jb_datasource_config s) (JDict [])) rag k8s cr = Inr k)"
    using assms ty by (auto simp: create_data_source_handler_def Let_def map_sum_Inr_iff split: if_splits)
  then show "handler_client d = k8s" and "handler_fresh d"
    by (cases d; auto dest: new_handler_inv)+
qed

lemma finish_job_inv:
  assumes "finish_job E k8s s = Inr j"
  obtains endpoint prov where "jb_ragengine_endpoint s = Some endpoint" and "endpoint \<noteq> ''''"
    and "jb_rag_client j = new_rag_client endpoint" and "jb_credential_provider j = prov"
    and "create_credential_provider E s = Inr prov"
    and "create_data_source_handler s (new_rag_client endpoint) k8s prov = Inr (jb_handler j)"
    and "job_settings.truncate j = s"
proof -
  from assms obtain endpoint prov d where e: "jb_ragengine_endpoint s = Some endpoint" "endpoint \<noteq> ''''"
    "create_credential_provider E s = Inr prov"
    "create_data_source_handler s (new_rag_client endpoint) k8s prov = Inr d"
    "j = job_settings.extend s (job.fields (new_rag_client endpoint) prov d)"
    by (auto simp: finish_job_def sum_bind_Inr_iff split: option.splits if_splits)
  show ?thesis
    by (rule that [OF e(1,2) _ _ e(3)]) (use e(4) in \<open>simp_all add: e(5) job_settings.defs job.defs\<close>)
qed

text \<open>The settings after the resource has been applied.\<close>

lemma apply_crd_config_inv:
  assumes "apply_crd_config crd s0 = Inr s" and "jb_datasource_config s0 = JNull"
  obtains spec where "py_get crd ''spec'' (JDict []) = Inr spec"
    and "py_get spec ''indexName'' JNull = Inr (jb_index_name s)" and "truthy (jb_index_name s)"
    and "jb_k8s_client s = jb_k8s_client s0" and "full_name s = full_name s0"
    and "\<exists>engine. py_get spec ''ragEngine'' JNull = Inr engine \<and> truthy engine \<and> jb_ragengine_endpoint s =
      Some (endpoint_of engine (case jb_k8s_client s0 of None \<Rightarrow> ''default'' | Some k8s \<Rightarrow> kc_namespace k8s))"
    and "jb_access_secret s = jb_access_secret s0"
    and "\<exists>creds. py_get spec ''credentials'' JNull = Inr creds \<and>
      jb_credentials_config s = (if truthy creds then creds else jb_credentials_config s0)"
    and "jb_datasource_type s \<noteq> jb_datasource_type s0 \<longrightarrow>
      (\<exists>ds fields. py_get spec ''dataSource'' JNull = Inr ds \<and> py_get ds ''type'' JNull = Inr (jb_datasource_type s) \<and>
        source_fields (full_name s0) crd ds = Inr fields \<and> jb_datasource_config s = JDict (dict_update [] fields))"
proof -
  from assms(1) obtain spec where spec: "py_get crd ''spec'' (JDict []) = Inr spec"
    and rest: "sum_bind (apply_index_name spec s0) (\<lambda>s. sum_bind (apply_endpoint spec s) (\<lambda>s.
      sum_bind (apply_data_source crd spec s) (apply_credentials spec))) = Inr s"
    by (auto simp: apply_crd_config_def sum_bind_Inr_iff)
  from rest obtain s1 s2 s3 where s1: "apply_index_name spec s0 = Inr s1" and s2: "apply_endpoint spec s1 = Inr s2"
    and s3: "apply_data_source crd spec s2 = Inr s3" and s4: "apply_credentials spec s3 = Inr s"
    by (auto simp: sum_bind_Inr_iff)
  from s1 obtain i where i: "py_get spec ''indexName'' JNull = Inr i" "truthy i" "s1 = s0\<lparr>jb_index_name := i\<rparr>"
    by (auto simp: apply_index_name_def sum_bind_Inr_iff split: if_splits)
  from s2 i(3) obtain engine where e: "py_get spec ''ragEngine'' JNull = Inr engine" "truthy engine"
    "s2 = s1\<lparr>jb_ragengine_endpoint := Some (endpoint_of engine
       (case jb_k8s_client s0 of None \<Rightarrow> ''default'' | Some k8s \<Rightarrow> kc_namespace k8s))\<rparr>"
    by (auto simp: apply_endpoint_def sum_bind_Inr_iff split: if_splits)
  from s4 obtain c where c: "py_get spec ''credentials'' JNull = Inr c"
    "s = (if truthy c then s3\<lparr>jb_credentials_config := c\<rparr> else s3)"
    by (auto simp: apply_credentials_def sum_bind_Inr_iff split: if_splits)
  have s2': "jb_datasource_config s2 = JNull" "full_name s2 = full_name s0" "jb_index_name s2 = i"
    "jb_k8s_client s2 = jb_k8s_client s0" "jb_datasource_type s2 = jb_datasource_type s0"
    using assms(2) by (simp_all add: e(3) i(3) full_name_def)
  consider "s3 = s2" | ds ty fields where "py_get spec ''dataSource'' JNull = Inr ds" "py_get ds ''type'' JNull = Inr ty"
      "source_fields (full_name s0) crd ds = Inr fields"
      "s3 = s2\<lparr>jb_datasource_type := ty, jb_datasource_config := JDict (dict_update [] fields)\<rparr>"
    using s3 s2' by (auto simp: apply_data_source_def sum_bind_Inr_iff py_or_def split: if_splits)
  then show ?thesis
  proof cases
    case 1
    show ?thesis
      by (rule that [OF spec]) (use 1 c e s2' i in \<open>auto simp: full_name_def\<close>)
  next
    case 2
    show ?thesis
      by (rule that [OF spec]) (use 2 c e s2' i in \<open>auto simp: full_name_def\<close>)
  qed
qed

subsection \<open>The source of the configuration\<close>

text \<open>The fields of the configuration come from the source of the type.\<close>

lemma source_config_inv:
  "source_config ds k ty = Inr r \<Longrightarrow> py_get ds ''type'' JNull = Inr t \<Longrightarrow> truthy t \<Longrightarrow>
    (r = None \<or> (\<exists>c. r = Some c \<and> t = JStr ty \<and> py_get ds k JNull = Inr c))"
  by (cases ds) (auto simp: source_config_def split: if_splits option.splits)

lemma source_fields_inv:
  assumes "source_fields name crd ds = Inr kvs" and "py_get ds ''type'' JNull = Inr t" and "truthy t"
  shows "(\<exists>c. t = JStr ''Git'' \<and> py_get ds ''git'' JNull = Inr c \<and> git_fields name crd c = Inr kvs) \<or>
    (\<exists>c. t = JStr ''Static'' \<and> py_get ds ''static'' JNull = Inr c \<and> static_fields name crd c = Inr kvs) \<or>
    (\<exists>c. t = JStr ''Database'' \<and> py_get ds ''database'' JNull = Inr c \<and> database_fields name crd c = Inr kvs)"
proof -
  note inv = source_config_inv [OF _ assms(2,3)]
  obtain git where git: "source_config ds ''git'' ''Git'' = Inr git"
    using assms(1) unfolding source_fields_def by (meson sum_bind_Inr_iff)
  show ?thesis
  proof (cases git)
    case (Some c)
    then show ?thesis using assms(1) git inv [OF git] by (simp add: source_fields_def)
  next
    case no_git: None
    obtain static where static: "source_config ds ''static'' ''Static'' = Inr static"
      using assms(1) unfolding source_fields_def git no_git sum_bind_simps option.case by (meson sum_bind_Inr_iff)
    show ?thesis
    proof (cases static)
      case (Some c)
      then show ?thesis using assms(1) git no_git static inv [OF static] by (simp add: source_fields_def)
    next
      case no_static: None
      obtain database where database: "source_config ds ''database'' ''Database'' = Inr database"
        using assms(1) unfolding source_fields_def git no_git static no_static sum_bind_simps option.case
        by (meson sum_bind_Inr_iff)
      show ?thesis
        using assms(1) git no_git static no_static database inv [OF database]
        by (cases database) (simp_all add: source_fields_def)
    qed
  qed
qed

lemma new_k8s_client_emits: "emits (\<lambda>c. \<not> is_k8s_write c) (new_k8s_client E ns name)"
proof -
  have "emits (\<lambda>c. \<not> is_k8s_write c) ((case e of ConfigException m \<Rightarrow> py_call LoadKubeConfig (load_config E)
      | _ \<Rightarrow> py_raise e) :: ('s, unit) py)" for e
    by (cases e) (simp_all add: emits_call emits_raise)
  then show ?thesis unfolding new_k8s_client_def by (intro emits_intros) simp_all
qed

lemma new_job_emits: "emits (\<lambda>c. \<not> is_k8s_write c) (new_job E cfg dry_run)"
  unfolding new_job_def by (intro emits_intros new_k8s_client_emits get_autoindexer_emits) simp

lemma new_job_inv:
  assumes "new_job E cfg dry_run (s, t) = (Inr j, s', t')"
  obtains k8s crd sett t1 where "k8s = \<lparr>kc_namespace = NAMESPACE cfg, kc_name = AUTOINDEXER_NAME cfg\<rparr>"
    and "kc_name k8s \<noteq> ''''" and "k8s_get E (K8sGet (object_path k8s)) t1 = Inr crd"
    and "apply_crd_config crd ((new_settings cfg dry_run)\<lparr>jb_k8s_client := Some k8s\<rparr>) = Inr sett"
    and "finish_job E k8s sett = Inr j" and "\<exists>u. t1 = t @ u \<and> list_all (\<lambda>c. \<not> is_k8s_write c) u"
proof -
  let ?k = "\<lparr>kc_namespace = NAMESPACE cfg, kc_name = AUTOINDEXER_NAME cfg\<rparr>"
  let ?s = "(new_settings cfg dry_run)\<lparr>jb_k8s_client := Some ?k\<rparr>"
  obtain r s1 t1 where k: "new_k8s_client E (NAMESPACE cfg) (AUTOINDEXER_NAME cfg) (s, t) = (r, s1, t1)"
    by (metis prod.collapse)
  with assms obtain k8s where "r = Inr k8s" by (cases r) (simp_all add: new_job_def py_bind_def)
  moreover have "k8s = ?k" if "r = Inr k8s" for k8s
    using k that by (auto simp: new_k8s_client_def py_bind_def split: prod.splits sum.splits)
  ultimately have r: "r = Inr ?k" by simp
  obtain r2 s2 t2 where g: "get_autoindexer E ?k (s1, t1) = (r2, s2, t2)" by (metis prod.collapse)
  with assms k r obtain crd where crd: "r2 = Inr crd" by (cases r2) (simp_all add: new_job_def py_bind_def)
  with assms k r g have f: "sum_bind (if truthy crd then apply_crd_config crd ?s else Inr ?s) (finish_job E ?k) = Inr j"
    by (simp add: new_job_def py_bind_def Let_def)
  have "finish_job E ?k ?s \<noteq> Inr j" by (simp add: finish_job_def new_settings_def)
  with f have t: "truthy crd" by (cases "truthy crd") simp_all
  then obtain sett where sett: "apply_crd_config crd ?s = Inr sett" "finish_job E ?k sett = Inr j"
    using f by (auto simp: sum_bind_Inr_iff)
  have get: "kc_name ?k \<noteq> ''''" "k8s_get E (K8sGet (object_path ?k)) t1 = Inr crd"
    using g crd t by (auto simp: get_autoindexer_def py_try_def split: if_splits sum.splits exn.splits)
  have "emits (\<lambda>c. \<not> is_k8s_write c) (new_k8s_client E (NAMESPACE cfg) (AUTOINDEXER_NAME cfg))"
    by (rule new_k8s_client_emits)
  from emitsD [OF this, of "(s, t)"] k have "\<exists>u. t1 = t @ u \<and> list_all (\<lambda>c. \<not> is_k8s_write c) u" by auto
  then show ?thesis by (rule that [OF refl get sett])
qed

lemma type_names: "py_lower ''Git'' = ''git''" "py_lower ''Static'' = ''static''" "py_lower ''Database'' = ''database''"
  by code_simp+

text \<open>What a handler has from the resource \<open>crd\<close> with the data source \<open>ds\<close>.\<close>

fun made_from :: "json \<Rightarrow> json \<Rightarrow> data_source_handler \<Rightarrow> bool" where
  "made_from crd ds (Static h) \<longleftrightarrow>
     py_get ds ''type'' JNull = Inr (JStr ''Static'') \<and>
     (\<exists>c urls. py_get ds ''static'' JNull = Inr c \<and> py_get c ''urls'' (JList []) = Inr urls \<and>
       jget (sh_config h) ''urls'' = Some urls)"
| "made_from crd ds (Git g) \<longleftrightarrow>
     py_get ds ''type'' JNull = Inr (JStr ''Git'') \<and>
     (\<exists>c. py_get ds ''git'' JNull = Inr c \<and> py_get c ''repository'' JNull = Inr (gh_repository g) \<and>
       py_get c ''branch'' (JStr ''main'') = Inr (gh_branch g) \<and> py_get c ''commit'' JNull = Inr (gh_commit g) \<and>
       py_get c ''paths'' (JList []) = Inr (gh_paths g) \<and>
       py_get c ''excludePaths'' (JList []) = Inr (gh_exclude_paths g)) \<and>
     gh_include_matcher g = (if truthy (gh_paths g) then Some (gh_paths g) else None) \<and>
     gh_exclude_matcher g = (if truthy (gh_exclude_paths g) then Some (gh_exclude_paths g) else None) \<and>
     status_field crd ''lastIndexedCommit'' (JStr '''') = Inr (gh_last_indexed_commit g) \<and>
     status_field crd ''conditions'' (JList []) = Inr (gh_conditions g)"
| "made_from crd ds (Kusto k) \<longleftrightarrow>
     py_get ds ''type'' JNull = Inr (JStr ''Database'') \<and>
     (\<exists>c. py_get ds ''database'' JNull = Inr c \<and> py_get c ''language'' JNull = Inr (kh_language k) \<and>
       py_get c ''initialQuery'' JNull = Inr (kh_initial_query k) \<and>
       py_get c ''incrementalQuery'' JNull = Inr (kh_incremental_query k)) \<and>
     status_field crd ''conditions'' (JList []) = Inr (kh_conditions k)"

lemma git_fields_inv:
  assumes "git_fields name crd c = Inr kvs"
  obtains repository branch commit paths excludes last conditions where
    "py_get c ''repository'' JNull = Inr repository" "py_get c ''branch'' (JStr ''main'') = Inr branch"
    "py_get c ''commit'' JNull = Inr commit" "py_get c ''paths'' (JList []) = Inr paths"
    "py_get c ''excludePaths'' (JList []) = Inr excludes" "status_field crd ''lastIndexedCommit'' (JStr '''') = Inr last"
    "status_field crd ''conditions'' (JList []) = Inr conditions"
    "kvs = [(''autoindexer_name'', JStr name), (''repository'', repository), (''branch'', branch),
      (''commit'', commit), (''paths'', paths), (''excludePaths'', excludes),
      (''lastIndexedCommit'', last), (''conditions'', conditions)]"
  using assms unfolding git_fields_def sum_bind_Inr_iff by blast

lemma git_made_from:
  assumes "new_git_handler i (py_or (JDict (dict_update [] kvs)) (JDict [])) rag k8s prov = Inr g"
    and "git_fields name crd c = Inr kvs" and "py_get ds ''git'' JNull = Inr c"
    and "py_get ds ''type'' JNull = Inr (JStr ''Git'')"
  shows "made_from crd ds (Git g)" and "handler_common (Git g) = (i, rag, k8s, prov, JStr name)"
proof -
  note g = new_handler_inv(2) [OF assms(1)]
  show "handler_common (Git g) = (i, rag, k8s, prov, JStr name)"
    using new_handler_common(2) [OF assms(1)] assms(2)
    by (auto simp: git_fields_def sum_bind_Inr_iff py_or_def)
  show "made_from crd ds (Git g)"
  proof (rule git_fields_inv [OF assms(2)], goal_cases)
    case (1 repository branch commit paths excludes last conditions)
    then have "dict_update [] kvs = kvs" by simp
    with 1 g assms(3,4) show ?case by (simp add: py_or_def)
  qed
qed

lemma static_made_from:
  assumes "new_static_handler i (py_or (JDict (dict_update [] kvs)) (JDict [])) rag k8s prov = Inr h"
    and "static_fields name crd c = Inr kvs" and "py_get ds ''static'' JNull = Inr c"
    and "py_get ds ''type'' JNull = Inr (JStr ''Static'')"
  shows "made_from crd ds (Static h)" and "handler_common (Static h) = (i, rag, k8s, prov, JStr name)"
proof -
  obtain urls conditions where kvs: "py_get c ''urls'' (JList []) = Inr urls"
    "kvs = [(''autoindexer_name'', JStr name), (''urls'', urls), (''conditions'', conditions)]"
    using assms(2) by (auto simp: static_fields_def sum_bind_Inr_iff)
  show "handler_common (Static h) = (i, rag, k8s, prov, JStr name)"
    using new_handler_common(1) [OF assms(1)] kvs(2) by (auto simp: py_or_def)
  show "made_from crd ds (Static h)"
    using new_handler_inv(1) [OF assms(1)] kvs assms(3,4) by (simp add: py_or_def)
qed

lemma database_made_from:
  assumes "new_kusto_handler i (py_or (JDict (dict_update [] kvs)) (JDict [])) rag k8s prov = Inr k"
    and "database_fields name crd c = Inr kvs" and "py_get ds ''database'' JNull = Inr c"
    and "py_get ds ''type'' JNull = Inr (JStr ''Database'')"
  shows "made_from crd ds (Kusto k)" and "handler_common (Kusto k) = (i, rag, k8s, prov, JStr name)"
proof -
  obtain language initial incremental conditions where kvs: "py_get c ''language'' JNull = Inr language"
    "py_get c ''initialQuery'' JNull = Inr initial" "py_get c ''incrementalQuery'' JNull = Inr incremental"
    "status_field crd ''conditions'' (JList []) = Inr conditions"
    "kvs = [(''autoindexer_name'', JStr name), (''language'', language), (''initialQuery'', initial),
      (''incrementalQuery'', incremental), (''conditions'', conditions)]"
    using assms(2) unfolding database_fields_def sum_bind_Inr_iff by blast
  show "handler_common (Kusto k) = (i, rag, k8s, prov, JStr name)"
    using new_handler_common(3) [OF assms(1)] kvs(5) by (auto simp: py_or_def)
  show "made_from crd ds (Kusto k)"
    using new_handler_inv(3) [OF assms(1)] kvs assms(3,4) by (simp add: py_or_def)
qed

text \<open>The credentials that \<open>creds\<close> of the resource asks for, where \<open>secret\<close> is the secret of the environment.\<close>

definition credentials_from :: "env \<Rightarrow> string option \<Rightarrow> json \<Rightarrow> credential_provider option \<Rightarrow> bool" where
  "credentials_from E secret creds prov \<longleftrightarrow>
     (if \<not> truthy creds then prov = None
      else \<exists>ty. py_get creds ''type'' JNull = Inr ty \<and>
        (if ty = JStr ''SecretRef''
         then prov = (if secret \<in> {None, Some ''''} then None else Some (SecretCredentialProvider (the secret)))
         else if ty = JStr ''WorkloadIdentity''
         then \<exists>identity client tenant. py_get creds ''workloadIdentityRef'' (JDict []) = Inr identity \<and>
           py_get identity ''clientID'' JNull = Inr client \<and> py_get identity ''tenantID'' JNull = Inr tenant \<and>
           prov = Some (AzureWorkloadIdentityProvider (new_azure_provider E client tenant JNull))
         else prov = None))"

lemma create_credential_provider_from:
  assumes "create_credential_provider E s = Inr prov"
  shows "credentials_from E (jb_access_secret s) (jb_credentials_config s) prov"
proof (cases "truthy (jb_credentials_config s)")
  case False
  then show ?thesis using assms by (simp add: create_credential_provider_def credentials_from_def)
next
  case True
  then obtain ty where ty: "py_get (jb_credentials_config s) ''type'' JNull = Inr ty"
    using assms by (cases "py_get (jb_credentials_config s) ''type'' JNull") (simp_all add: create_credential_provider_def)
  consider (secret) "ty = JStr ''SecretRef''" | (identity) "ty = JStr ''WorkloadIdentity''"
    | (other) "ty \<noteq> JStr ''SecretRef''" "ty \<noteq> JStr ''WorkloadIdentity''" by blast
  then show ?thesis
  proof cases
    case secret
    then show ?thesis
      using True ty assms
      by (cases "jb_access_secret s") (auto simp: create_credential_provider_def credentials_from_def split: if_splits)
  next
    case identity
    then obtain ref client tenant where "py_get (jb_credentials_config s) ''workloadIdentityRef'' (JDict []) = Inr ref"
      "py_get ref ''clientID'' JNull = Inr client" "py_get ref ''tenantID'' JNull = Inr tenant"
      "prov = Some (AzureWorkloadIdentityProvider (new_azure_provider E client tenant JNull))"
      using True ty assms unfolding create_credential_provider_def by (force simp: sum_bind_Inr_iff)
    then show ?thesis using True ty identity by (simp add: credentials_from_def)
  next
    case other
    then show ?thesis using True ty assms by (simp add: create_credential_provider_def credentials_from_def)
  qed
qed

lemma credentials_from_null: "credentials_from E secret (if truthy c then c else JNull) prov = credentials_from E secret c prov"
  by (simp add: credentials_from_def)

lemma new_job_parts:
  assumes "new_job E cfg dry_run (s, t) = (Inr j, s', t')"
  obtains k8s crd spec ds t1 where "k8s = \<lparr>kc_namespace = NAMESPACE cfg, kc_name = AUTOINDEXER_NAME cfg\<rparr>"
    and "kc_name k8s \<noteq> ''''" and "k8s_get E (K8sGet (object_path k8s)) t1 = Inr crd"
    and "\<exists>u. t1 = t @ u \<and> list_all (\<lambda>c. \<not> is_k8s_write c) u"
    and "jb_k8s_client j = Some k8s" and "handler_client (jb_handler j) = k8s" and "handler_fresh (jb_handler j)"
    and "py_get crd ''spec'' (JDict []) = Inr spec" and "py_get spec ''indexName'' JNull = Inr (jb_index_name j)"
    and "truthy (jb_index_name j)" and "py_get spec ''dataSource'' JNull = Inr ds"
    and "made_from crd ds (jb_handler j)"
    and "handler_common (jb_handler j) = (jb_index_name j, jb_rag_client j, k8s, jb_credential_provider j,
      JStr (NAMESPACE cfg @ ''_'' @ AUTOINDEXER_NAME cfg))"
    and "\<exists>engine. py_get spec ''ragEngine'' JNull = Inr engine \<and> truthy engine \<and>
      jb_rag_client j = new_rag_client (''http://'' @ py_format engine @ ''.'' @ NAMESPACE cfg @ ''.svc.cluster.local:80'')"
    and "\<exists>creds. py_get spec ''credentials'' JNull = Inr creds \<and>
      credentials_from E (ACCESS_SECRET cfg) creds (jb_credential_provider j)"
proof -
  obtain k8s crd sett t1 where n: "k8s = \<lparr>kc_namespace = NAMESPACE cfg, kc_name = AUTOINDEXER_NAME cfg\<rparr>"
    "kc_name k8s \<noteq> ''''" "k8s_get E (K8sGet (object_path k8s)) t1 = Inr crd"
    "apply_crd_config crd ((new_settings cfg dry_run)\<lparr>jb_k8s_client := Some k8s\<rparr>) = Inr sett"
    "finish_job E k8s sett = Inr j" "\<exists>u. t1 = t @ u \<and> list_all (\<lambda>c. \<not> is_k8s_write c) u"
    by (rule new_job_inv [OF assms])
  obtain endpoint prov where f: "create_data_source_handler sett (new_rag_client endpoint) k8s prov = Inr (jb_handler j)"
    "job_settings.truncate j = sett" "jb_ragengine_endpoint sett = Some endpoint"
    "jb_rag_client j = new_rag_client endpoint" "jb_credential_provider j = prov"
    "create_credential_provider E sett = Inr prov"
    by (rule finish_job_inv [OF n(5)])
  have jb: "jb_index_name j = jb_index_name sett" "jb_k8s_client j = jb_k8s_client sett"
    using f(2) by (auto simp: job_settings.defs)
  let ?s0 = "(new_settings cfg dry_run)\<lparr>jb_k8s_client := Some k8s\<rparr>"
  have null: "jb_datasource_config ?s0 = JNull" by (simp add: new_settings_def)
  obtain spec where a: "py_get crd ''spec'' (JDict []) = Inr spec"
    "py_get spec ''indexName'' JNull = Inr (jb_index_name sett)" "truthy (jb_index_name sett)"
    "jb_k8s_client sett = jb_k8s_client ?s0"
    "\<exists>engine. py_get spec ''ragEngine'' JNull = Inr engine \<and> truthy engine \<and> jb_ragengine_endpoint sett =
      Some (endpoint_of engine (case jb_k8s_client ?s0 of None \<Rightarrow> ''default'' | Some k8s \<Rightarrow> kc_namespace k8s))"
    "jb_access_secret sett = jb_access_secret ?s0"
    "\<exists>creds. py_get spec ''credentials'' JNull = Inr creds \<and>
      jb_credentials_config sett = (if truthy creds then creds else jb_credentials_config ?s0)"
    "jb_datasource_type sett \<noteq> jb_datasource_type ?s0 \<longrightarrow>
      (\<exists>ds kvs. py_get spec ''dataSource'' JNull = Inr ds \<and> py_get ds ''type'' JNull = Inr (jb_datasource_type sett) \<and>
        source_fields (full_name ?s0) crd ds = Inr kvs \<and> jb_datasource_config sett = JDict (dict_update [] kvs))"
    by (rule apply_crd_config_inv [OF n(4) null])
  note h = handler_inv [OF f(1)]
  obtain ty where ty: "jb_datasource_type sett = JStr ty"
    and new: "case jb_handler j of
         Static h \<Rightarrow> py_lower ty = ''static'' \<and> new_static_handler (jb_index_name sett) (py_or (jb_datasource_config sett) (JDict [])) (new_rag_client endpoint) k8s prov = Inr h
       | Git g \<Rightarrow> py_lower ty = ''git'' \<and> new_git_handler (jb_index_name sett) (py_or (jb_datasource_config sett) (JDict [])) (new_rag_client endpoint) k8s prov = Inr g
       | Kusto k \<Rightarrow> py_lower ty = ''database'' \<and> new_kusto_handler (jb_index_name sett) (py_or (jb_datasource_config sett) (JDict [])) (new_rag_client endpoint) k8s prov = Inr k"
    using h(3) by blast
  have "jb_datasource_type sett \<noteq> jb_datasource_type ?s0" using ty by (simp add: new_settings_def)
  then obtain ds kvs where d: "py_get spec ''dataSource'' JNull = Inr ds" "py_get ds ''type'' JNull = Inr (JStr ty)"
    "source_fields (full_name ?s0) crd ds = Inr kvs" "jb_datasource_config sett = JDict (dict_update [] kvs)"
    using a(8) ty by auto
  have name: "full_name ?s0 = NAMESPACE cfg @ ''_'' @ AUTOINDEXER_NAME cfg" by (simp add: full_name_def new_settings_def)
  have engine: "\<exists>engine. py_get spec ''ragEngine'' JNull = Inr engine \<and> truthy engine \<and>
      jb_rag_client j = new_rag_client (''http://'' @ py_format engine @ ''.'' @ NAMESPACE cfg @ ''.svc.cluster.local:80'')"
    using a(5) f(3,4) by (auto simp: endpoint_of_def n(1))
  have secret: "jb_access_secret sett = ACCESS_SECRET cfg" "jb_credentials_config ?s0 = JNull"
    using a(6) by (simp_all add: new_settings_def)
  have creds: "\<exists>creds. py_get spec ''credentials'' JNull = Inr creds \<and>
      credentials_from E (ACCESS_SECRET cfg) creds (jb_credential_provider j)"
    using a(7) create_credential_provider_from [OF f(6)] unfolding secret f(5) by (auto simp: credentials_from_null)
  have "ty \<noteq> ''''" using new by (auto simp: py_lower_def split: data_source_handler.splits)
  then have src: "(\<exists>c. JStr ty = JStr ''Git'' \<and> py_get ds ''git'' JNull = Inr c \<and> git_fields (full_name ?s0) crd c = Inr kvs) \<or>
    (\<exists>c. JStr ty = JStr ''Static'' \<and> py_get ds ''static'' JNull = Inr c \<and> static_fields (full_name ?s0) crd c = Inr kvs) \<or>
    (\<exists>c. JStr ty = JStr ''Database'' \<and> py_get ds ''database'' JNull = Inr c \<and> database_fields (full_name ?s0) crd c = Inr kvs)"
    by (intro source_fields_inv [OF d(3,2)]) simp
  show ?thesis
  proof (rule that [OF n(1-3,6) _ h(1,2) a(1) _ _ d(1) _ _ engine creds])
    show "jb_k8s_client j = Some k8s" using jb(2) a(4) by simp
    show "py_get spec ''indexName'' JNull = Inr (jb_index_name j)" "truthy (jb_index_name j)"
      using a(2,3) jb(1) by simp_all
    have both: "made_from crd ds (jb_handler j) \<and>
      handler_common (jb_handler j) = (jb_index_name j, new_rag_client endpoint, k8s, prov, JStr (full_name ?s0))"
    proof (cases "jb_handler j")
      case (Static h)
      with new have "ty = ''Static''" using src by (auto simp: type_names)
      moreover then obtain c where c: "py_get ds ''static'' JNull = Inr c" "static_fields (full_name ?s0) crd c = Inr kvs"
        using src by auto
      moreover have "new_static_handler (jb_index_name j) (py_or (JDict (dict_update [] kvs)) (JDict [])) (new_rag_client endpoint)
          k8s prov = Inr h"
        using Static new d(4) jb(1) by simp
      ultimately show ?thesis using Static d(2) static_made_from by simp
    next
      case (Git g)
      with new have "ty = ''Git''" using src by (auto simp: type_names)
      moreover then obtain c where c: "py_get ds ''git'' JNull = Inr c" "git_fields (full_name ?s0) crd c = Inr kvs"
        using src by auto
      moreover have "new_git_handler (jb_index_name j) (py_or (JDict (dict_update [] kvs)) (JDict [])) (new_rag_client endpoint)
          k8s prov = Inr g"
        using Git new d(4) jb(1) by simp
      ultimately show ?thesis using Git d(2) git_made_from by simp
    next
      case (Kusto k)
      with new have "ty = ''Database''" using src by (auto simp: type_names)
      moreover then obtain c where c: "py_get ds ''database'' JNull = Inr c" "database_fields (full_name ?s0) crd c = Inr kvs"
        using src by auto
      moreover have "new_kusto_handler (jb_index_name j) (py_or (JDict (dict_update [] kvs)) (JDict [])) (new_rag_client endpoint)
          k8s prov = Inr k"
        using Kusto new d(4) jb(1) by simp
      ultimately show ?thesis using Kusto d(2) database_made_from by simp
    qed
    then show "made_from crd ds (jb_handler j)"
      "handler_common (jb_handler j) = (jb_index_name j, jb_rag_client j, k8s, jb_credential_provider j,
        JStr (NAMESPACE cfg @ ''_'' @ AUTOINDEXER_NAME cfg))"
      by (simp_all add: f(4,5) name)
  qed
qed

lemma new_job_handler:
  assumes "new_job E cfg dry_run (s, t) = (Inr j, s', t')"
  obtains k8s crd ds t1 where "k8s = \<lparr>kc_namespace = NAMESPACE cfg, kc_name = AUTOINDEXER_NAME cfg\<rparr>"
    and "kc_name k8s \<noteq> ''''" and "k8s_get E (K8sGet (object_path k8s)) t1 = Inr crd"
    and "\<exists>u. t1 = t @ u \<and> list_all (\<lambda>c. \<not> is_k8s_write c) u"
    and "jb_k8s_client j = Some k8s" and "handler_client (jb_handler j) = k8s" and "handler_fresh (jb_handler j)"
    and "made_from crd ds (jb_handler j)"
  by (rule new_job_parts [OF assms]) (rule that; assumption)

text \<open>C15: The job that is made. Its index is the one of the resource, the address of its engine the service
  of that name in the configured namespace, its credentials those the resource asks for: the secret of the
  environment, or a workload identity with the client and the tenant under \<open>workloadIdentityRef\<close>. Its
  handler shares them with it, has the client of the configured name and the name of namespace and
  resource, and is fresh, of the type of the data source, spelled as in the resource's schema, with
  the repository, branch, commit and paths, the URLs, or the language and queries the resource gives,
  each with its default, and with the commit and the conditions of the status.\<close>

theorem job_configuration:
  assumes "new_job E cfg dry_run (s, t) = (Inr j, s', t')"
  shows "\<exists>k8s crd spec ds t1. k8s = \<lparr>kc_namespace = NAMESPACE cfg, kc_name = AUTOINDEXER_NAME cfg\<rparr> \<and>
    k8s_get E (K8sGet (object_path k8s)) t1 = Inr crd \<and>
    jb_k8s_client j = Some k8s \<and> handler_client (jb_handler j) = k8s \<and> handler_fresh (jb_handler j) \<and>
    py_get crd ''spec'' (JDict []) = Inr spec \<and> py_get spec ''indexName'' JNull = Inr (jb_index_name j) \<and>
    truthy (jb_index_name j) \<and> py_get spec ''dataSource'' JNull = Inr ds \<and>
    made_from crd ds (jb_handler j) \<and>
    handler_common (jb_handler j) = (jb_index_name j, jb_rag_client j, k8s, jb_credential_provider j,
      JStr (NAMESPACE cfg @ ''_'' @ AUTOINDEXER_NAME cfg)) \<and>
    (\<exists>engine. py_get spec ''ragEngine'' JNull = Inr engine \<and> truthy engine \<and>
      jb_rag_client j = new_rag_client (''http://'' @ py_format engine @ ''.'' @ NAMESPACE cfg @ ''.svc.cluster.local:80'')) \<and>
    (\<exists>creds. py_get spec ''credentials'' JNull = Inr creds \<and>
      credentials_from E (ACCESS_SECRET cfg) creds (jb_credential_provider j))"
proof -
  obtain k8s crd spec ds t1 where j: "k8s = \<lparr>kc_namespace = NAMESPACE cfg, kc_name = AUTOINDEXER_NAME cfg\<rparr>"
    "kc_name k8s \<noteq> ''''" "k8s_get E (K8sGet (object_path k8s)) t1 = Inr crd"
    "\<exists>u. t1 = t @ u \<and> list_all (\<lambda>c. \<not> is_k8s_write c) u"
    "jb_k8s_client j = Some k8s" "handler_client (jb_handler j) = k8s" "handler_fresh (jb_handler j)"
    "py_get crd ''spec'' (JDict []) = Inr spec" "py_get spec ''indexName'' JNull = Inr (jb_index_name j)"
    "truthy (jb_index_name j)" "py_get spec ''dataSource'' JNull = Inr ds"
    "made_from crd ds (jb_handler j)"
    "handler_common (jb_handler j) = (jb_index_name j, jb_rag_client j, k8s, jb_credential_provider j,
      JStr (NAMESPACE cfg @ ''_'' @ AUTOINDEXER_NAME cfg))"
    "\<exists>engine. py_get spec ''ragEngine'' JNull = Inr engine \<and> truthy engine \<and>
      jb_rag_client j = new_rag_client (''http://'' @ py_format engine @ ''.'' @ NAMESPACE cfg @ ''.svc.cluster.local:80'')"
    "\<exists>creds. py_get spec ''credentials'' JNull = Inr creds \<and>
      credentials_from E (ACCESS_SECRET cfg) creds (jb_credential_provider j)"
    by (rule new_job_parts [OF assms])
  show ?thesis
    by (rule exI [of _ k8s], rule exI [of _ crd], rule exI [of _ spec], rule exI [of _ ds], rule exI [of _ t1])
      (intro conjI j)
qed

lemma get_last_checkpoint_total:
  obtains ts u where "get_last_checkpoint_time E (q, t) = (Inr ts, q, u)"
proof -
  have total: "never_raises (get_last_checkpoint_time E)" unfolding get_last_checkpoint_time_def by (intro total_intros)
  have keep: "keeps_self (get_last_checkpoint_time E)" unfolding get_last_checkpoint_time_def by (intro frame_intros)
  obtain ts h u where run: "get_last_checkpoint_time E (q, t) = (Inr ts, h, u)"
    using never_raisesD [OF total, of "(q, t)"] by auto
  have "h = q" using keepsD [OF keep run] by simp
  with run show ?thesis by (intro that) simp
qed

text \<open>C13: Recovery. When the resource has an \<open>AutoIndexerError\<close> condition that is \<open>True\<close>, as a run with
  errors leaves it, the next job indexes a repository in full and runs the initial query of a database,
  whatever commit or time has been recorded.\<close>

theorem next_run_recovers:
  assumes "keeps_resource E k8s crd" and "k8s = \<lparr>kc_namespace = NAMESPACE cfg, kc_name = AUTOINDEXER_NAME cfg\<rparr>"
    and "wf_resource (last_patched crd t)" and "condition_is (last_patched crd t) ''AutoIndexerError'' ''True''"
    and "new_job E cfg dry_run (s, t) = (Inr j, s', t')"
  shows "case jb_handler j of
      Git g \<Rightarrow> git_index E (g, t'') = index_all_files E (g, t'')
    | Kusto k \<Rightarrow> fst (build_query E (k, t'')) = Inr (kh_initial_query k)
    | Static h \<Rightarrow> True"
proof -
  obtain k crd' ds t1 where j: "k = \<lparr>kc_namespace = NAMESPACE cfg, kc_name = AUTOINDEXER_NAME cfg\<rparr>"
    "kc_name k \<noteq> ''''" "k8s_get E (K8sGet (object_path k)) t1 = Inr crd'"
    "\<exists>u. t1 = t @ u \<and> list_all (\<lambda>c. \<not> is_k8s_write c) u"
    "jb_k8s_client j = Some k" "handler_client (jb_handler j) = k" "handler_fresh (jb_handler j)"
    "made_from crd' ds (jb_handler j)"
    by (rule new_job_handler [OF assms(5)])
  have k: "k = k8s" using j(1) assms(2) by simp
  have crd': "crd' = last_patched crd t"
    using j(3,4) keeps_resource_get [OF assms(1)] unfolding k by (auto simp: last_patched_reads)
  let ?cs = "resource_conditions crd'"
  have wf: "wf_resource crd'" using assms(3) crd' by simp
  then have d: "is_dict crd'" "is_dict (resource_status crd')" by (simp_all add: wf_resource_def wf_status_def)
  have conds: "py_get (resource_status crd') ''conditions'' (JList []) = Inr (JList ?cs)"
    using wf d(2) by (auto simp: wf_resource_def wf_status_def status_conditions_def split: option.splits json.splits)
  then have field: "status_field crd' ''conditions'' (JList []) = Inr (JList ?cs)"
    using d(1) by (simp add: status_field_def resource_status_def split: option.split)
  obtain c where c: "lookup_condition ''AutoIndexerError'' ?cs = Some c" "jget c ''status'' = Some (JStr ''True'')"
    using assms(4) crd' by blast
  then have "c \<in> set ?cs" "has_type ''AutoIndexerError'' c"
    by (auto simp: lookup_condition_def find_Some_iff)
  moreover have "list_all is_dict ?cs"
    using wf by (auto simp: wf_resource_def wf_status_def status_conditions_def split: option.splits json.splits)
  ultimately have err: "last_indexing_had_errors (JList ?cs) = Inr True"
    using c(2) by (auto simp: last_indexing_had_errors_def any_indexing_error_iff)
  show ?thesis
  proof (cases "jb_handler j")
    case (Static h)
    then show ?thesis by simp
  next
    case (Git g)
    with j(8) field have "gh_conditions g = JList ?cs" by simp
    with err Git show ?thesis by (simp add: git_index_def py_bind_def)
  next
    case (Kusto q)
    with j(8) field have q: "kh_conditions q = JList ?cs" by simp
    obtain ts u where "get_last_checkpoint_time E (q, t'') = (Inr ts, q, u)"
      by (rule get_last_checkpoint_total)
    with err q Kusto show ?thesis by (simp add: build_query_def py_bind_def)
  qed
qed

definition sample_config :: job_config where
  "sample_config = \<lparr>NAMESPACE = ''default'', AUTOINDEXER_NAME = ''docs'', ACCESS_SECRET = None\<rparr>"

definition sample_git_resource :: json where
  "sample_git_resource = JDict
     [(''metadata'', JDict [(''name'', JStr ''docs'')]),
      (''spec'', JDict [(''indexName'', JStr ''documentation-index''), (''ragEngine'', JStr ''rag''),
         (''dataSource'', JDict [(''type'', JStr ''Git''),
            (''git'', JDict [(''repository'', JStr ''https://example.com/r.git'')])])]),
      (''status'', JDict [(''lastIndexedCommit'', JStr ''abc''),
        (''conditions'', JList [JDict [(''type'', JStr ''AutoIndexerError''), (''status'', JStr ''True'')]])])]"

lemma sample_new_job:
  obtains j g t' where "new_job (sample_world sample_git_resource) sample_config False ((), []) = (Inr j, (), t')"
    and "jb_handler j = Git g" and "gh_branch g = JStr ''main''"
proof -
  have "case fst (new_job (sample_world sample_git_resource) sample_config False ((), [])) of
      Inl e \<Rightarrow> False | Inr j \<Rightarrow> (case jb_handler j of Git g \<Rightarrow> gh_branch g = JStr ''main'' | _ \<Rightarrow> False)"
    by code_simp
  then show ?thesis
    using that
    by (cases "new_job (sample_world sample_git_resource) sample_config False ((), [])")
      (auto split: sum.splits data_source_handler.splits)
qed

theorem next_run_recovers_witness:
  "\<exists>j g t'. new_job (sample_world sample_git_resource) sample_config False ((), []) = (Inr j, (), t') \<and>
    jb_handler j = Git g \<and>
    git_index (sample_world sample_git_resource) (g, t') = index_all_files (sample_world sample_git_resource) (g, t')"
proof -
  obtain j g t' where j: "new_job (sample_world sample_git_resource) sample_config False ((), []) = (Inr j, (), t')"
    "jb_handler j = Git g" by (rule sample_new_job)
  have wf: "wf_resource (last_patched sample_git_resource [])" by code_simp
  have err: "condition_is (last_patched sample_git_resource []) ''AutoIndexerError'' ''True''"
    by (rule exI [of _ "JDict [(''type'', JStr ''AutoIndexerError''), (''status'', JStr ''True'')]"]) code_simp
  show ?thesis
    using next_run_recovers [OF sample_keeps_resource refl wf err j(1), of t'] j by auto
qed

theorem job_configuration_witness:
  "\<exists>j g t' crd ds. new_job (sample_world sample_git_resource) sample_config False ((), []) = (Inr j, (), t') \<and>
    jb_handler j = Git g \<and> gh_branch g = JStr ''main'' \<and> made_from crd ds (Git g) \<and>
    gh_autoindexer_name g = JStr ''default_docs''"
proof -
  obtain j g t' where j: "new_job (sample_world sample_git_resource) sample_config False ((), []) = (Inr j, (), t')"
    "jb_handler j = Git g" "gh_branch g = JStr ''main''" by (rule sample_new_job)
  from job_configuration [OF j(1)] obtain crd ds i rag k8s prov where m: "made_from crd ds (Git g)"
    "handler_common (Git g) = (i, rag, k8s, prov, JStr (NAMESPACE sample_config @ ''_'' @ AUTOINDEXER_NAME sample_config))"
    unfolding j(2) by (elim exE conjE) (rule that)
  from m(2) have "gh_autoindexer_name g = JStr ''default_docs''" by (simp add: sample_config_def)
  with j m(1) show ?thesis by (intro exI conjI)
qed

text \<open>C36: The workload identity of a resource. In the schema of the resource the client and the tenant are under
  \<open>workloadIdentity\<close>, but the job reads \<open>workloadIdentityRef\<close>. When the resource has no such field, the
  client and the tenant of the credentials are those of the environment of the process, whatever the resource says, and these
  are the credentials of the job's handler, too.\<close>

theorem workload_identity_ignored:
  assumes "new_job E cfg dry_run (s, t) = (Inr j, s', t')"
    and "resource_stays E \<lparr>kc_namespace = NAMESPACE cfg, kc_name = AUTOINDEXER_NAME cfg\<rparr> t crd"
    and "py_get crd ''spec'' (JDict []) = Inr spec" and "py_get spec ''credentials'' JNull = Inr creds" and "is_dict creds"
    and "jget creds ''type'' = Some (JStr ''WorkloadIdentity'')" and "jget creds ''workloadIdentityRef'' = None"
  shows "\<exists>p. jb_credential_provider j = Some (AzureWorkloadIdentityProvider p) \<and>
    az_client_id p = env_json E ''AZURE_CLIENT_ID'' \<and> az_tenant_id p = env_json E ''AZURE_TENANT_ID'' \<and>
    fst (snd (snd (snd (handler_common (jb_handler j))))) = Some (AzureWorkloadIdentityProvider p)"
proof -
  obtain k8s crd' spec' t1 creds' where j: "k8s = \<lparr>kc_namespace = NAMESPACE cfg, kc_name = AUTOINDEXER_NAME cfg\<rparr>"
    "k8s_get E (K8sGet (object_path k8s)) t1 = Inr crd'" "\<exists>u. t1 = t @ u \<and> list_all (\<lambda>c. \<not> is_k8s_write c) u"
    "py_get crd' ''spec'' (JDict []) = Inr spec'"
    "handler_common (jb_handler j) = (jb_index_name j, jb_rag_client j, k8s, jb_credential_provider j,
      JStr (NAMESPACE cfg @ ''_'' @ AUTOINDEXER_NAME cfg))"
    "py_get spec' ''credentials'' JNull = Inr creds'" "credentials_from E (ACCESS_SECRET cfg) creds' (jb_credential_provider j)"
    by (rule new_job_parts [OF assms(1)]) blast
  have "crd' = crd" using j(2,3) assms(2) unfolding resource_stays_def j(1) by auto
  then have same: "creds' = creds" using j(4,6) assms(3,4) by simp
  have "truthy creds" using assms(5,6) by (cases creds) auto
  moreover have "py_get creds ''type'' JNull = Inr (JStr ''WorkloadIdentity'')"
    "py_get creds ''workloadIdentityRef'' (JDict []) = Inr (JDict [])"
    using assms(5-7) by simp_all
  ultimately have "jb_credential_provider j = Some (AzureWorkloadIdentityProvider (new_azure_provider E JNull JNull JNull))"
    using j(7) unfolding same by (simp add: credentials_from_def)
  then show ?thesis using j(5) by (simp add: new_azure_provider_def py_or_def)
qed

definition sample_identity_resource :: json where
  "sample_identity_resource = JDict
     [(''spec'', JDict [(''indexName'', JStr ''documentation-index''), (''ragEngine'', JStr ''rag''),
         (''dataSource'', JDict [(''type'', JStr ''Static''),
            (''static'', JDict [(''urls'', JList [JStr ''https://example.com/a.txt''])])]),
         (''credentials'', JDict [(''type'', JStr ''WorkloadIdentity''),
            (''workloadIdentity'', JDict [(''cloudProvider'', JStr ''Azure''),
               (''azureWorkloadIdentity'', JDict [(''clientID'', JStr ''1234''), (''tenantID'', JStr ''8765'')])])])])]"

theorem workload_identity_ignored_witness:
  "\<exists>j t' p. new_job (sample_world sample_identity_resource) sample_config False ((), []) = (Inr j, (), t') \<and>
    jb_credential_provider j = Some (AzureWorkloadIdentityProvider p) \<and> az_client_id p = JNull"
proof -
  let ?E = "sample_world sample_identity_resource"
  have "\<not> isl (fst (new_job ?E sample_config False ((), [])))" by code_simp
  then obtain j t' where j: "new_job ?E sample_config False ((), []) = (Inr j, (), t')"
    by (cases "new_job ?E sample_config False ((), [])", cases "fst (new_job ?E sample_config False ((), []))") auto
  have stays: "resource_stays ?E k8s [] sample_identity_resource" for k8s
    unfolding resource_stays_def sample_world_def by (simp add: last_patched_patched no_write_no_patch)
  let ?creds = "JDict [(''type'', JStr ''WorkloadIdentity''), (''workloadIdentity'', JDict [(''cloudProvider'', JStr ''Azure''),
     (''azureWorkloadIdentity'', JDict [(''clientID'', JStr ''1234''), (''tenantID'', JStr ''8765'')])])]"
  have spec: "py_get sample_identity_resource ''spec'' (JDict []) = Inr (the (jget sample_identity_resource ''spec''))"
    and creds: "py_get (the (jget sample_identity_resource ''spec'')) ''credentials'' JNull = Inr ?creds"
    and fields: "is_dict ?creds" "jget ?creds ''type'' = Some (JStr ''WorkloadIdentity'')" "jget ?creds ''workloadIdentityRef'' = None"
    by (simp_all add: sample_identity_resource_def)
  have env: "env_json ?E ''AZURE_CLIENT_ID'' = JNull" by (simp add: env_json_def sample_world_def)
  show ?thesis
    using j workload_identity_ignored [OF j stays spec creds fields] unfolding env by blast
qed

subsection \<open>The exit code\<close>

text \<open>One execution of the program, from any history: it either makes no job and writes nothing, or
  runs the job to its end.\<close>

lemma main_step:
  assumes "read_config E = Inr cfg" and "k8s = \<lparr>kc_namespace = NAMESPACE cfg, kc_name = AUTOINDEXER_NAME cfg\<rparr>"
    and "keeps_resource E k8s crd" and "wf_resource (last_patched crd t)" and "counters_ok (last_patched crd t)"
  obtains (no_job) u where "main E dry_run ((), t) = (Inr 1, (), t @ u)" and "isl (fst (new_job E cfg dry_run ((), t)))"
      and "patched u = []" and "created_events u = []"
  | (job) ok u ev where "main E dry_run ((), t) = (Inr (if ok then 0 else 1), (), t @ u)"
      and "condition_is (last_patched crd (t @ u)) ''AutoIndexerError'' (if ok then ''False'' else ''True'')"
      and "ok \<longrightarrow> condition_is (last_patched crd (t @ u)) ''AutoIndexerIndexing'' ''False''"
      and "counted (last_patched crd (t @ u)) ''successfulIndexingCount'' =
        counted (last_patched crd t) ''successfulIndexingCount'' + (if ok then 1 else 0)"
      and "counted (last_patched crd (t @ u)) ''errorIndexingCount'' =
        counted (last_patched crd t) ''errorIndexingCount'' + (if ok then 0 else 1)"
      and "created_events u = [ev]" and "ev_reason ev = (if ok then ''IndexingCompleted'' else ''IndexingFailed'')"
      and "\<forall>k. k \<noteq> ''status'' \<longrightarrow> jget (last_patched crd (t @ u)) k = jget (last_patched crd t) k"
      and "wf_resource (last_patched crd (t @ u))" and "counters_ok (last_patched crd (t @ u))"
proof -
  obtain r s t1 where new: "new_job E cfg dry_run ((), t) = (r, s, t1)" by (metis prod.collapse)
  obtain v where v: "t1 = t @ v" "list_all (\<lambda>c. \<not> is_k8s_write c) v"
    using emitsD [OF new_job_emits [of E cfg dry_run], of "((), t)"] new by auto
  show ?thesis
  proof (cases r)
    case (Inl e)
    with new v have "main E dry_run ((), t) = (Inr 1, (), t @ v)"
      using assms(1) by (simp add: main_def main_run_def py_bind_def py_try_def)
    then show ?thesis by (rule no_job) (use new Inl no_write_no_patch [OF v(2)] in simp_all)
  next
    case (Inr j)
    note new' = new [unfolded Inr]
    obtain k crd' ds t2 where j: "k = \<lparr>kc_namespace = NAMESPACE cfg, kc_name = AUTOINDEXER_NAME cfg\<rparr>"
      "kc_name k \<noteq> ''''" "k8s_get E (K8sGet (object_path k)) t2 = Inr crd'"
      "\<exists>u. t2 = t @ u \<and> list_all (\<lambda>c. \<not> is_k8s_write c) u"
      "jb_k8s_client j = Some k" "handler_client (jb_handler j) = k" "handler_fresh (jb_handler j)"
      "made_from crd' ds (jb_handler j)"
      by (rule new_job_handler [OF new'])
    have k: "k = k8s" using j(1) assms(2) by simp
    have c: "connected E crd k8s j" using assms(3) j(2,5) by (simp add: connected_def k)
    have same: "last_patched crd t1 = last_patched crd t" unfolding v(1) by (rule last_patched_reads [OF v(2)])
    have w: "wf_resource (last_patched crd t1)" "counters_ok (last_patched crd t1)" using assms(4,5) same by simp_all
    obtain ok j' u ev where run: "job_run E (j, t1) = (Inr ok, j', t1 @ u)"
      "condition_is (last_patched crd (t1 @ u)) ''AutoIndexerError'' (if ok then ''False'' else ''True'')"
      "ok \<longrightarrow> condition_is (last_patched crd (t1 @ u)) ''AutoIndexerIndexing'' ''False''"
      "counted (last_patched crd (t1 @ u)) ''successfulIndexingCount'' =
        counted (last_patched crd t1) ''successfulIndexingCount'' + (if ok then 1 else 0)"
      "counted (last_patched crd (t1 @ u)) ''errorIndexingCount'' =
        counted (last_patched crd t1) ''errorIndexingCount'' + (if ok then 0 else 1)"
      "created_events u = [ev]" "ev_reason ev = (if ok then ''IndexingCompleted'' else ''IndexingFailed'')"
      "\<forall>k. k \<noteq> ''status'' \<longrightarrow> jget (last_patched crd (t1 @ u)) k = jget (last_patched crd t1) k"
      "wf_resource (last_patched crd (t1 @ u))" "counters_ok (last_patched crd (t1 @ u))"
      using job_run_final [OF c j(6) [unfolded k] j(7) w]
      by (elim exE conjE) (rule that; (assumption | rule exI, rule conjI, assumption, assumption))
    have app: "t @ v @ u = t1 @ u" by (simp add: v(1))
    have "main E dry_run ((), t) = (Inr (if ok then 0 else 1), (), t @ v @ u)"
      using assms(1) new' run(1) v(1) by (simp add: main_def main_run_def py_bind_def py_try_def py_on_def)
    then show ?thesis
      by (rule job [where ev = ev])
        (use run(2-) no_write_no_patch [OF v(2)] in \<open>simp_all add: app same\<close>)
  qed
qed

text \<open>C9: The exit code and the resource. With a configuration and a server that keeps what is written, the program
  ends with code 0 or 1. Code 0 means that the resource says that indexing has ended without errors and
  that one more run has succeeded; code 1 that either the job could not be made and nothing was written, or the
  resource has the error condition and one more failed run.\<close>

theorem main_exit_code:
  assumes "read_config E = Inr cfg" and "k8s = \<lparr>kc_namespace = NAMESPACE cfg, kc_name = AUTOINDEXER_NAME cfg\<rparr>"
    and "keeps_resource E k8s crd" and "wf_resource crd" and "counters_ok crd"
  shows "\<exists>code u. main E dry_run ((), []) = (Inr code, (), u) \<and>
    (code = 0 \<and> condition_is (last_patched crd u) ''AutoIndexerError'' ''False'' \<and>
       condition_is (last_patched crd u) ''AutoIndexerIndexing'' ''False'' \<and>
       counted (last_patched crd u) ''successfulIndexingCount'' = counted crd ''successfulIndexingCount'' + 1 \<or>
     code = 1 \<and> isl (fst (new_job E cfg dry_run ((), []))) \<and> patched u = [] \<and> created_events u = [] \<or>
     code = 1 \<and> condition_is (last_patched crd u) ''AutoIndexerError'' ''True'' \<and>
       counted (last_patched crd u) ''errorIndexingCount'' = counted crd ''errorIndexingCount'' + 1)"
proof -
  have crd: "last_patched crd [] = crd" by simp
  show ?thesis
  proof (rule main_step [of E cfg k8s crd "[]" dry_run, unfolded crd append_Nil])
    fix u
    assume "main E dry_run ((), []) = (Inr 1, (), u)" "isl (fst (new_job E cfg dry_run ((), [])))"
      "patched u = []" "created_events u = []"
    then show ?thesis by (intro exI [of _ 1] exI [of _ u]) simp
  next
    fix ok u
    assume run: "main E dry_run ((), []) = (Inr (if ok then 0 else 1), (), u)"
      "condition_is (last_patched crd u) ''AutoIndexerError'' (if ok then ''False'' else ''True'')"
      "ok \<longrightarrow> condition_is (last_patched crd u) ''AutoIndexerIndexing'' ''False''"
      "counted (last_patched crd u) ''successfulIndexingCount'' =
        counted crd ''successfulIndexingCount'' + (if ok then 1 else 0)"
      "counted (last_patched crd u) ''errorIndexingCount'' =
        counted crd ''errorIndexingCount'' + (if ok then 0 else 1)"
    show ?thesis
      by (rule exI [of _ "if ok then 0 else 1"], rule exI [of _ u]) (use run in \<open>cases ok; simp\<close>)
  qed (use assms in simp_all)
qed

definition sample_env :: env where
  "sample_env = (sample_world sample_git_resource)\<lparr>getenv := \<lambda>k. map_of
     [(''NAMESPACE'', ''default''), (''AUTOINDEXER_NAME'', ''docs'')] k\<rparr>"

theorem main_exit_code_witness:
  "\<exists>code u. main sample_env False ((), []) = (Inr code, (), u) \<and> (code = 0 \<or> code = 1)"
proof -
  have cfg: "read_config sample_env = Inr sample_config"
    by (simp add: sample_env_def read_config_def get_required_env_var_def sample_config_def)
  have keeps: "keeps_resource sample_env k8s sample_git_resource" for k8s
    by (simp add: keeps_resource_def sample_env_def sample_world_def)
  have wf: "wf_resource sample_git_resource" and ok: "counters_ok sample_git_resource" by code_simp+
  show ?thesis
    using main_exit_code [OF cfg refl keeps wf ok, of False]
    by (elim exE conjE disjE) (rule exI, rule exI, rule conjI, assumption, simp)+
qed

text \<open>The handler of a job that has been made records how its run went.\<close>

lemma made_always_records: "made_from crd ds d \<Longrightarrow> always_records E d"
  by (cases d) (auto simp: others_always_record intro: static_always_records)


lemma sample_env_job: obtains j t' where "new_job sample_env sample_config False ((), []) = (Inr j, (), t')"
proof -
  have "\<not> isl (fst (new_job sample_env sample_config False ((), [])))" by code_simp
  then show ?thesis
    using that by (cases "new_job sample_env sample_config False ((), [])", cases "fst (new_job sample_env sample_config False ((), []))") auto
qed


end
