(* ===== verification/Runs.thy ===== *)
theory Runs
  imports JobRun
begin

section \<open>Repeated runs\<close>

text \<open>
  The controller starts the program again and again, each time with the resource as the run before has
  left it. A history is what a number of executions of \<open>main\<close> have called, one after the other,
  together with their exit codes; nobody else writes the status.
\<close>

inductive run_history :: "env \<Rightarrow> bool \<Rightarrow> int list \<Rightarrow> trace \<Rightarrow> bool" for E dry_run where
  start: "run_history E dry_run [] []"
| run: "run_history E dry_run codes t \<Longrightarrow> main E dry_run ((), t) = (Inr ec, (), t') \<Longrightarrow>
    run_history E dry_run (codes @ [ec]) t'"

definition events_with :: "string \<Rightarrow> trace \<Rightarrow> int" where
  "events_with reason t = int (length (filter (\<lambda>ev. ev_reason ev = reason) (created_events t)))"

lemma events_with_append [simp]: "events_with r (t @ u) = events_with r t + events_with r u"
  by (simp add: events_with_def)

lemma events_with_simps [simp]:
  "events_with r [] = 0"
  "created_events u = [] \<Longrightarrow> events_with r u = 0"
  "created_events u = [ev] \<Longrightarrow> events_with r u = (if ev_reason ev = r then 1 else 0)"
  by (simp_all add: events_with_def)

text \<open>The books of a history: what the resource, the events and the exit codes say of the same runs.\<close>

definition books_agree :: "json \<Rightarrow> int list \<Rightarrow> trace \<Rightarrow> bool" where
  "books_agree crd codes t \<longleftrightarrow>
     wf_resource (last_patched crd t) \<and> counters_ok (last_patched crd t) \<and> set codes \<subseteq> {0, 1} \<and>
     counted (last_patched crd t) ''successfulIndexingCount'' =
       counted crd ''successfulIndexingCount'' + events_with ''IndexingCompleted'' t \<and>
     counted (last_patched crd t) ''errorIndexingCount'' =
       counted crd ''errorIndexingCount'' + events_with ''IndexingFailed'' t \<and>
     events_with ''IndexingCompleted'' t = int (count_list codes 0) \<and>
     events_with ''IndexingFailed'' t \<le> int (count_list codes 1) \<and>
     (\<forall>k. k \<noteq> ''status'' \<longrightarrow> jget (last_patched crd t) k = jget crd k) \<and>
     (codes \<noteq> [] \<and> last codes = 0 \<longrightarrow>
        condition_is (last_patched crd t) ''AutoIndexerError'' ''False'' \<and>
        condition_is (last_patched crd t) ''AutoIndexerIndexing'' ''False'')"

lemma books_agree_start: "wf_resource crd \<Longrightarrow> counters_ok crd \<Longrightarrow> books_agree crd [] []"
  by (simp add: books_agree_def)

lemma count_list_snoc: "count_list (xs @ [y]) x = count_list xs x + (if y = x then 1 else 0)"
  by (induction xs) simp_all

lemma books_agree_run:
  assumes "read_config E = Inr cfg" and "k8s = \<lparr>kc_namespace = NAMESPACE cfg, kc_name = AUTOINDEXER_NAME cfg\<rparr>"
    and "keeps_resource E k8s crd" and books: "books_agree crd codes t"
    and main: "main E dry_run ((), t) = (Inr ec, (), t')"
  shows "books_agree crd (codes @ [ec]) t'"
proof -
  have wf: "wf_resource (last_patched crd t)" "counters_ok (last_patched crd t)"
    using books by (simp_all add: books_agree_def)
  show ?thesis
  proof (rule main_step [OF assms(1-3) wf, where dry_run = dry_run], goal_cases)
    case (1 u)
    have same: "last_patched crd (t @ u) = last_patched crd t"
      using 1(3) by (simp add: last_patched_append last_patched_patched)
    from main 1(1) have "ec = 1" "t' = t @ u" by simp_all
    with books 1(4) same show ?case by (simp add: books_agree_def count_list_snoc)
  next
    case (2 ok u ev)
    from main 2(1) have c: "ec = (if ok then 0 else 1)" "t' = t @ u" by simp_all
    from books 2(2-10) show ?case
      unfolding c by (cases ok) (simp_all add: books_agree_def count_list_snoc)
  qed
qed

subsection \<open>Properties\<close>

text \<open>C2: The books of any number of runs. When the program is executed any number of times before a server that keeps what is
  written, the resource stays well-formed and everything outside its status as it was; the counters have grown by
  exactly the events of the kind, the events of completion are as many as the exit codes 0, those of
  failure at most as many as the exit codes 1, there is no other exit code, and after a run with code 0 the resource
  says that indexing has ended without errors.\<close>

theorem books_of_runs_agree:
  assumes "run_history E dry_run codes t"
    and "read_config E = Inr cfg" and "k8s = \<lparr>kc_namespace = NAMESPACE cfg, kc_name = AUTOINDEXER_NAME cfg\<rparr>"
    and "keeps_resource E k8s crd" and "wf_resource crd" and "counters_ok crd"
  shows "books_agree crd codes t"
  using assms(1)
proof (induction rule: run_history.induct)
  case start
  show ?case using assms(5,6) by (rule books_agree_start)
next
  case (run codes t ec t')
  show ?case by (rule books_agree_run [OF assms(2-4) run.IH run.hyps(2)])
qed

text \<open>Any history can be continued: a run always ends.\<close>

lemma run_history_continues:
  assumes "run_history E dry_run codes t" and "read_config E = Inr cfg"
    and "k8s = \<lparr>kc_namespace = NAMESPACE cfg, kc_name = AUTOINDEXER_NAME cfg\<rparr>"
    and "keeps_resource E k8s crd" and "books_agree crd codes t"
  shows "\<exists>ec t'. run_history E dry_run (codes @ [ec]) t'"
proof -
  have wf: "wf_resource (last_patched crd t)" "counters_ok (last_patched crd t)"
    using assms(5) by (simp_all add: books_agree_def)
  have "\<exists>ec u. main E dry_run ((), t) = (Inr ec, (), t @ u)"
    by (rule main_step [OF assms(2-4) wf, where dry_run = dry_run]) blast+
  then show ?thesis using run_history.run [OF assms(1)] by blast
qed

lemma sample_env_ready:
  "read_config sample_env = Inr sample_config" "keeps_resource sample_env k8s sample_git_resource"
  "wf_resource sample_git_resource" "counters_ok sample_git_resource"
proof -
  show "read_config sample_env = Inr sample_config"
    by (simp add: sample_env_def read_config_def get_required_env_var_def sample_config_def)
  show "keeps_resource sample_env k8s sample_git_resource"
    by (simp add: keeps_resource_def sample_env_def sample_world_def)
qed code_simp+

theorem books_of_runs_agree_witness:
  "\<exists>code1 code2 t. run_history sample_env False [code1, code2] t \<and>
     books_agree sample_git_resource [code1, code2] t"
proof -
  note ready = sample_env_ready(1) refl sample_env_ready(2)
  obtain c1 t1 where one: "run_history sample_env False [c1] t1"
    using run_history_continues [OF run_history.start ready books_agree_start [OF sample_env_ready(3,4)], where dry_run = False]
    by auto
  have "books_agree sample_git_resource [c1] t1"
    by (rule books_of_runs_agree [OF one ready sample_env_ready(3,4)])
  from run_history_continues [OF one ready this] obtain c2 t2 where two: "run_history sample_env False [c1, c2] t2"
    by auto
  with books_of_runs_agree [OF two ready sample_env_ready(3,4)] show ?thesis by blast
qed

end
