(* ===== verification/Logging.thy ===== *)
theory Logging
  imports Credentials
begin

section \<open>Logging\<close>

text \<open>
  \<open>jobs/autoindexer/utils/log.py\<close>: \<open>configure_otel_logging\<close>, which sends the records of Python's
  root logger to OpenTelemetry. The state is the module's flag, the root logger and what OpenTelemetry
  has been given. A provider is known by the attributes of its resource; its exporter always is the
  console. \<open>getattr(logging, name)\<close> is taken on the names of levels.
\<close>

type_synonym attributes = "(string \<times> string) list"

record log_handler =
  lh_level :: int
  lh_provider :: attributes

record log_state =
  ls_initialized :: bool
  ls_instrumented :: nat
  ls_providers :: "attributes list"
  ls_root_handlers :: "log_handler list"
  ls_root_level :: int

definition upper_char :: "char \<Rightarrow> char" where
  "upper_char c = (if 97 \<le> code c \<and> code c \<le> 122 then char_of (code c - 32) else c)"

definition log_levels :: "(string \<times> int) list" where
  "log_levels =
     [(''CRITICAL'', 50), (''FATAL'', 50), (''ERROR'', 40), (''WARNING'', 30), (''WARN'', 30), (''INFO'', 20),
      (''DEBUG'', 10), (''NOTSET'', 0)]"

text \<open>\<open>getattr(logging, log_level.upper(), logging.INFO)\<close>.\<close>

definition level_number :: "string \<Rightarrow> int" where
  "level_number log_level = (case map_of log_levels (map upper_char log_level) of None \<Rightarrow> 20 | Some n \<Rightarrow> n)"

definition getenv_or :: "env \<Rightarrow> string \<Rightarrow> string \<Rightarrow> string" where
  "getenv_or E k d = (case getenv E k of None \<Rightarrow> d | Some v \<Rightarrow> v)"

definition resource_attributes :: "env \<Rightarrow> string option \<Rightarrow> string option \<Rightarrow> attributes" where
  "resource_attributes E ns autoindexer_name =
     (let attrs = [(''service.name'', ''autoindexer''), (''service.version'', getenv_or E ''SERVICE_VERSION'' ''unknown'')];
          attrs = (case ns of
              None \<Rightarrow> attrs
            | Some n \<Rightarrow>
                if n = '''' then attrs
                else dict_update attrs [(''k8s.namespace.name'', n),
                  (''k8s.pod.name'', getenv_or E ''HOSTNAME'' ''unknown''), (''k8s.container.name'', ''autoindexer'')])
      in (case autoindexer_name of
            None \<Rightarrow> attrs
          | Some a \<Rightarrow> if a = '''' then attrs else dict_set ''autoindexer.name'' a attrs))"

text \<open>\<open>for h in root.handlers[:]: root.removeHandler(h)\<close>: the loop runs over a copy.\<close>

definition remove_handlers :: "log_handler list \<Rightarrow> log_handler list" where
  "remove_handlers hs = fold remove1 hs hs"

definition configure_otel_logging ::
  "env \<Rightarrow> string \<Rightarrow> string option \<Rightarrow> string option \<Rightarrow> (log_state, attributes) py" where
  "configure_otel_logging E log_level ns autoindexer_name =
     (let logger_provider = resource_attributes E ns autoindexer_name;
          handler = \<lparr>lh_level = level_number log_level, lh_provider = logger_provider\<rparr>
      in py_seq (py_set (\<lambda>s. s\<lparr>ls_providers := ls_providers s @ [logger_provider]\<rparr>))
         (py_seq (py_set (\<lambda>s. s\<lparr>ls_root_handlers := remove_handlers (ls_root_handlers s) @ [handler]\<rparr>))
         (py_seq (py_set (\<lambda>s. s\<lparr>ls_root_level := level_number log_level\<rparr>))
         (py_bind (py_self ls_initialized) (\<lambda>initialized.
          py_seq
            (if initialized then py_return ()
             else py_seq (py_set (\<lambda>s. s\<lparr>ls_instrumented := Suc (ls_instrumented s)\<rparr>))
                    (py_set (\<lambda>s. s\<lparr>ls_initialized := True\<rparr>)))
            (py_return logger_provider))))))"

lemma remove_handlers_all [simp]: "remove_handlers hs = []"
proof -
  have "fold remove1 hs (hs @ ks) = ks" for ks by (induction hs) simp_all
  from this [of "[]"] show ?thesis by (simp add: remove_handlers_def)
qed

lemma configure_otel_logging_run:
  "configure_otel_logging E lv ns name (s, t) =
    (Inr (resource_attributes E ns name),
     s\<lparr>ls_initialized := True, ls_instrumented := ls_instrumented s + (if ls_initialized s then 0 else 1),
       ls_providers := ls_providers s @ [resource_attributes E ns name],
       ls_root_handlers := [\<lparr>lh_level = level_number lv, lh_provider = resource_attributes E ns name\<rparr>],
       ls_root_level := level_number lv\<rparr>, t)"
  by (simp add: configure_otel_logging_def Let_def py_bind_def)

text \<open>What holds of the state once logging has been configured: one handler, with the level and the provider
  given last, and one instrumentation of the logging module per flag.\<close>

definition logging_ok :: "log_state \<Rightarrow> bool" where
  "logging_ok s \<longleftrightarrow> (\<exists>h. ls_root_handlers s = [h] \<and> lh_level h = ls_root_level s \<and> ls_providers s \<noteq> [] \<and>
     lh_provider h = last (ls_providers s)) \<and> ls_initialized s \<and> ls_instrumented s = 1"

definition log_start :: "log_state \<Rightarrow> bool" where
  "log_start s \<longleftrightarrow> \<not> ls_initialized s \<and> ls_instrumented s = 0"

lemma configured_logging:
  assumes "log_start s \<or> logging_ok s"
  shows "\<exists>s'. configure_otel_logging E lv ns name (s, t) = (Inr (resource_attributes E ns name), s', t) \<and>
    logging_ok s' \<and> ls_root_level s' = level_number lv \<and> last (ls_providers s') = resource_attributes E ns name"
  unfolding configure_otel_logging_run using assms by (auto simp: logging_ok_def log_start_def)

text \<open>The attributes in the order of the code.\<close>

definition pod_attributes :: "env \<Rightarrow> string option \<Rightarrow> attributes" where
  "pod_attributes E ns = (case ns of None \<Rightarrow> [] | Some n \<Rightarrow> if n = '''' then [] else
     [(''k8s.namespace.name'', n), (''k8s.pod.name'', getenv_or E ''HOSTNAME'' ''unknown''),
      (''k8s.container.name'', ''autoindexer'')])"

definition name_attributes :: "string option \<Rightarrow> attributes" where
  "name_attributes autoindexer_name =
     (case autoindexer_name of None \<Rightarrow> [] | Some a \<Rightarrow> if a = '''' then [] else [(''autoindexer.name'', a)])"

lemma resource_attributes_eq:
  "resource_attributes E ns autoindexer_name =
     [(''service.name'', ''autoindexer''), (''service.version'', getenv_or E ''SERVICE_VERSION'' ''unknown'')] @
     pod_attributes E ns @ name_attributes autoindexer_name"
  by (cases ns; cases autoindexer_name) (simp_all add: resource_attributes_def pod_attributes_def name_attributes_def)

lemma attributes_named:
  "map_of (resource_attributes E ns name) ''service.name'' = Some ''autoindexer''"
  "map_of (resource_attributes E ns name) ''k8s.namespace.name'' = (if ns = Some '''' then None else ns)"
proof -
  have "map_of (name_attributes name) ''k8s.namespace.name'' = None"
    by (cases name) (simp_all add: name_attributes_def)
  moreover have "map_of (pod_attributes E ns) ''k8s.namespace.name'' = (if ns = Some '''' then None else ns)"
    by (cases ns) (simp_all add: pod_attributes_def)
  ultimately show "map_of (resource_attributes E ns name) ''k8s.namespace.name'' = (if ns = Some '''' then None else ns)"
    by (auto simp: resource_attributes_eq map_add_def split: option.split)
qed (simp add: resource_attributes_eq)

subsection \<open>Properties\<close>

text \<open>C28: Logging stays configured. The first configuration, whatever handlers the root logger had, and each
  one after it leaves exactly one handler there, with the level asked for and the provider made last; the logging
  module is instrumented once in all, and the service and container of the job are among the attributes.\<close>

theorem logging_configured:
  assumes "log_start s \<or> logging_ok s"
  shows "\<exists>s'. configure_otel_logging E lv ns name (s, t) = (Inr (resource_attributes E ns name), s', t) \<and>
    logging_ok s' \<and> ls_root_level s' = level_number lv \<and>
    map_of (last (ls_providers s')) ''service.name'' = Some ''autoindexer'' \<and>
    map_of (last (ls_providers s')) ''k8s.namespace.name'' = (if ns = Some '''' then None else ns)"
proof -
  have "map_of (resource_attributes E ns name) ''service.name'' = Some ''autoindexer''"
    "map_of (resource_attributes E ns name) ''k8s.namespace.name'' = (if ns = Some '''' then None else ns)"
    by (rule attributes_named)+
  then show ?thesis using configured_logging [OF assms, of E lv ns name t] by auto
qed

definition sample_log_state :: log_state where
  "sample_log_state = \<lparr>ls_initialized = False, ls_instrumented = 0, ls_providers = [],
     ls_root_handlers = [\<lparr>lh_level = 0, lh_provider = []\<rparr>], ls_root_level = 30\<rparr>"

theorem logging_configured_witness:
  "\<exists>s'. configure_otel_logging (sample_world JNull) ''debug'' (Some ''default'') None (sample_log_state, []) =
      (Inr (resource_attributes (sample_world JNull) (Some ''default'') None), s', []) \<and>
    logging_ok s' \<and> ls_root_level s' = 10"
proof -
  have start: "log_start sample_log_state \<or> logging_ok sample_log_state"
    by (simp add: log_start_def sample_log_state_def)
  have level: "level_number ''debug'' = 10" by code_simp
  from logging_configured [OF start, of "sample_world JNull" "''debug''" "Some ''default''" None "[]"]
  show ?thesis unfolding level by blast
qed

end
