(* ===== verification/CommandLine.thy ===== *)
theory CommandLine
  imports Job Logging
begin

section \<open>The program\<close>

text \<open>
  \<open>main.py\<close> as it is started: the import, which reads the configuration and configures logging,
  the argument parser of \<open>main\<close>, and the job. \<open>argparse\<close> is modelled for the four options of this parser,
  with \<open>--option=value\<close>, unique prefixes, and letters after \<open>-h\<close> as CPython 3.12 reads them: each further \<open>h\<close> is \<open>-h\<close>
  again, a dash or an equals sign there is an error, and anything else is left over when the help ends the program.
\<close>

subsection \<open>The argument parser\<close>

record arguments =
  ar_mode :: string
  ar_dry_run :: bool
  ar_log_level :: string

definition long_options :: "string list" where
  "long_options = [''--help'', ''--mode'', ''--dry-run'', ''--log-level'']"

text \<open>The values an option accepts; one that is not listed takes no value.\<close>

definition log_choices :: "string list" where
  "log_choices = [''DEBUG'', ''INFO'', ''WARNING'', ''ERROR'']"

definition option_choices :: "(string \<times> string list) list" where
  "option_choices = [(''--mode'', [''index'']), (''--log-level'', log_choices)]"

definition default_arguments :: arguments where
  "default_arguments = \<lparr>ar_mode = ''index'', ar_dry_run = False, ar_log_level = ''INFO''\<rparr>"

text \<open>How an argument is read: as a value, an option with the value after an equals sign if there is one, an
  unknown option, a prefix of several options, or the separator \<open>--\<close>.\<close>

datatype token = Value string | Option string "string option" | Unknown | Ambiguous | Separator

definition partition_at :: "char \<Rightarrow> string \<Rightarrow> string \<times> string option" where
  "partition_at c s =
     (let name = takeWhile (\<lambda>x. x \<noteq> c) s
      in (name, if name = s then None else Some (drop (Suc (length name)) s)))"

definition all_digits :: "string \<Rightarrow> bool" where
  "all_digits s \<longleftrightarrow> list_all (\<lambda>c. 48 \<le> code c \<and> code c \<le> 57) s"

definition negative_number :: "string \<Rightarrow> bool" where
  "negative_number s =
     (case partition_at (CHR ''.'') (drop 1 s) of
        (a, None) \<Rightarrow> all_digits a \<and> a \<noteq> ''''
      | (a, Some b) \<Rightarrow> all_digits a \<and> all_digits b \<and> b \<noteq> '''')"

text \<open>Whether the help is reached with these characters after \<open>-h\<close>.\<close>

fun help_ok :: "string \<Rightarrow> bool" where
  "help_ok [] \<longleftrightarrow> True"
| "help_ok (c # cs) \<longleftrightarrow> (if c = CHR ''h'' then help_ok cs else c \<noteq> CHR ''-'' \<and> c \<noteq> CHR ''='')"

definition read_token :: "string \<Rightarrow> token" where
  "read_token s =
     (let (name, val) = partition_at (CHR ''='') s; found = filter (prefix name) long_options
      in if \<not> prefix ''-'' s \<or> s = ''-'' then Value s
         else if name \<in> set long_options then Option name val
         else if name = ''-h'' then Option ''--help'' val
         else if prefix ''--'' s \<and> length found > 1 then Ambiguous
         else if prefix ''--'' s \<and> length found = 1 then Option (hd found) val
         else if prefix ''-h'' s then Option ''--help'' (if help_ok (drop 2 s) then None else Some (drop 2 s))
         else if negative_number s \<or> CHR '' '' \<in> set s then Value s
         else Unknown)"

text \<open>After the separator every argument is a value.\<close>

fun read_tokens :: "string list \<Rightarrow> token list" where
  "read_tokens [] = []"
| "read_tokens (s # ss) = (if s = ''--'' then Separator # map Value ss else read_token s # read_tokens ss)"

definition set_argument :: "string \<Rightarrow> string \<Rightarrow> arguments \<Rightarrow> arguments" where
  "set_argument name v a =
     (if name = ''--mode'' then a\<lparr>ar_mode := v\<rparr> else if name = ''--log-level'' then a\<lparr>ar_log_level := v\<rparr> else a)"

definition store_value :: "string \<Rightarrow> string \<Rightarrow> arguments \<Rightarrow> int + arguments" where
  "store_value name v a =
     (case map_of option_choices name of
        None \<Rightarrow> Inl 2
      | Some vs \<Rightarrow> if v \<in> set vs then Inr (set_argument name v a) else Inl 2)"

text \<open>The options in turn: \<open>Inl\<close> is the exit code of the usage or the help text. An argument that no option
  takes is an error at the end.\<close>

fun take_tokens :: "bool \<Rightarrow> token list \<Rightarrow> arguments \<Rightarrow> int + arguments" where
  "take_tokens extra [] a = (if extra then Inl 2 else Inr a)"
| "take_tokens extra (Option name val # ts) a =
     (if name = ''--help'' then Inl (if val = None then 0 else 2)
      else if name = ''--dry-run''
      then (if val = None then take_tokens extra ts (a\<lparr>ar_dry_run := True\<rparr>) else Inl 2)
      else (case val of
          Some v \<Rightarrow> sum_bind (store_value name v a) (take_tokens extra ts)
        | None \<Rightarrow> (case ts of
            Value v # ts' \<Rightarrow> sum_bind (store_value name v a) (take_tokens extra ts')
          | _ \<Rightarrow> Inl 2)))"
| "take_tokens extra (_ # ts) a = take_tokens True ts a"

definition parse_args :: "string list \<Rightarrow> int + arguments" where
  "parse_args argv =
     (let ts = read_tokens argv in if Ambiguous \<in> set ts then Inl 2 else take_tokens False ts default_arguments)"

subsection \<open>The program\<close>

text \<open>An exception while the module is imported ends the interpreter with code 1.\<close>

definition program :: "env \<Rightarrow> string list \<Rightarrow> (log_state, int) py" where
  "program E argv =
     (case read_config E of
        Inl e \<Rightarrow> py_return 1
      | Inr cfg \<Rightarrow>
          py_bind (configure_otel_logging E ''INFO'' (Some (NAMESPACE cfg)) (Some (AUTOINDEXER_NAME cfg))) (\<lambda>_.
          case parse_args argv of
            Inl exit_code \<Rightarrow> py_return exit_code
          | Inr args \<Rightarrow>
              py_bind (configure_otel_logging E (ar_log_level args) (Some (NAMESPACE cfg)) (Some (AUTOINDEXER_NAME cfg)))
                (\<lambda>_. py_on (\<lambda>_. ()) (\<lambda>_ s. s) (main_run E cfg (ar_dry_run args)))))"

subsection \<open>What the parser accepts\<close>

definition accepted_arguments :: "arguments \<Rightarrow> bool" where
  "accepted_arguments a \<longleftrightarrow> ar_mode a = ''index'' \<and> ar_log_level a \<in> set log_choices"

definition accepted :: "int + arguments \<Rightarrow> bool" where
  "accepted r = (case r of Inl c \<Rightarrow> c = 0 \<or> c = 2 | Inr a \<Rightarrow> accepted_arguments a)"

lemma accepted_simps [simp]:
  "accepted (Inl c) = (c = 0 \<or> c = 2)"
  "accepted (Inr a) = accepted_arguments a"
  by (simp_all add: accepted_def)

lemma set_mode: "set_argument ''--mode'' v a = a\<lparr>ar_mode := v\<rparr>"
  by (simp add: set_argument_def)

lemma set_log_level: "set_argument ''--log-level'' v a = a\<lparr>ar_log_level := v\<rparr>"
  by (simp add: set_argument_def)

lemma option_choices_cases:
  "map_of option_choices name = Some vs \<Longrightarrow>
    name = ''--mode'' \<and> vs = [''index''] \<or> name = ''--log-level'' \<and> vs = log_choices"
  by (simp add: option_choices_def split: if_splits)

lemma store_value_accepted:
  assumes "accepted_arguments a"
  shows "accepted (store_value name v a)"
proof (cases "map_of option_choices name")
  case None
  then show ?thesis by (simp add: store_value_def)
next
  case (Some vs)
  show ?thesis
  proof (cases "v \<in> set vs")
    case False
    then show ?thesis using Some by (simp add: store_value_def)
  next
    case True
    have "accepted_arguments (set_argument name v a)"
      using option_choices_cases [OF Some] True assms
      by (elim disjE conjE; hypsubst) (auto simp: accepted_arguments_def set_mode set_log_level)
    then show ?thesis using Some True by (simp add: store_value_def)
  qed
qed

lemma take_tokens_accepted: "accepted_arguments a \<Longrightarrow> accepted (take_tokens extra ts a)"
proof (induction extra ts a rule: take_tokens.induct)
  case (2 extra name val ts a)
  have stored: "accepted (sum_bind (store_value name v a) (take_tokens extra ts'))"
    if "\<And>a'. accepted_arguments a' \<Longrightarrow> accepted (take_tokens extra ts' a')" for v ts'
    using that store_value_accepted [OF 2(4), of name v] by (cases "store_value name v a") simp_all
  show ?case
  proof (cases "name = ''--help'' \<or> name = ''--dry-run''")
    case True
    have "accepted_arguments (a\<lparr>ar_dry_run := True\<rparr>)" using 2(4) by (simp add: accepted_arguments_def)
    then show ?thesis using True 2(1) by auto
  next
    case other: False
    show ?thesis
    proof (cases val)
      case (Some v)
      then show ?thesis using other 2(3) by (auto intro!: stored)
    next
      case None
      then show ?thesis using other 2(2) by (auto intro!: stored split: list.split token.split)
    qed
  qed
qed simp_all

lemma default_accepted: "accepted_arguments default_arguments"
  by (simp add: accepted_arguments_def default_arguments_def log_choices_def)

lemma parse_args_accepted: "accepted (parse_args argv)"
  using take_tokens_accepted [OF default_accepted] by (simp add: parse_args_def Let_def)

subsection \<open>A dry run\<close>

text \<open>\<open>commutes \<phi> m\<close>: \<open>m\<close> does the same on an object changed by \<open>\<phi>\<close>.\<close>

definition commutes :: "('s \<Rightarrow> 's) \<Rightarrow> ('c, 's, 'a) eff \<Rightarrow> bool" where
  "commutes \<phi> m \<longleftrightarrow> (\<forall>s t. m (\<phi> s, t) = (case m (s, t) of (r, s', t') \<Rightarrow> (r, \<phi> s', t')))"

lemma commutesD: "commutes \<phi> m \<Longrightarrow> m (s, t) = (r, s', t') \<Longrightarrow> m (\<phi> s, t) = (r, \<phi> s', t')"
  by (simp add: commutes_def)

named_theorems commutes_intros

lemma commutes_basic [commutes_intros]:
  "commutes \<phi> (py_return x)"
  "commutes \<phi> (py_raise e)"
  "commutes \<phi> (py_lift r)"
  "commutes \<phi> (py_call c resp)"
  by (simp_all add: commutes_def)

lemma commutes_bind [commutes_intros]: "commutes \<phi> m \<Longrightarrow> (\<And>x. commutes \<phi> (f x)) \<Longrightarrow> commutes \<phi> (py_bind m f)"
  unfolding commutes_def py_bind_def by (auto split: prod.splits sum.splits)

lemma commutes_self:
  "(\<And>s. f (g (\<phi> s)) = f (g s)) \<Longrightarrow> (\<And>x. commutes \<phi> (f x)) \<Longrightarrow> commutes \<phi> (py_bind (py_self g) f)"
  unfolding commutes_def by (simp add: py_bind_def)

lemma commutes_try [commutes_intros]: "commutes \<phi> m \<Longrightarrow> (\<And>e. commutes \<phi> (h e)) \<Longrightarrow> commutes \<phi> (py_try m h)"
  unfolding commutes_def py_try_def by (auto split: prod.splits sum.splits)

lemma commutes_on [commutes_intros]: "(\<And>s. g (\<phi> s) = g s) \<Longrightarrow> (\<And>b s. u b (\<phi> s) = \<phi> (u b s)) \<Longrightarrow> commutes \<phi> (py_on g u m)"
  unfolding commutes_def py_on_def by (auto split: prod.splits)

lemma commutes_if [commutes_intros]: "commutes \<phi> m \<Longrightarrow> commutes \<phi> n \<Longrightarrow> commutes \<phi> (if b then m else n)"
  by simp

lemma commutes_case_option [commutes_intros]:
  "commutes \<phi> m \<Longrightarrow> (\<And>y. commutes \<phi> (f y)) \<Longrightarrow> commutes \<phi> (case x of None \<Rightarrow> m | Some y \<Rightarrow> f y)"
  by (cases x) simp_all

lemma commutes_clock [commutes_intros]: "commutes \<phi> (now E)" "commutes \<phi> (now_iso E)"
  by (auto simp: now_def now_iso_def intro!: commutes_intros)

lemma commutes_get [commutes_intros]: "commutes \<phi> (get_autoindexer E c)"
  unfolding get_autoindexer_def by (auto intro!: commutes_intros split: exn.split)

lemma commutes_api_false [commutes_intros]: "commutes \<phi> (api_false e)"
  by (auto simp: api_false_def intro!: commutes_intros split: exn.split)

lemma commutes_client [commutes_intros]:
  "commutes \<phi> (add_status_condition E c ty status reason message)"
  "commutes \<phi> (update_autoindexer_status E c upd)"
  "commutes \<phi> (increment_counter E c counter)"
  "commutes \<phi> (create_event E c reason message event_type)"
  unfolding add_status_condition_def update_autoindexer_status_def increment_counter_def create_event_def
    create_condition_def patch_status_def
  by (intro commutes_intros)+

lemma commutes_completion [commutes_intros]: "commutes \<phi> (update_indexing_completion E c success d n commit)"
  unfolding update_indexing_completion_def Let_def by (intro commutes_intros)

lemma commutes_engine [commutes_intros]:
  "commutes \<phi> (list_documents E c i f l k)"
  by (auto simp: list_documents_def intro!: commutes_intros)

text \<open>The flag is stored in the job and nothing reads it.\<close>

abbreviation flag_dry :: "bool \<Rightarrow> 'a job_settings_scheme \<Rightarrow> 'a job_settings_scheme" where
  "flag_dry b j \<equiv> j\<lparr>jb_dry_run := b\<rparr>"

lemma commutes_with_client [commutes_intros]:
  "(\<And>k8s. commutes (flag_dry b) (f k8s)) \<Longrightarrow> commutes (flag_dry b) (with_client f)"
  unfolding with_client_def by (rule commutes_self) (auto intro!: commutes_intros)

lemma commutes_handler [commutes_intros]: "commutes (flag_dry b) (py_on jb_handler set_handler m)"
  by (rule commutes_on) (simp_all add: set_handler_def)

lemma commutes_reports [commutes_intros]:
  "commutes (flag_dry b) (job_update_status_condition E ty status reason message)"
  "commutes (flag_dry b) (job_update_indexing_completion E success d n commit)"
  "commutes (flag_dry b) (job_create_completion_event E success n d errors)"
  unfolding job_update_status_condition_def job_update_indexing_completion_def job_create_completion_event_def
  by (intro commutes_intros)+

lemma commutes_update_index [commutes_intros]: "commutes (flag_dry b) (job_update_index E)"
  unfolding job_update_index_def by (auto intro!: commutes_intros split: exn.split)

lemma commutes_update_status [commutes_intros]: "commutes (flag_dry b) (job_update_autoindexer_status E)"
  unfolding job_update_autoindexer_status_def by (intro commutes_intros)

lemma commutes_count [commutes_intros]: "commutes (flag_dry b) (job_document_count E)"
  unfolding job_document_count_def
  by (rule commutes_self) (auto simp: full_name_def intro!: commutes_intros)

lemma commutes_run: "commutes (flag_dry b) (job_run E)"
  unfolding job_run_def run_indexing_def run_failed_def conclude_def by (intro commutes_intros)

lemma new_settings_dry: "new_settings cfg dry_run = flag_dry dry_run (new_settings cfg False)"
  by (simp add: new_settings_def)

lemma full_name_dry: "full_name (flag_dry b s) = full_name s"
  by (simp add: full_name_def)

lemma apply_dry:
  "apply_index_name spec (flag_dry b s) = map_sum id (flag_dry b) (apply_index_name spec s)"
  "apply_endpoint spec (flag_dry b s) = map_sum id (flag_dry b) (apply_endpoint spec s)"
  "apply_data_source crd spec (flag_dry b s) = map_sum id (flag_dry b) (apply_data_source crd spec s)"
  "apply_credentials spec (flag_dry b s) = map_sum id (flag_dry b) (apply_credentials spec s)"
  unfolding apply_index_name_def apply_endpoint_def apply_data_source_def apply_credentials_def full_name_dry
  by (auto simp: sum_bind_def split: sum.split option.split)

lemma apply_crd_config_dry:
  "apply_crd_config crd (flag_dry b s) = map_sum id (flag_dry b) (apply_crd_config crd s)"
  unfolding apply_crd_config_def by (auto simp: sum_bind_def apply_dry split: sum.split)

lemma select_dry:
  "jb_credentials_config (flag_dry b s) = jb_credentials_config s"
  "jb_access_secret (flag_dry b s) = jb_access_secret s"
  "jb_datasource_type (flag_dry b s) = jb_datasource_type s"
  "jb_datasource_config (flag_dry b s) = jb_datasource_config s"
  "jb_index_name (flag_dry b s) = jb_index_name s"
  by simp_all

lemma create_dry:
  "create_credential_provider E (flag_dry b s) = create_credential_provider E s"
  "create_data_source_handler (flag_dry b s) rag k8s provider = create_data_source_handler s rag k8s provider"
  unfolding create_credential_provider_def create_data_source_handler_def select_dry by (rule refl)+

lemma extend_dry: "job_settings.extend (flag_dry b s) x = flag_dry b (job_settings.extend s x)"
  by (simp add: job_settings.extend_def)

lemma map_sum_bind: "map_sum id g (sum_bind m f) = sum_bind m (\<lambda>x. map_sum id g (f x))"
  by (simp add: sum_bind_def split: sum.split)

lemma finish_job_dry: "finish_job E k8s (flag_dry b s) = map_sum id (flag_dry b) (finish_job E k8s s)"
proof (cases "jb_ragengine_endpoint s")
  case None
  then show ?thesis by (simp add: finish_job_def)
next
  case (Some endpoint)
  then show ?thesis by (simp add: finish_job_def create_dry map_sum_bind extend_dry)
qed

definition applied :: "env \<Rightarrow> k8s_client \<Rightarrow> json \<Rightarrow> job_settings \<Rightarrow> exn + job" where
  "applied E k8s crd s = sum_bind (if truthy crd then apply_crd_config crd s else Inr s) (finish_job E k8s)"

lemma applied_dry: "applied E k8s crd (flag_dry b s) = map_sum id (flag_dry b) (applied E k8s crd s)"
  by (auto simp: applied_def apply_crd_config_dry finish_job_dry sum_bind_def split: sum.split)

lemma new_job_dry:
  "new_job E cfg dry_run \<sigma> = (case new_job E cfg False \<sigma> of (r, \<sigma>') \<Rightarrow> (map_sum id (flag_dry dry_run) r, \<sigma>'))"
proof -
  have settings: "(new_settings cfg dry_run)\<lparr>jb_k8s_client := c\<rparr> =
      flag_dry dry_run ((new_settings cfg False)\<lparr>jb_k8s_client := c\<rparr>)" for c
    by (simp add: new_settings_def)
  show ?thesis
    unfolding new_job_def Let_def applied_def [symmetric] settings applied_dry
    by (auto simp: py_bind_def split: prod.split sum.split)
qed

lemma run_dry: "py_on (\<lambda>_. flag_dry b j) (\<lambda>_ s. s) (job_run E) = py_on (\<lambda>_. j) (\<lambda>_ s. s) (job_run E)"
  by (auto simp: py_on_def fun_eq_iff commutesD [OF commutes_run] split: prod.split)

lemma bind_dry: "py_bind (new_job E cfg dry_run) f = py_bind (new_job E cfg False) (\<lambda>j. f (flag_dry dry_run j))"
  by (auto simp: py_bind_def new_job_dry [of E cfg dry_run] fun_eq_iff split: prod.split sum.split)

lemma main_run_dry: "main_run E cfg dry_run = main_run E cfg False"
  unfolding main_run_def bind_dry [of E cfg dry_run] run_dry by (rule refl)

subsection \<open>Properties\<close>

text \<open>C10: What a command line does. With the configuration in place the parser ends the program with code 0 or 2
  and no call, or accepts the only mode and one of the four levels; logging then is configured with that level and
  the program makes the calls and returns the code of \<open>main\<close> without the flag: \<open>--dry-run\<close> changes nothing.\<close>

theorem program_runs:
  assumes "read_config E = Inr cfg" and "log_start ls \<or> logging_ok ls"
  shows "\<exists>ls'. logging_ok ls' \<and>
    (case parse_args argv of
       Inl exit_code \<Rightarrow> (exit_code = 0 \<or> exit_code = 2) \<and> program E argv (ls, t) = (Inr exit_code, ls', t)
     | Inr args \<Rightarrow> ar_mode args = ''index'' \<and> ar_log_level args \<in> set log_choices \<and>
         ls_root_level ls' = level_number (ar_log_level args) \<and>
         program E argv (ls, t) = (case main E False ((), t) of (r, _, t') \<Rightarrow> (r, ls', t')))"
proof -
  obtain ls1 where first: "configure_otel_logging E ''INFO'' (Some (NAMESPACE cfg)) (Some (AUTOINDEXER_NAME cfg)) (ls, t) =
      (Inr (resource_attributes E (Some (NAMESPACE cfg)) (Some (AUTOINDEXER_NAME cfg))), ls1, t)" and ok1: "logging_ok ls1"
    using configured_logging [OF assms(2)] by blast
  show ?thesis
  proof (cases "parse_args argv")
    case (Inl c)
    then show ?thesis
      using parse_args_accepted [of argv] first ok1 assms(1)
      by (intro exI [of _ ls1]) (simp add: program_def py_bind_def)
  next
    case (Inr a)
    obtain ls2 where second:
      "configure_otel_logging E (ar_log_level a) (Some (NAMESPACE cfg)) (Some (AUTOINDEXER_NAME cfg)) (ls1, t) =
        (Inr (resource_attributes E (Some (NAMESPACE cfg)) (Some (AUTOINDEXER_NAME cfg))), ls2, t)"
      and ok2: "logging_ok ls2" "ls_root_level ls2 = level_number (ar_log_level a)"
      using configured_logging [OF disjI2 [OF ok1]] by blast
    have run: "program E argv (ls, t) = (case main E False ((), t) of (r, _, t') \<Rightarrow> (r, ls2, t'))"
      using first second Inr assms(1)
      by (simp add: program_def py_bind_def main_def main_run_dry [of E cfg "ar_dry_run a"] py_on_def split: prod.split)
    show ?thesis
      using parse_args_accepted [of argv] Inr run ok2
      by (intro exI [of _ ls2]) (simp add: accepted_arguments_def)
  qed
qed

definition sample_program_env :: env where
  "sample_program_env = (sample_world JNull)\<lparr>getenv := (\<lambda>k.
     if k = ''NAMESPACE'' then Some ''default'' else if k = ''AUTOINDEXER_NAME'' then Some ''docs'' else None)\<rparr>"

text \<open>A debug run of the job's container, with the level abbreviated and a flag.\<close>

theorem program_runs_witness:
  "\<exists>ls'. logging_ok ls' \<and> ls_root_level ls' = 10 \<and>
    program sample_program_env [''--log=DEBUG'', ''--dry-run''] (sample_log_state, []) =
      (case main sample_program_env False ((), []) of (r, _, t') \<Rightarrow> (r, ls', t'))"
proof -
  have cfg: "\<exists>cfg. read_config sample_program_env = Inr cfg"
    by (simp add: sample_program_env_def read_config_def get_required_env_var_def)
  have start: "log_start sample_log_state \<or> logging_ok sample_log_state"
    by (simp add: log_start_def sample_log_state_def)
  have args: "parse_args [''--log=DEBUG'', ''--dry-run''] = Inr \<lparr>ar_mode = ''index'', ar_dry_run = True, ar_log_level = ''DEBUG''\<rparr>"
    by code_simp
  have level: "level_number ''DEBUG'' = 10" by code_simp
  from cfg obtain cfg where cfg: "read_config sample_program_env = Inr cfg" ..
  show ?thesis
    using program_runs [OF cfg start, of "[''--log=DEBUG'', ''--dry-run'']" "[]"]
    unfolding args by (simp add: level) blast
qed

end
