(* ===== verification/Spec2Isabelle.thy ===== *)
theory Spec2Isabelle
  imports StaticHandler GitHandler KustoHandler GitIncremental GitMirror JsonText Job JobRun Runs Logging CommandLine
begin

text \<open>
  The AutoIndexer job (\<open>src/jobs/autoindexer\<close>), the Python program that a Kubernetes job of the
  KAITO AutoIndexer runs once: it reads an \<open>AutoIndexer\<close> resource from the API server, gets
  documents from the data source the resource names (web pages, a git repository or a Kusto query),
  sends them in batches to a RAG engine, and reports the outcome in the status of the resource, in
  an event and in its exit code.

  \<^bold>\<open>How the parts interact.\<close> The program reads its configuration (\<open>config.py\<close>), configures logging
  (\<open>utils/log.py\<close>) and parses its command line. \<open>main\<close> makes an \<open>AutoIndexerJob\<close> (\<open>main.py\<close>), whose constructor fetches the
  resource through \<open>AutoIndexerK8sClient\<close> (\<open>k8s/k8s_client.py\<close>) and makes one of three handlers
  (\<open>data_source_handler/\<close>) with a \<open>KAITORAGClient\<close> (\<open>rag/rag_client.py\<close>) and a credential provider
  (\<open>credential_provider/\<close>). \<open>run\<close> announces the indexing in a status condition, calls the handler's
  \<open>update_index\<close> and \<open>update_autoindexer_status\<close>, states the conclusion in a condition, counts the run,
  and creates an event. The static and the git handler turn bytes into text by the content handlers
  (\<open>content_handler/\<close>). All share the resource: each write reads it, changes it and patches it back,
  and the next run reads the conditions, the last commit and the last time from it.

  \<^bold>\<open>How programs are modelled.\<close> Theory \<open>PyMonad\<close>: a method is a function from its object and the
  history of external calls to a result or an exception, the changed object and the longer history;
  \<open>py_try\<close>, \<open>py_finally\<close>, \<open>py_for\<close> and \<open>py_on\<close> (a method on a component of the object) are the
  statements. Exceptions do not undo anything. \<open>PyStr\<close>, \<open>PyVal\<close> and \<open>PyUrl\<close> hold what the code uses of
  strings, bytes, JSON values and \<open>urlparse\<close>. \<open>World\<close>: everything outside the program is a field of the
  record \<open>env\<close>, a function of the call and of all earlier calls, so every stateful service is an
  instance and the theorems hold for all answers, failures included. The effect of the
  program is the list of its calls. All loops are loops over lists, hence structural
  recursion, except \<open>slices\<close> of the Kusto handler, which has a termination proof; no fuel is used. The properties
  that a run ends say that it does not raise.

  \<^bold>\<open>Theories and sources.\<close>
  \<^item> \<open>Prelude\<close>: rule collections and generic lemmas.
  \<^item> \<open>K8sClient\<close>: \<open>k8s/k8s_client.py\<close>; status patches, conditions, counters and events. Locale
    \<open>condition_store\<close> is the contract of a list of conditions, with \<open>set_condition\<close> (here) and
    \<open>replace_condition\<close> (\<open>HandlerBase\<close>) as its two providers.
  \<^item> \<open>RagClient\<close>: \<open>rag/rag_client.py\<close> and the file languages of \<open>rag/utils.py\<close>.
  \<^item> \<open>ContentHandler\<close>: \<open>content_handler/\<close>; codecs, text and PDF handlers and the factory. Locale
    \<open>content_handler\<close> is what the factory relies on, interpreted on both handlers.
  \<^item> \<open>Credentials\<close>: \<open>credential_provider/\<close> and \<open>config.py\<close>.
  \<^item> \<open>HandlerBase\<close>: \<open>data_source_handler/handler.py\<close>, the status every handler writes, and the test for
    errors of the last run that two handlers share.
  \<^item> \<open>Batching\<close>: locale \<open>batching\<close>, a loop that collects documents and sends full batches; the static
    and the git handler's loops are interpretations.
  \<^item> \<open>Protocol\<close>: the abstract specification of a run, a state machine \<open>phases\<close> over its calls, rules to show that a
    program follows it, and locale \<open>data_source\<close>, what a job needs of a handler.
  \<^item> \<open>StaticHandler\<close>, \<open>GitHandler\<close>, \<open>KustoHandler\<close>: the three handlers, one definition per method, loop body or
    \<open>try\<close> statement, each an interpretation of \<open>data_source\<close>.
  \<^item> \<open>GitIncremental\<close>: the abstract specification of incremental indexing, an action per item of the diff, and
    that \<open>index_diff_files\<close> refines it.
  \<^item> \<open>GitMirror\<close>: the git handler together with an engine that keeps what it is sent (\<open>engine_step\<close> on the calls of
    the history; its contract is \<open>serves\<close>). \<open>contents\<close> abstracts the documents to a map from paths to texts, on which
    \<open>apply_item\<close> says what an item of the diff means; full and incremental indexing refine it.
  \<^item> \<open>JsonText\<close>: a reader of JSON strings, to state that the filters of listings keep what they name.
  \<^item> \<open>Job\<close>: \<open>AutoIndexerJob\<close> and \<open>main\<close> of \<open>main.py\<close>. \<open>JobRun\<close>: their properties; the handler of a job,
    whichever it is, is a \<open>data_source\<close> by the three interpretations.
  \<^item> \<open>Runs\<close>: any number of executions of \<open>main\<close>, one after the other, as the inductive \<open>run_history\<close>.
  \<^item> \<open>Logging\<close>: \<open>utils/log.py\<close> on the state of the root logger. \<open>CommandLine\<close>: the argument parser and the whole
    program; \<open>commutes\<close> says that a part of the object is not read.

  \<^bold>\<open>What the lemmas show.\<close> The clients: each operation's exact calls and result on every branch, one
  patch that keeps what it does not mention. The handlers: what is sent, in which order and in which batches, when
  everything or only changes are indexed, which errors are recorded, that a run ends normally
  whatever fails; with an engine that keeps its contract, the texts in the index follow those of the repository. The job: which handler is made from which resource; every run follows
  the protocol; at the end the error condition, the counters and the event agree with the result and the
  exit code; a run after errors indexes in full again. Content: the encodings tried, order of pages,
  what is refused. Several runs: the counters, the events and the exit codes of any number of executions
  agree. The command line: what is accepted, and that the flag for a dry run changes nothing.

  \<^bold>\<open>Hypotheses on the world\<close>, where a property needs any: \<open>keeps_resource\<close>, the server accepts patches and
  events and answers a read with what was patched last (nobody else writes the resource);
  \<open>resource_stays\<close>, reads after a point give the same resource; \<open>wf_resource\<close> and \<open>counters_ok\<close>, the
  types of the fields in the schema of the resource; \<open>still\<close>, the files and the head of the repository do not change during the
  indexing of a diff; \<open>steady\<close>, what is sent for an item does not change what the engine has for the paths of later items, which
  follows from \<open>serves\<close> (the engine stores, replaces and lists documents), \<open>tidy\<close> (no path or identifier is in the index twice)
  and \<open>apart\<close> (no two items of the diff concern one path). Witnesses show that they can hold.

  \<^bold>\<open>Abstractions.\<close> A string is its UTF-8 encoding; \<open>lower\<close> and \<open>strip\<close> act on ASCII; the clock counts
  microseconds; a cell of a Kusto table is \<open>None\<close> or the text \<open>str\<close> gives for it; a path matcher is a relation
  between patterns and paths, and compiling patterns does not fail; \<open>urlparse\<close> does not check IPv6
  literals; \<open>argparse\<close> is modelled for the options of this parser, and the usage it prints is not; OpenTelemetry is
  known by the attributes it has been given; the messages of exceptions of the interpreter are those of one version.

  \<^bold>\<open>Not modelled.\<close> Logging calls, except that \<open>display_sample_records\<close> gives the lines of the sample of a query;
  \<open>_get_optional_env_json\<close> (never called; it is \<open>json.loads\<close>), \<open>auth/__init__.py\<close> (imports a module
  that does not exist), the tests, and the controller under \<open>src/pkg\<close> and \<open>src/cmd\<close>, which is another
  program in Go.

  \<^bold>\<open>What modelling showed.\<close> Deletions of incremental indexing never reach the engine
  (\<open>git_deletions_fail\<close>), so a deleted file keeps its text in the index (\<open>git_index_mirrors\<close>); a static source without \<open>urls\<close> leaves the resource at indexing
  (\<open>static_without_urls_stuck\<close>); a failed query is not in the status of its handler
  (\<open>kusto_failure_not_in_status\<close>), and only the condition the job writes later sets it right
  (\<open>job_run_final_status\<close>); a cluster address with a trailing slash is not recognised
  (\<open>cluster_url_slash\<close>); the exception handler of \<open>run\<close> would raise where the listing fails (\<open>run_failed\<close>),
  but nothing reaches it; \<open>--dry-run\<close> is read by nothing (\<open>program_runs\<close>).
\<close>

end
